(* ===== verification/Prelude.thy ===== *)
theory Prelude
  imports Complex_Main "HOL-Library.Sublist" "HOL-Library.List_Lexorder" "HOL-Library.Char_ord"
begin

text \<open>
  The shared layer of the development: the Go string functions the sources call
  (package \<open>strings\<close>, \<open>strconv.FormatInt\<close>), results of fallible functions, association
  lists for Go maps, and the generic lemmas the component theories use.

  Text is a \<^typ>\<open>string\<close> of ASCII characters, so that bytes and runes coincide; case
  mapping and white space are those of the ASCII range.
\<close>

section \<open>Lemma collections\<close>

named_theorems str_simps \<open>unfolding rules of the string functions\<close>
named_theorems res_simps \<open>rules for fallible results\<close>

section \<open>Results\<close>

text \<open>A Go function returning \<open>(T, error)\<close> returns \<open>'e + 'a\<close>, with \<open>Inl\<close> for the error.\<close>

definition is_ok :: "'e + 'a \<Rightarrow> bool" where
  "is_ok r = (case r of Inl _ \<Rightarrow> False | Inr _ \<Rightarrow> True)"

lemma is_ok_simps [simp]: "is_ok (Inr x)" "\<not> is_ok (Inl e)"
  by (simp_all add: is_ok_def)

lemma is_ok_iff: "is_ok r \<longleftrightarrow> (\<exists>x. r = Inr x)"
  by (cases r) auto

text \<open>A loop that calls a fallible function on each element and stops at the first error.\<close>

fun collect :: "('e + 'a) list \<Rightarrow> 'e + 'a list" where
  "collect [] = Inr []"
| "collect (Inl e # rs) = Inl e"
| "collect (Inr x # rs) = (case collect rs of Inl e \<Rightarrow> Inl e | Inr xs \<Rightarrow> Inr (x # xs))"

lemma collect_map_Inr [simp]: "collect (map Inr xs) = Inr xs"
  by (induction xs) auto

lemma collect_Inr_iff: "collect rs = Inr xs \<longleftrightarrow> rs = map Inr xs"
  by (induction rs arbitrary: xs rule: collect.induct) (auto split: sum.splits)

lemma collect_Inl_mem: "collect rs = Inl e \<Longrightarrow> Inl e \<in> set rs"
  by (induction rs rule: collect.induct) (auto split: sum.splits)

lemma collect_first_error: "collect (map Inr xs @ Inl e # rs) = Inl e"
  by (induction xs) auto

section \<open>Go maps as association lists\<close>

text \<open>
  A Go map is an association list with distinct keys, in some iteration order; \<open>m[k]\<close> is
  \<^const>\<open>map_of\<close>, \<open>m[k] = v\<close> is \<open>map_put\<close> and \<open>delete\<close> is \<open>map_del\<close>.
\<close>

fun map_put :: "'k \<Rightarrow> 'v \<Rightarrow> ('k \<times> 'v) list \<Rightarrow> ('k \<times> 'v) list" where
  "map_put k v [] = [(k, v)]"
| "map_put k v ((k', v') # m) = (if k' = k then (k, v) # m else (k', v') # map_put k v m)"

definition map_del :: "'k \<Rightarrow> ('k \<times> 'v) list \<Rightarrow> ('k \<times> 'v) list" where
  "map_del k m = filter (\<lambda>p. fst p \<noteq> k) m"

definition map_has :: "'k \<Rightarrow> ('k \<times> 'v) list \<Rightarrow> bool" where
  "map_has k m = (map_of m k \<noteq> None)"

lemma map_of_map_put [simp]: "map_of (map_put k v m) = (map_of m)(k \<mapsto> v)"
  by (induction k v m rule: map_put.induct) auto

lemma set_keys_map_put [simp]: "fst ` set (map_put k v m) = insert k (fst ` set m)"
  by (induction k v m rule: map_put.induct) auto

lemma distinct_map_put [simp]: "distinct (map fst m) \<Longrightarrow> distinct (map fst (map_put k v m))"
  by (induction k v m rule: map_put.induct) (auto simp del: set_map simp: list.set_map)

lemma map_of_map_del [simp]: "map_of (map_del k m) = (map_of m)(k := None)"
  by (induction m) (auto simp: map_del_def fun_eq_iff)

lemma distinct_map_del [simp]: "distinct (map fst m) \<Longrightarrow> distinct (map fst (map_del k m))"
  by (simp add: map_del_def distinct_map_filter)

lemma map_has_iff: "map_has k m \<longleftrightarrow> k \<in> fst ` set m"
  by (simp add: map_has_def map_of_eq_None_iff)

text \<open>Values copied over a map: \<open>for k, v := range src { dst[k] = v }\<close>.\<close>

definition map_merge :: "('k \<times> 'v) list \<Rightarrow> ('k \<times> 'v) list \<Rightarrow> ('k \<times> 'v) list" where
  "map_merge dst src = foldl (\<lambda>m (k, v). map_put k v m) dst src"

lemma map_of_map_merge:
  "distinct (map fst src) \<Longrightarrow> map_of (map_merge dst src) = map_of dst ++ map_of src"
proof (induction src arbitrary: dst)
  case Nil
  then show ?case by (simp add: map_merge_def)
next
  case (Cons p src)
  obtain k v where p: "p = (k, v)" by fastforce
  from Cons.prems p have "map_of src k = None"
    by (force simp: map_of_eq_None_iff)
  moreover have "map_merge dst (p # src) = map_merge (map_put k v dst) src"
    by (simp add: map_merge_def p)
  ultimately show ?case
    using Cons.IH [of "map_put k v dst"] Cons.prems p
    by (auto simp: fun_eq_iff map_add_def split: option.splits)
qed

lemma distinct_map_merge:
  "distinct (map fst dst) \<Longrightarrow> distinct (map fst (map_merge dst src))"
  by (induction src arbitrary: dst) (auto simp: map_merge_def split: prod.splits)

section \<open>Strings\<close>

definition is_space :: "char \<Rightarrow> bool" where
  "is_space c = (c \<in> {CHR 0x09, CHR 0x0A, CHR 0x0B, CHR 0x0C, CHR 0x0D, CHR '' ''})"

text \<open>A character class \<open>[lo-hi]\<close> of a regular expression.\<close>

definition char_in :: "char \<Rightarrow> char \<Rightarrow> char \<Rightarrow> bool" where
  "char_in lo hi c = (lo \<le> c \<and> c \<le> hi)"

definition trim_left :: "string \<Rightarrow> string" where
  "trim_left s = dropWhile is_space s"

definition trim_space :: "string \<Rightarrow> string" where
  "trim_space s = rev (trim_left (rev (trim_left s)))"

definition to_upper_char :: "char \<Rightarrow> char" where
  "to_upper_char c = (let n = of_char c :: nat in if 97 \<le> n \<and> n \<le> 122 then char_of (n - 32) else c)"

definition to_lower_char :: "char \<Rightarrow> char" where
  "to_lower_char c = (let n = of_char c :: nat in if 65 \<le> n \<and> n \<le> 90 then char_of (n + 32) else c)"

definition to_upper :: "string \<Rightarrow> string" where
  "to_upper s = map to_upper_char s"

definition to_lower :: "string \<Rightarrow> string" where
  "to_lower s = map to_lower_char s"

definition equal_fold :: "string \<Rightarrow> string \<Rightarrow> bool" where
  "equal_fold s t = (to_lower s = to_lower t)"

definition has_prefix :: "string \<Rightarrow> string \<Rightarrow> bool" where
  "has_prefix s p = (take (length p) s = p)"

definition has_suffix :: "string \<Rightarrow> string \<Rightarrow> bool" where
  "has_suffix s p = (length p \<le> length s \<and> drop (length s - length p) s = p)"

fun index_of :: "string \<Rightarrow> string \<Rightarrow> nat option" where
  "index_of [] p = (if p = [] then Some 0 else None)"
| "index_of (c # s) p =
     (if has_prefix (c # s) p then Some 0 else map_option Suc (index_of s p))"

definition contains :: "string \<Rightarrow> string \<Rightarrow> bool" where
  "contains s p = (index_of s p \<noteq> None)"

definition contains_any :: "string \<Rightarrow> string \<Rightarrow> bool" where
  "contains_any s cs = (\<exists>c \<in> set s. c \<in> set cs)"

text \<open>\<open>strings.ReplaceAll\<close> with a one-character pattern.\<close>

definition replace_char :: "char \<Rightarrow> string \<Rightarrow> string \<Rightarrow> string" where
  "replace_char c r s = concat (map (\<lambda>x. if x = c then r else [x]) s)"

fun join :: "string \<Rightarrow> string list \<Rightarrow> string" where
  "join sep [] = []"
| "join sep [x] = x"
| "join sep (x # y # xs) = x @ sep @ join sep (y # xs)"

text \<open>\<open>strings.Split\<close> at a one-character separator: always at least one field.\<close>

fun split_char :: "char \<Rightarrow> string \<Rightarrow> string list" where
  "split_char c [] = [[]]"
| "split_char c (x # s) =
     (if x = c then [] # split_char c s
      else (case split_char c s of [] \<Rightarrow> [[x]] | w # ws \<Rightarrow> (x # w) # ws))"

text \<open>The maximal non-empty runs of characters that are not separators (\<open>strings.Fields\<close>).\<close>

definition words_by :: "(char \<Rightarrow> bool) \<Rightarrow> string \<Rightarrow> string list" where
  "words_by sep s =
     filter (\<lambda>w. w \<noteq> [])
       (foldr (\<lambda>c ws. if sep c then [] # ws else (case ws of [] \<Rightarrow> [[c]] | w # ws' \<Rightarrow> (c # w) # ws'))
         s [[]])"

definition fields :: "string \<Rightarrow> string list" where
  "fields s = words_by is_space s"

text \<open>\<open>strconv.FormatInt(n, 10)\<close> and \<open>fmt\<close>'s \<open>%d\<close>.\<close>

fun nat_digits :: "nat \<Rightarrow> string" where
  "nat_digits n =
     (if n < 10 then [char_of (48 + n)] else nat_digits (n div 10) @ [char_of (48 + n mod 10)])"

declare nat_digits.simps [simp del]

definition itoa :: "int \<Rightarrow> string" where
  "itoa i = (if i < 0 then CHR ''-'' # nat_digits (nat (- i)) else nat_digits (nat i))"

subsection \<open>Facts about strings\<close>

lemma has_prefix_append [simp]: "has_prefix (p @ s) p"
  by (simp add: has_prefix_def)

lemma has_prefix_iff: "has_prefix s p \<longleftrightarrow> (\<exists>t. s = p @ t)"
  by (metis append_eq_conv_conj append_take_drop_id has_prefix_def)

lemma drop_prefix: "has_prefix s p \<Longrightarrow> s = p @ drop (length p) s"
  by (auto simp: has_prefix_iff)

lemma trim_left_id: "s = [] \<or> \<not> is_space (hd s) \<Longrightarrow> trim_left s = s"
  by (cases s) (auto simp: trim_left_def)

lemma trim_left_idem [simp]: "trim_left (trim_left s) = trim_left s"
  by (simp add: trim_left_def)

lemma trim_left_hd: "trim_left s = [] \<or> \<not> is_space (hd (trim_left s))"
  unfolding trim_left_def using hd_dropWhile by blast

lemma trim_space_id:
  "s = [] \<or> (\<not> is_space (hd s) \<and> \<not> is_space (last s)) \<Longrightarrow> trim_space s = s"
  by (auto simp: trim_space_def trim_left_id hd_rev)

lemma trim_space_Nil [simp]: "trim_space [] = []"
  by (simp add: trim_space_def trim_left_def)

lemma trim_left_last:
  assumes "trim_left s \<noteq> []"
  shows "last (trim_left s) = last s"
proof -
  obtain p where "s = p @ trim_left s"
    by (metis takeWhile_dropWhile_id trim_left_def)
  with assms show ?thesis by (metis last_appendR)
qed

lemma trim_space_ends:
  "trim_space s = [] \<or> (\<not> is_space (hd (trim_space s)) \<and> \<not> is_space (last (trim_space s)))"
proof (cases "trim_space s = []")
  case False
  let ?u = "trim_left (rev (trim_left s))"
  have u: "?u \<noteq> []" "trim_space s = rev ?u"
    using False by (auto simp: trim_space_def)
  have "\<not> is_space (hd ?u)"
    using trim_left_hd [of "rev (trim_left s)"] u by blast
  then have l: "\<not> is_space (last (trim_space s))"
    using u by (simp add: last_rev)
  have "last ?u = last (rev (trim_left s))"
    using trim_left_last u(1) by blast
  moreover have "trim_left s \<noteq> []"
    using u(1) by (metis dropWhile.simps(1) rev.simps(1) trim_left_def)
  ultimately have "last ?u = hd (trim_left s)"
    by (simp add: last_rev)
  then have "\<not> is_space (hd (trim_space s))"
    using trim_left_hd [of s] \<open>trim_left s \<noteq> []\<close> u by (simp add: hd_rev)
  with l show ?thesis by simp
qed simp

lemma trim_space_idem [simp]: "trim_space (trim_space s) = trim_space s"
  by (rule trim_space_id) (use trim_space_ends in blast)

lemma length_to_upper [simp]: "length (to_upper s) = length s"
  by (simp add: to_upper_def)

lemma to_upper_char_idem [simp]: "to_upper_char (to_upper_char c) = to_upper_char c"
  by (auto simp: to_upper_char_def Let_def)

lemma to_upper_idem [simp]: "to_upper (to_upper s) = to_upper s"
  by (simp add: to_upper_def)

lemma to_lower_char_idem [simp]: "to_lower_char (to_lower_char c) = to_lower_char c"
  by (auto simp: to_lower_char_def Let_def)

lemma to_lower_idem [simp]: "to_lower (to_lower s) = to_lower s"
  by (simp add: to_lower_def)

text \<open>Words: the first run, then the words of the rest.\<close>

lemma words_by_Nil [simp]: "words_by sep [] = []"
  by (simp add: words_by_def)

lemma words_by_runs:
  "\<exists>ws. foldr (\<lambda>c ws. if sep c then [] # ws else (case ws of [] \<Rightarrow> [[c]] | w # ws' \<Rightarrow> (c # w) # ws'))
      s [[]] = takeWhile (\<lambda>c. \<not> sep c) s # ws \<and>
    filter (\<lambda>w. w \<noteq> []) ws = words_by sep (dropWhile (\<lambda>c. \<not> sep c) s)"
  by (induction s) (auto simp: words_by_def)

lemma words_by_Cons:
  "words_by sep (c # s) =
     (if sep c then words_by sep s
      else (c # takeWhile (\<lambda>c. \<not> sep c) s) # words_by sep (dropWhile (\<lambda>c. \<not> sep c) s))"
  using words_by_runs [of sep s] by (auto simp: words_by_def)

lemma join_space: "join [c] (w # ws) = w @ concat (map ((#) c) ws)"
  by (induction ws arbitrary: w) auto

text \<open>A chain of conditions stays in a set when every branch does.\<close>

lemma if_mem: "(b \<Longrightarrow> x \<in> S) \<Longrightarrow> (\<not> b \<Longrightarrow> y \<in> S) \<Longrightarrow> (if b then x else y) \<in> S"
  by simp

end
