(* ===== verification/Go_Value.thy ===== *)
theory Go_Value
  imports Prelude
begin

text \<open>
  The dynamic values that flow through the service (Go's \<open>any\<close>), floating point numbers,
  decimals and times, and the \<^emph>\<open>runtime\<close>: the functions of other packages that the sources
  call and that are not part of the repository (\<open>shopspring/decimal\<close>, \<open>xuri/efp\<close>) or whose
  text formats are fixed elsewhere (\<open>strconv.ParseFloat\<close>, \<open>time.Parse\<close>, the clock, the
  time zone database). A runtime is an argument of every definition that uses one of them.
\<close>

section \<open>Numbers\<close>

text \<open>
  A \<open>float64\<close> is a finite number, an infinity or NaN. Finite values carry the rational
  number they denote; the two zeros are one value, as they are for \<open>==\<close>.
\<close>

datatype f64 = Fin rat | PInf | NInf | NaN

text \<open>IEEE comparison: every comparison with NaN is false.\<close>

fun f64_le :: "f64 \<Rightarrow> f64 \<Rightarrow> bool" where
  "f64_le NaN _ = False"
| "f64_le _ NaN = False"
| "f64_le NInf _ = True"
| "f64_le _ PInf = True"
| "f64_le (Fin a) (Fin b) = (a \<le> b)"
| "f64_le _ _ = False"

definition f64_eq :: "f64 \<Rightarrow> f64 \<Rightarrow> bool" where
  "f64_eq a b = (a \<noteq> NaN \<and> a = b)"

definition f64_lt :: "f64 \<Rightarrow> f64 \<Rightarrow> bool" where
  "f64_lt a b = (f64_le a b \<and> \<not> f64_eq a b)"

text \<open>\<open>math.Trunc\<close> on a rational number: towards zero.\<close>

definition rat_trunc :: "rat \<Rightarrow> int" where
  "rat_trunc q = (if q < 0 then - \<lfloor>- q\<rfloor> else \<lfloor>q\<rfloor>)"

text \<open>Conversion of a 64-bit integer to \<open>float64\<close>: round to nearest, ties to even.\<close>

fun bit_length :: "nat \<Rightarrow> nat" where
  "bit_length n = (if n = 0 then 0 else Suc (bit_length (n div 2)))"

declare bit_length.simps [simp del]

definition round_bits :: "nat \<Rightarrow> nat" where
  "round_bits n =
     (let k = bit_length n - 53; q = n div 2 ^ k; r = n mod 2 ^ k; half = 2 ^ k div 2 in
      if k = 0 then n
      else if r > half \<or> (r = half \<and> odd q) then (q + 1) * 2 ^ k else q * 2 ^ k)"

definition f64_of_int :: "int \<Rightarrow> f64" where
  "f64_of_int i = Fin (of_int (sgn i * int (round_bits (nat \<bar>i\<bar>))))"

lemma bit_length_less: "n < 2 ^ b \<Longrightarrow> bit_length n \<le> b"
proof (induction n arbitrary: b rule: bit_length.induct)
  case (1 n)
  show ?case
  proof (cases "n = 0")
    case False
    with "1.prems" obtain b' where b: "b = Suc b'" by (cases b) auto
    with "1.prems" have "n div 2 < 2 ^ b'" by simp
    with "1.IH" False have "bit_length (n div 2) \<le> b'" by simp
    with False b show ?thesis by (simp add: bit_length.simps [of n])
  qed (simp add: bit_length.simps)
qed

text \<open>Integers below \<open>2 ^ 53\<close> are represented exactly.\<close>

lemma f64_of_int_exact:
  assumes "\<bar>i\<bar> < 2 ^ 53"
  shows "f64_of_int i = Fin (of_int i)"
proof -
  from assms have "nat \<bar>i\<bar> < 2 ^ 53" by (simp add: nat_less_iff)
  then have "bit_length (nat \<bar>i\<bar>) \<le> 53" by (rule bit_length_less)
  then have "round_bits (nat \<bar>i\<bar>) = nat \<bar>i\<bar>" by (simp add: round_bits_def)
  then show ?thesis by (simp add: f64_of_int_def mult.commute [of "sgn i"] abs_mult_sgn)
qed

text \<open>
  \<open>decimal.Decimal\<close> is documented as \<open>value * 10 ^ exp\<close>; its operations are fields of the
  runtime.
\<close>

datatype dec = Dec (coef: int) (dexp: int)

definition dec_val :: "dec \<Rightarrow> rat" where
  "dec_val d = of_int (coef d) * 10 powi (dexp d)"

section \<open>Times\<close>

text \<open>
  A \<open>time.Time\<close> is its civil clock reading, in seconds from 1970-01-01 00:00:00 of its own
  location, the nanoseconds within the second and the location.
\<close>

record gotime =
  tsec :: int
  tnano :: nat
  tzone :: string

section \<open>Dynamic values\<close>

text \<open>
  Go's \<open>any\<close> with the dynamic types the sources switch over. \<open>VInt\<close> stands for \<open>int\<close>,
  \<open>int32\<close> and \<open>int64\<close>, \<open>VNum\<close> for \<open>json.Number\<close>, \<open>VRaw\<close> for \<open>json.RawMessage\<close>.
\<close>

datatype goany =
    VNil
  | VBool bool
  | VStr string
  | VFloat f64
  | VFloat32 f64
  | VInt int
  | VNum string
  | VDec dec
  | VTime gotime
  | VBytes string
  | VRaw string
  | VStrs "string list"
  | VArr "goany list"
  | VObj "(string \<times> goany) list"

type_synonym goobj = "(string \<times> goany) list"

text \<open>\<open>m[k]\<close> on a \<open>map[string]any\<close>: a missing key gives \<open>nil\<close>.\<close>

definition obj_get :: "goobj \<Rightarrow> string \<Rightarrow> goany" where
  "obj_get m k = (case map_of m k of None \<Rightarrow> VNil | Some v \<Rightarrow> v)"

text \<open>\<open>s, _ := v.(string)\<close>: the zero value when the assertion fails.\<close>

definition as_string :: "goany \<Rightarrow> string" where
  "as_string v = (case v of VStr s \<Rightarrow> s | _ \<Rightarrow> [])"

definition as_array :: "goany \<Rightarrow> goany list" where
  "as_array v = (case v of VArr xs \<Rightarrow> xs | _ \<Rightarrow> [])"

section \<open>Tokens of the expression lexer\<close>

text \<open>The token types and subtypes of \<open>xuri/efp\<close> the parser distinguishes.\<close>

datatype ttype =
    TOperand | TFunction | TSubexpression | TArgument
  | TPrefix | TInfix | TPostfix | TOther string

datatype tsubtype =
    SNone | SStart | SStop | SText | SNumber | SLogical | SError | SRange | SOther string

record token =
  TValue :: string
  TType :: ttype
  TSubType :: tsubtype

section \<open>The runtime\<close>

record runtime =
  rt_efp :: "string \<Rightarrow> token list"
  rt_parse_float :: "string \<Rightarrow> f64 option"
  rt_format_float :: "f64 \<Rightarrow> string"
  rt_sprint_float :: "f64 \<Rightarrow> string"
  rt_sprint_float32 :: "f64 \<Rightarrow> string"
  rt_pow :: "f64 \<Rightarrow> f64 \<Rightarrow> f64"
  rt_dec_of_float :: "f64 \<Rightarrow> dec option" \<comment> \<open>\<open>None\<close>: the call panics\<close>
  rt_dec_of_float32 :: "f64 \<Rightarrow> dec option"
  rt_dec_of_string :: "string \<Rightarrow> dec option" \<comment> \<open>\<open>None\<close>: the call returns an error\<close>
  rt_dec_of_int :: "int \<Rightarrow> dec"
  rt_dec_add :: "dec \<Rightarrow> dec \<Rightarrow> dec"
  rt_dec_sub :: "dec \<Rightarrow> dec \<Rightarrow> dec"
  rt_dec_mul :: "dec \<Rightarrow> dec \<Rightarrow> dec"
  rt_dec_div :: "dec \<Rightarrow> dec \<Rightarrow> dec"
  rt_dec_neg :: "dec \<Rightarrow> dec"
  rt_dec_abs :: "dec \<Rightarrow> dec"
  rt_dec_cmp :: "dec \<Rightarrow> dec \<Rightarrow> int"
  rt_dec_is_zero :: "dec \<Rightarrow> bool"
  rt_dec_round :: "dec \<Rightarrow> int \<Rightarrow> dec"
  rt_dec_round_bank :: "dec \<Rightarrow> int \<Rightarrow> dec"
  rt_dec_round_ceil :: "dec \<Rightarrow> int \<Rightarrow> dec"
  rt_dec_round_floor :: "dec \<Rightarrow> int \<Rightarrow> dec"
  rt_dec_truncate :: "dec \<Rightarrow> int \<Rightarrow> dec"
  rt_dec_int_part :: "dec \<Rightarrow> int"
  rt_dec_to_float :: "dec \<Rightarrow> f64"
  rt_dec_string :: "dec \<Rightarrow> string"
  rt_dec_string_fixed :: "dec \<Rightarrow> int \<Rightarrow> string"
  rt_now :: gotime
  rt_parse_time :: "string \<Rightarrow> string \<Rightarrow> gotime option" \<comment> \<open>layout, text, in \<open>time.Local\<close>\<close>
  rt_format_time :: "string \<Rightarrow> gotime \<Rightarrow> string" \<comment> \<open>layout, time\<close>
  rt_sprint_time :: "gotime \<Rightarrow> string"
  rt_zone_offset :: "string \<Rightarrow> int \<Rightarrow> int" \<comment> \<open>location, civil seconds: offset from UTC\<close>

section \<open>fmt.Sprint\<close>

text \<open>The \<open>%v\<close> rendering of one value: maps print with sorted keys.\<close>

fun sprint :: "runtime \<Rightarrow> goany \<Rightarrow> string" where
  "sprint rt VNil = ''<nil>''"
| "sprint rt (VBool b) = (if b then ''true'' else ''false'')"
| "sprint rt (VStr s) = s"
| "sprint rt (VFloat f) = rt_sprint_float rt f"
| "sprint rt (VFloat32 f) = rt_sprint_float32 rt f"
| "sprint rt (VInt i) = itoa i"
| "sprint rt (VNum s) = s"
| "sprint rt (VDec d) = rt_dec_string rt d"
| "sprint rt (VTime t) = rt_sprint_time rt t"
| "sprint rt (VBytes b) = ''['' @ join '' '' (map (\<lambda>c. nat_digits (of_char c)) b) @ '']''"
| "sprint rt (VRaw b) = ''['' @ join '' '' (map (\<lambda>c. nat_digits (of_char c)) b) @ '']''"
| "sprint rt (VStrs ss) = ''['' @ join '' '' ss @ '']''"
| "sprint rt (VArr vs) = ''['' @ join '' '' (map (sprint rt) vs) @ '']''"
| "sprint rt (VObj m) =
     ''map['' @ join '' '' (map snd (sort_key fst (map (\<lambda>(k, v). (k, k @ '':'' @ sprint rt v)) m))) @ '']''"

end
