(* ===== verification/Formula_Syntax.thy ===== *)
theory Formula_Syntax
  imports Go_Value
begin

text \<open>
  The front end of the formula engine (\<open>internal/formula/parse.go\<close>, \<open>deps.go\<close>): the abstract
  syntax, the rewriting of \<open>{{name}}\<close> references before the text reaches the lexer, and the
  recursive descent parser over the lexer's tokens. The lexer itself (\<open>xuri/efp\<close>) is
  \<^const>\<open>rt_efp\<close>.

  The parser state \<open>tokParser\<close> is the list of the tokens not yet read: \<open>done\<close> is the empty
  list, \<open>peek\<close> its head and \<open>next\<close> its tail. A parser function takes the function for nested
  expressions as an argument, and \<open>parseExpr\<close> ties the knot. A recursive call is guarded by
  the length of the remaining input, which makes the functions total; the guards never fail
  (\<open>parseExpr_unguarded\<close>).
\<close>

section \<open>Syntax trees\<close>

datatype node =
    NumberNode f64
  | StringNode string
  | BoolNode bool
  | RefNode string
  | UnaryNode string node
  | BinaryNode string node node
  | CallNode string "node list"

datatype perr =
    UnexpectedEnd
  | EmptyTokenStream
  | UnexpectedToken string
  | UnexpectedTokenType string ttype
  | UnexpectedFunctionToken string
  | UnexpectedParenthesis
  | MissingParenthesis
  | UnclosedFunction
  | ExpectedCommaOrParen string
  | BadNumber string
  | EmptyOperand
  | OperandErr string
  | UnknownColumn string
  | Stuck

section \<open>Column references\<close>

definition ident_start :: "char \<Rightarrow> bool" where
  "ident_start c = (char_in CHR ''a'' CHR ''z'' c \<or> char_in CHR ''A'' CHR ''Z'' c \<or> c = CHR ''_'')"

definition ident_char :: "char \<Rightarrow> bool" where
  "ident_char c = (ident_start c \<or> char_in CHR ''0'' CHR ''9'' c)"

definition is_ident :: "string \<Rightarrow> bool" where
  "is_ident s = (s \<noteq> [] \<and> ident_start (hd s) \<and> list_all ident_char s)"

text \<open>A match of \<open>columnRefRe\<close> at the start of the text: the name and what follows.\<close>

definition match_ref :: "string \<Rightarrow> (string \<times> string) option" where
  "match_ref s =
     (if has_prefix s ''{{'' then
        let body = drop 2 s; name = takeWhile ident_char body; rest = dropWhile ident_char body in
        if name \<noteq> [] \<and> ident_start (hd name) \<and> has_prefix rest ''}}''
        then Some (name, drop 2 rest) else None
      else None)"

lemma match_ref_shorter: "match_ref s = Some (name, rest) \<Longrightarrow> length rest < length s"
proof -
  assume m: "match_ref s = Some (name, rest)"
  then have p: "has_prefix s ''{{''" and r: "rest = drop 2 (dropWhile ident_char (drop 2 s))"
    by (auto simp: match_ref_def Let_def split: if_splits)
  from p have "s \<noteq> []" by (auto simp: has_prefix_def)
  moreover have "length rest \<le> length (drop 2 s)"
    using r length_dropWhile_le [of ident_char "drop 2 s"] by simp
  ultimately show ?thesis by (cases s) auto
qed

lemma match_ref_ident: "match_ref s = Some (name, rest) \<Longrightarrow> is_ident name"
  by (auto simp: match_ref_def Let_def is_ident_def list_all_iff split: if_splits
      dest: set_takeWhileD)

text \<open>\<open>columnRefRe.FindAllStringSubmatch(expr, -1)\<close>: leftmost, non-overlapping matches.\<close>

function all_refs :: "string \<Rightarrow> string list" where
  "all_refs [] = []"
| "all_refs (c # s) =
     (case match_ref (c # s) of
        Some (name, rest) \<Rightarrow> name # all_refs rest
      | None \<Rightarrow> all_refs s)"
  by pat_completeness auto
termination
  by (relation "measure length") (use match_ref_shorter in fastforce)+

text \<open>\<open>Refs\<close>: the referenced names in order of first occurrence.\<close>

fun dedup :: "'a set \<Rightarrow> 'a list \<Rightarrow> 'a list" where
  "dedup seen [] = []"
| "dedup seen (x # xs) = (if x \<in> seen then dedup seen xs else x # dedup (insert x seen) xs)"

definition Refs :: "string \<Rightarrow> string list" where
  "Refs expr = dedup {} (all_refs expr)"

lemma set_dedup: "set (dedup seen xs) = set xs - seen"
  by (induction seen xs rule: dedup.induct) auto

lemma distinct_dedup: "distinct (dedup seen xs)"
  by (induction seen xs rule: dedup.induct) (auto simp: set_dedup)

lemma set_Refs: "set (Refs e) = set (all_refs e)"
  by (simp add: Refs_def set_dedup)

lemma distinct_Refs [simp]: "distinct (Refs e)"
  by (simp add: Refs_def distinct_dedup)

definition colIdentPrefix :: string where
  "colIdentPrefix = ''__lc_''"

function rewriteColumnRefsToIdents :: "string \<Rightarrow> string" where
  "rewriteColumnRefsToIdents [] = []"
| "rewriteColumnRefsToIdents (c # s) =
     (case match_ref (c # s) of
        Some (name, rest) \<Rightarrow> colIdentPrefix @ name @ rewriteColumnRefsToIdents rest
      | None \<Rightarrow> c # rewriteColumnRefsToIdents s)"
  by pat_completeness auto
termination
  by (relation "measure length") (use match_ref_shorter in fastforce)+

definition identToCol :: "string \<Rightarrow> string option" where
  "identToCol s =
     (if has_prefix s colIdentPrefix \<and> drop (length colIdentPrefix) s \<noteq> []
      then Some (drop (length colIdentPrefix) s) else None)"

text \<open>Single-quoted text becomes double-quoted text, outside \<open>{{...}}\<close>.\<close>

function normalizeSingleQuotedStrings :: "string \<Rightarrow> string" where
  "normalizeSingleQuotedStrings [] = []"
| "normalizeSingleQuotedStrings (c # s) =
     (case (if has_prefix (c # s) ''{{'' then index_of (drop 2 (c # s)) ''}}'' else None) of
        Some k \<Rightarrow> take (k + 4) (c # s) @ normalizeSingleQuotedStrings (drop (k + 4) (c # s))
      | None \<Rightarrow>
          if c = CHR 0x27 \<and> CHR 0x27 \<in> set s then
            CHR 0x22 # takeWhile (\<lambda>x. x \<noteq> CHR 0x27) s
              @ CHR 0x22 # normalizeSingleQuotedStrings (drop 1 (dropWhile (\<lambda>x. x \<noteq> CHR 0x27) s))
          else c # normalizeSingleQuotedStrings s)"
  by pat_completeness auto
termination
  by (relation "measure length")
    (auto simp: less_Suc_eq_le intro: order_trans [OF diff_le_self length_dropWhile_le])

section \<open>The parser\<close>

type_synonym 'a parse = "token list \<Rightarrow> perr + 'a \<times> token list"

definition is_infix :: "token \<Rightarrow> string list \<Rightarrow> bool" where
  "is_infix t ops = (TType t = TInfix \<and> TValue t \<in> set ops)"

definition compare_ops :: "string list" where
  "compare_ops = [''='', ''<>'', ''<'', ''>'', ''<='', ''>='']"

definition operandNode :: "runtime \<Rightarrow> token \<Rightarrow> perr + node" where
  "operandNode rt t =
     (case TSubType t of
        SNumber \<Rightarrow> (case rt_parse_float rt (TValue t) of
                      None \<Rightarrow> Inl (BadNumber (TValue t)) | Some v \<Rightarrow> Inr (NumberNode v))
      | SText \<Rightarrow> Inr (StringNode (TValue t))
      | SLogical \<Rightarrow> Inr (BoolNode (to_upper (TValue t) = ''TRUE''))
      | SError \<Rightarrow> Inl (OperandErr (TValue t))
      | SOther _ \<Rightarrow> (case identToCol (TValue t) of
                      Some col \<Rightarrow> Inr (RefNode col) | None \<Rightarrow> Inr (RefNode (TValue t)))
      | SStart \<Rightarrow> (case identToCol (TValue t) of
                      Some col \<Rightarrow> Inr (RefNode col) | None \<Rightarrow> Inr (RefNode (TValue t)))
      | SStop \<Rightarrow> (case identToCol (TValue t) of
                      Some col \<Rightarrow> Inr (RefNode col) | None \<Rightarrow> Inr (RefNode (TValue t)))
      | _ \<Rightarrow> \<comment> \<open>range, or no subtype\<close>
          let name = trim_space (TValue t) in
          (case identToCol name of
             Some col \<Rightarrow> Inr (RefNode col)
           | None \<Rightarrow> if name = [] then Inl EmptyOperand else Inr (RefNode name)))"

text \<open>The loop of \<open>parseCallArgs\<close>, from after the opening parenthesis of a non-empty list.\<close>

function args_loop :: "ttype \<Rightarrow> node parse \<Rightarrow> node list \<Rightarrow> node list parse" where
  "args_loop stop pe args ts =
     (case pe ts of
        Inl e \<Rightarrow> Inl e
      | Inr (n, ts') \<Rightarrow>
          (case ts' of
             [] \<Rightarrow> Inl UnclosedFunction
           | t # ts'' \<Rightarrow>
               if TType t = TArgument then
                 (if length ts'' < length ts then args_loop stop pe (args @ [n]) ts'' else Inl Stuck)
               else if TType t = stop \<and> TSubType t = SStop then Inr (args @ [n], ts'')
               else Inl (ExpectedCommaOrParen (TValue t))))"
  by pat_completeness auto
termination
  by (relation "measure (\<lambda>(_, _, _, ts). length ts)") auto

declare args_loop.simps [simp del]

definition parseCallArgs :: "ttype \<Rightarrow> node parse \<Rightarrow> node list parse" where
  "parseCallArgs stop pe ts =
     (case ts of
        [] \<Rightarrow> Inl UnclosedFunction
      | t # ts' \<Rightarrow>
          if TType t = stop \<and> TSubType t = SStop then Inr ([], ts') else args_loop stop pe [] ts)"

definition parsePrimary :: "runtime \<Rightarrow> node parse \<Rightarrow> node parse" where
  "parsePrimary rt pe ts =
     (case ts of
        [] \<Rightarrow> Inl UnexpectedEnd
      | t # ts' \<Rightarrow>
          (case TType t of
             TOperand \<Rightarrow>
               (case operandNode rt t of Inl e \<Rightarrow> Inl e | Inr n \<Rightarrow> Inr (n, ts'))
           | TFunction \<Rightarrow>
               if TSubType t \<noteq> SStart then Inl (UnexpectedFunctionToken (TValue t))
               else (case parseCallArgs TFunction pe ts' of
                       Inl e \<Rightarrow> Inl e
                     | Inr (args, ts'') \<Rightarrow> Inr (CallNode (to_upper (trim_space (TValue t))) args, ts''))
           | TSubexpression \<Rightarrow>
               if TSubType t \<noteq> SStart then Inl UnexpectedParenthesis
               else (case pe ts' of
                       Inl e \<Rightarrow> Inl e
                     | Inr (n, []) \<Rightarrow> Inl MissingParenthesis
                     | Inr (n, u # ts'') \<Rightarrow>
                         if TType u = TSubexpression \<and> TSubType u = SStop then Inr (n, ts'')
                         else Inl MissingParenthesis)
           | ty \<Rightarrow> Inl (UnexpectedTokenType (TValue t) ty)))"

fun postfix_loop :: "node \<Rightarrow> token list \<Rightarrow> node \<times> token list" where
  "postfix_loop n [] = (n, [])"
| "postfix_loop n (t # ts) =
     (if TType t = TPostfix \<and> TValue t = ''%'' then postfix_loop (UnaryNode ''%'' n) ts
      else (n, t # ts))"

definition parsePostfix :: "runtime \<Rightarrow> node parse \<Rightarrow> node parse" where
  "parsePostfix rt pe ts =
     (case parsePrimary rt pe ts of Inl e \<Rightarrow> Inl e | Inr (n, ts') \<Rightarrow> Inr (postfix_loop n ts'))"

fun parseUnary :: "runtime \<Rightarrow> node parse \<Rightarrow> node parse" where
  "parseUnary rt pe [] = Inl UnexpectedEnd"
| "parseUnary rt pe (t # ts) =
     (if TType t = TPrefix then
        (case parseUnary rt pe ts of
           Inl e \<Rightarrow> Inl e | Inr (x, ts') \<Rightarrow> Inr (UnaryNode (TValue t) x, ts'))
      else parsePostfix rt pe (t # ts))"

text \<open>Exponentiation associates to the right.\<close>

function parsePow :: "runtime \<Rightarrow> node parse \<Rightarrow> node parse" where
  "parsePow rt pe ts =
     (case parseUnary rt pe ts of
        Inl e \<Rightarrow> Inl e
      | Inr (n, []) \<Rightarrow> Inr (n, [])
      | Inr (n, t # ts') \<Rightarrow>
          if is_infix t [''^''] then
            (if length ts' < length ts then
               (case parsePow rt pe ts' of
                  Inl e \<Rightarrow> Inl e | Inr (r, ts'') \<Rightarrow> Inr (BinaryNode ''^'' n r, ts''))
             else Inl Stuck)
          else Inr (n, t # ts'))"
  by pat_completeness auto
termination
  by (relation "measure (\<lambda>(_, _, ts). length ts)") auto

declare parsePow.simps [simp del]

text \<open>
  The loop shared by the four left-associative levels: as long as the next token is one of
  the level's operators, read a right operand and combine.
\<close>

function left_loop :: "string list \<Rightarrow> node parse \<Rightarrow> node \<Rightarrow> node parse" where
  "left_loop ops operand n ts =
     (case ts of
        [] \<Rightarrow> Inr (n, [])
      | t # ts' \<Rightarrow>
          if is_infix t ops then
            (case operand ts' of
               Inl e \<Rightarrow> Inl e
             | Inr (r, ts'') \<Rightarrow>
                 if length ts'' < length ts then left_loop ops operand (BinaryNode (TValue t) n r) ts''
                 else Inl Stuck)
          else Inr (n, t # ts'))"
  by pat_completeness auto
termination
  by (relation "measure (\<lambda>(_, _, _, ts). length ts)") auto

declare left_loop.simps [simp del]

definition left_level :: "string list \<Rightarrow> node parse \<Rightarrow> node parse" where
  "left_level ops operand ts =
     (case operand ts of Inl e \<Rightarrow> Inl e | Inr (n, ts') \<Rightarrow> left_loop ops operand n ts')"

definition parseMul :: "runtime \<Rightarrow> node parse \<Rightarrow> node parse" where
  "parseMul rt pe = left_level [''*'', ''/''] (parsePow rt pe)"

definition parseAdd :: "runtime \<Rightarrow> node parse \<Rightarrow> node parse" where
  "parseAdd rt pe = left_level [''+'', ''-''] (parseMul rt pe)"

definition parseConcat :: "runtime \<Rightarrow> node parse \<Rightarrow> node parse" where
  "parseConcat rt pe = left_level [''&''] (parseAdd rt pe)"

definition parseCompare :: "runtime \<Rightarrow> node parse \<Rightarrow> node parse" where
  "parseCompare rt pe = left_level compare_ops (parseConcat rt pe)"

function parseExpr :: "runtime \<Rightarrow> node parse" where
  "parseExpr rt ts =
     parseCompare rt (\<lambda>ts'. if length ts' < length ts then parseExpr rt ts' else Inl Stuck) ts"
  by pat_completeness auto
termination
  by (relation "measure (\<lambda>(_, ts). length ts)") auto

declare parseExpr.simps [simp del]

definition Parse :: "runtime \<Rightarrow> string \<Rightarrow> perr + node option" where
  "Parse rt expr =
     (let e = trim_space expr in
      if e = [] then Inr None
      else let toks = rt_efp rt (normalizeSingleQuotedStrings (rewriteColumnRefsToIdents e)) in
        if toks = [] then Inl EmptyTokenStream
        else (case parseExpr rt toks of
                Inl er \<Rightarrow> Inl er
              | Inr (n, []) \<Rightarrow> Inr (Some n)
              | Inr (n, t # _) \<Rightarrow> Inl (UnexpectedToken (TValue t))))"

section \<open>References of a tree, validation\<close>

text \<open>\<open>walkRefs\<close> with the callback's argument sequence as its result.\<close>

fun walkRefs :: "node \<Rightarrow> string list" where
  "walkRefs (NumberNode _) = []"
| "walkRefs (StringNode _) = []"
| "walkRefs (BoolNode _) = []"
| "walkRefs (RefNode x) = [x]"
| "walkRefs (UnaryNode _ n) = walkRefs n"
| "walkRefs (BinaryNode _ l r) = walkRefs l @ walkRefs r"
| "walkRefs (CallNode _ args) = concat (map walkRefs args)"

text \<open>\<open>Validate\<close>; \<open>known = None\<close> is a nil map: syntax only.\<close>

definition Validate :: "runtime \<Rightarrow> string \<Rightarrow> string set option \<Rightarrow> perr + unit" where
  "Validate rt expr known =
     (case Parse rt expr of
        Inl e \<Rightarrow> Inl e
      | Inr None \<Rightarrow> Inr ()
      | Inr (Some n) \<Rightarrow>
          (case known of
             None \<Rightarrow> Inr ()
           | Some K \<Rightarrow>
               (case find (\<lambda>x. x \<notin> K) (walkRefs n) of
                  None \<Rightarrow> Inr () | Some x \<Rightarrow> Inl (UnknownColumn x))))"

end
