(* ===== verification/Formula_Roundtrip.thy ===== *)
theory Formula_Roundtrip
  imports Formula_Parser
begin

text \<open>
  Printing and parsing of formulas at the level of tokens. \<open>unparse\<close> prints a tree with the
  parentheses the grammar's levels require; the parser reads the printed tokens back to the
  same tree, which fixes the precedence and associativity of every operator.
\<close>

section \<open>The printer\<close>

definition tok :: "string \<Rightarrow> ttype \<Rightarrow> tsubtype \<Rightarrow> token" where
  "tok v ty st = \<lparr>TValue = v, TType = ty, TSubType = st\<rparr>"

lemma tok_simps [simp]:
  "TValue (tok v ty st) = v" "TType (tok v ty st) = ty" "TSubType (tok v ty st) = st"
  by (simp_all add: tok_def)

definition is_binop :: "string \<Rightarrow> bool" where
  "is_binop op = (op \<in> set compare_ops \<union> {''&'', ''+'', ''-'', ''*'', ''/'', ''^''})"

text \<open>The level of an operator, from 0 (comparison) to 4 (exponentiation).\<close>

definition op_level :: "string \<Rightarrow> nat" where
  "op_level op =
     (if op \<in> set compare_ops then 0 else if op = ''&'' then 1
      else if op = ''+'' \<or> op = ''-'' then 2 else if op = ''*'' \<or> op = ''/'' then 3 else 4)"

fun node_level :: "node \<Rightarrow> nat" where
  "node_level (BinaryNode op _ _) = op_level op"
| "node_level (UnaryNode op _) = (if op = ''%'' then 6 else 5)"
| "node_level _ = 7"

definition enclose :: "nat \<Rightarrow> node \<Rightarrow> token list \<Rightarrow> token list" where
  "enclose k n ts =
     (if node_level n < k then tok ''('' TSubexpression SStart # ts @ [tok '')'' TSubexpression SStop]
      else ts)"

fun sep_args :: "token list list \<Rightarrow> token list" where
  "sep_args [] = []"
| "sep_args [ts] = ts"
| "sep_args (ts # us # rest) = ts @ tok '','' TArgument SNone # sep_args (us # rest)"

fun unparse :: "(f64 \<Rightarrow> string) \<Rightarrow> node \<Rightarrow> token list" where
  "unparse num (NumberNode v) = [tok (num v) TOperand SNumber]"
| "unparse num (StringNode s) = [tok s TOperand SText]"
| "unparse num (BoolNode b) = [tok (if b then ''TRUE'' else ''FALSE'') TOperand SLogical]"
| "unparse num (RefNode x) = [tok (colIdentPrefix @ x) TOperand SRange]"
| "unparse num (UnaryNode op n) =
     (if op = ''%'' then enclose 6 n (unparse num n) @ [tok ''%'' TPostfix SNone]
      else tok op TPrefix SNone # enclose 5 n (unparse num n))"
| "unparse num (BinaryNode op l r) =
     enclose (if op = ''^'' then 5 else op_level op) l (unparse num l)
       @ tok op TInfix SNone
       # enclose (if op = ''^'' then 4 else Suc (op_level op)) r (unparse num r)"
| "unparse num (CallNode f args) =
     tok f TFunction SStart # sep_args (map (unparse num) args) @ [tok '')'' TFunction SStop]"

text \<open>
  The trees the grammar can express: known operators, upper-case function names without
  surrounding space, non-empty reference names without trailing space, and numbers whose
  printed text \<open>strconv.ParseFloat\<close> reads back.
\<close>

fun printable :: "runtime \<Rightarrow> (f64 \<Rightarrow> string) \<Rightarrow> node \<Rightarrow> bool" where
  "printable rt num (NumberNode v) = (rt_parse_float rt (num v) = Some v)"
| "printable rt num (StringNode s) = True"
| "printable rt num (BoolNode b) = True"
| "printable rt num (RefNode x) = (x \<noteq> [] \<and> \<not> is_space (last x))"
| "printable rt num (UnaryNode op n) = printable rt num n"
| "printable rt num (BinaryNode op l r) =
     (is_binop op \<and> printable rt num l \<and> printable rt num r)"
| "printable rt num (CallNode f args) =
     (to_upper (trim_space f) = f \<and> list_all (printable rt num) args)"

section \<open>The levels of the parser\<close>

definition lvl_ops :: "nat \<Rightarrow> string list" where
  "lvl_ops k = (if k = 0 then compare_ops else if k = 1 then [''&'']
     else if k = 2 then [''+'', ''-''] else [''*'', ''/''])"

definition parse_at :: "runtime \<Rightarrow> nat \<Rightarrow> node parse" where
  "parse_at rt k =
     (if k = 0 then parseCompare rt (parseExpr rt)
      else if k = 1 then parseConcat rt (parseExpr rt)
      else if k = 2 then parseAdd rt (parseExpr rt)
      else if k = 3 then parseMul rt (parseExpr rt)
      else if k = 4 then parsePow rt (parseExpr rt)
      else if k = 5 then parseUnary rt (parseExpr rt)
      else if k = 6 then parsePostfix rt (parseExpr rt)
      else parsePrimary rt (parseExpr rt))"

lemma parse_at_left: "k < 4 \<Longrightarrow> parse_at rt k = left_level (lvl_ops k) (parse_at rt (Suc k))"
  by (auto simp: parse_at_def lvl_ops_def level_defs less_Suc_eq numeral_eq_Suc)

text \<open>The rest of the input does not continue an expression of level \<open>k\<close>.\<close>

definition stops :: "nat \<Rightarrow> token list \<Rightarrow> bool" where
  "stops k ts =
     (case ts of
        [] \<Rightarrow> True
      | t # _ \<Rightarrow> \<not> (TType t = TPostfix \<and> TValue t = ''%'') \<and>
                 \<not> (TType t = TInfix \<and> is_binop (TValue t) \<and> k \<le> op_level (TValue t)))"

lemma stops_mono: "stops k ts \<Longrightarrow> k \<le> k' \<Longrightarrow> stops k' ts"
  by (auto simp: stops_def split: list.splits)

lemma is_infix_lvl:
  "k < 4 \<Longrightarrow> is_infix t (lvl_ops k) \<longleftrightarrow>
     TType t = TInfix \<and> is_binop (TValue t) \<and> op_level (TValue t) = k"
  by (auto simp: is_infix_def lvl_ops_def is_binop_def op_level_def compare_ops_def)

lemma is_infix_pow:
  "is_infix t [''^''] \<longleftrightarrow> TType t = TInfix \<and> is_binop (TValue t) \<and> op_level (TValue t) = 4"
  by (auto simp: is_infix_def is_binop_def op_level_def compare_ops_def)

lemma op_level_4: "is_binop op \<Longrightarrow> op_level op = 4 \<longleftrightarrow> op = ''^''"
  by (auto simp: is_binop_def op_level_def compare_ops_def)

lemma op_level_le: "op_level op \<le> 4"
  by (simp add: op_level_def)

lemma left_loop_stops: "k < 4 \<Longrightarrow> stops k ts \<Longrightarrow> left_loop (lvl_ops k) p n ts = Inr (n, ts)"
  by (cases ts) (auto simp: stops_def left_loop_stop is_infix_lvl)

lemma postfix_loop_stops: "stops k ts \<Longrightarrow> postfix_loop n ts = (n, ts)"
  by (cases ts) (auto simp: stops_def)

text \<open>
  Reading a printed tree at level \<open>k\<close>: a left-associative level and the postfix level go on
  with the loop of that level, the others return.
\<close>

definition loop_at :: "runtime \<Rightarrow> nat \<Rightarrow> node \<Rightarrow> node parse" where
  "loop_at rt k n ts =
     (if k < 4 then left_loop (lvl_ops k) (parse_at rt (Suc k)) n ts
      else if k = 6 then Inr (postfix_loop n ts) else Inr (n, ts))"

definition pre_at :: "nat \<Rightarrow> token list \<Rightarrow> bool" where
  "pre_at k ts = (if k < 4 then stops (Suc k) ts else if k < 6 then stops k ts else True)"

definition reads :: "runtime \<Rightarrow> (f64 \<Rightarrow> string) \<Rightarrow> nat \<Rightarrow> node \<Rightarrow> bool" where
  "reads rt num k n =
     (\<forall>rest. pre_at k rest \<longrightarrow>
        parse_at rt k (enclose k n (unparse num n) @ rest) = loop_at rt k n rest)"

lemma reads_stops:
  assumes "reads rt num k n" "stops k rest"
  shows "parse_at rt k (enclose k n (unparse num n) @ rest) = Inr (n, rest)"
proof -
  have "pre_at k rest" using assms(2) by (auto simp: pre_at_def intro: stops_mono)
  then have "parse_at rt k (enclose k n (unparse num n) @ rest) = loop_at rt k n rest"
    using assms(1) by (simp add: reads_def)
  then show ?thesis
    using assms(2) by (auto simp: loop_at_def left_loop_stops postfix_loop_stops)
qed

lemma enclose_Suc: "node_level n \<noteq> k \<Longrightarrow> enclose (Suc k) n ts = enclose k n ts"
  by (auto simp: enclose_def)

text \<open>From a level to the next looser one, when the tree is not of that level itself.\<close>

lemma reads_down_left:
  assumes "reads rt num (Suc k) n" "k < 4" "node_level n \<noteq> k"
  shows "reads rt num k n"
  unfolding reads_def
proof (intro allI impI)
  fix rest
  assume "pre_at k rest"
  then have "stops (Suc k) rest" using assms(2) by (simp add: pre_at_def)
  from reads_stops [OF assms(1) this] assms(2,3)
  show "parse_at rt k (enclose k n (unparse num n) @ rest) = loop_at rt k n rest"
    by (simp add: parse_at_left left_level_def loop_at_def enclose_Suc)
qed

lemma reads_down_4:
  assumes "reads rt num 5 n" "node_level n \<noteq> 4"
  shows "reads rt num 4 n"
  unfolding reads_def
proof (intro allI impI)
  fix rest
  assume "pre_at 4 rest"
  then have s: "stops 4 rest" by (simp add: pre_at_def)
  have "parseUnary rt (parseExpr rt) (enclose 4 n (unparse num n) @ rest) = Inr (n, rest)"
    using reads_stops [OF assms(1) stops_mono [OF s]] enclose_Suc [OF assms(2)]
    by (simp add: parse_at_def)
  moreover have "\<not> is_infix t [''^'']" if "rest = t # ts" for t ts
    using s that by (auto simp: stops_def is_infix_pow)
  ultimately show "parse_at rt 4 (enclose 4 n (unparse num n) @ rest) = loop_at rt 4 n rest"
    by (cases rest) (auto simp: parse_at_def loop_at_def parsePow.simps)
qed

lemma unparse_head:
  "6 \<le> node_level n \<Longrightarrow> \<exists>t ts. unparse num n = t # ts \<and> TType t \<noteq> TPrefix"
proof (induction n)
  case (UnaryNode op n)
  then show ?case
    by (cases "6 \<le> node_level n") (auto simp: enclose_def split: if_splits)
qed (auto simp: op_level_def split: if_splits)

lemma enclose_head:
  assumes "node_level n \<noteq> 5"
  shows "\<exists>t ts. enclose 5 n (unparse num n) = t # ts \<and> TType t \<noteq> TPrefix"
proof (cases "node_level n < 5")
  case False
  with assms have "6 \<le> node_level n" by simp
  with False unparse_head show ?thesis by (auto simp: enclose_def)
qed (simp add: enclose_def)

lemma reads_down_5:
  assumes "reads rt num 6 n" "node_level n \<noteq> 5"
  shows "reads rt num 5 n"
  unfolding reads_def
proof (intro allI impI)
  fix rest
  assume "pre_at 5 rest"
  then have s: "stops 5 rest" by (simp add: pre_at_def)
  obtain t ts where h: "enclose 5 n (unparse num n) = t # ts" "TType t \<noteq> TPrefix"
    using enclose_head [OF assms(2)] by blast
  have "parsePostfix rt (parseExpr rt) (enclose 5 n (unparse num n) @ rest) = Inr (n, rest)"
    using reads_stops [OF assms(1) stops_mono [OF s]] enclose_Suc [OF assms(2)]
    by (simp add: parse_at_def numeral_eq_Suc)
  with h show "parse_at rt 5 (enclose 5 n (unparse num n) @ rest) = loop_at rt 5 n rest"
    by (simp add: parse_at_def loop_at_def)
qed

lemma reads_down_6:
  assumes "reads rt num 7 n" "node_level n \<noteq> 6"
  shows "reads rt num 6 n"
  using assms enclose_Suc [OF assms(2), of "unparse num n"]
  by (simp add: reads_def parse_at_def loop_at_def pre_at_def parsePostfix_def numeral_eq_Suc)

lemma reads_down:
  assumes "reads rt num (Suc k) n" "node_level n \<noteq> k" "k < 7"
  shows "reads rt num k n"
proof -
  consider "k < 4" | "k = 4" | "k = 5" | "k = 6" using assms(3) by linarith
  then show ?thesis
  proof cases
    case 1 then show ?thesis using reads_down_left assms by blast
  next
    case 2 then show ?thesis using reads_down_4 assms by (simp add: numeral_eq_Suc)
  next
    case 3 then show ?thesis using reads_down_5 assms by (simp add: numeral_eq_Suc)
  next
    case 4 then show ?thesis using reads_down_6 assms by (simp add: numeral_eq_Suc)
  qed
qed

lemma reads_below:
  assumes "reads rt num m n" "k \<le> m" "m \<le> 7" "\<forall>j. k \<le> j \<and> j < m \<longrightarrow> node_level n \<noteq> j"
  shows "reads rt num k n"
  using assms(2,1,3,4)
proof (induction rule: dec_induct)
  case base
  then show ?case by simp
next
  case (step j)
  then show ?case using reads_down [of rt num j n] by simp
qed

text \<open>A tree read at its own level is read at every level: above it, in parentheses.\<close>

lemma reads_all:
  assumes own: "reads rt num (node_level n) n" and k: "k \<le> 7"
  shows "reads rt num k n"
proof -
  have le: "node_level n \<le> 7"
    by (cases n) (auto intro: order_trans [OF op_level_le])
  have r0: "reads rt num 0 n" by (rule reads_below [OF own _ le]) auto
  have r7: "reads rt num 7 n"
  proof (cases "node_level n = 7")
    case False
    with le have l: "node_level n < 7" by simp
    show ?thesis
      unfolding reads_def
    proof (intro allI impI)
      fix rest
      let ?close = "tok '')'' TSubexpression SStop"
      have "stops 0 (?close # rest)" by (simp add: stops_def)
      from reads_stops [OF r0 this]
      have "parseExpr rt (unparse num n @ ?close # rest) = Inr (n, ?close # rest)"
        by (simp add: parse_at_def parseExpr_unguarded [of rt "unparse num n @ ?close # rest"]
            enclose_def)
      with l show "parse_at rt 7 (enclose 7 n (unparse num n) @ rest) = loop_at rt 7 n rest"
        by (simp add: parse_at_def loop_at_def enclose_def parsePrimary_def)
    qed
  qed (use own in simp)
  show ?thesis
  proof (cases "k \<le> node_level n")
    case True
    then show ?thesis using reads_below [OF own True le] by auto
  next
    case False
    then show ?thesis using reads_below [OF r7 k] by auto
  qed
qed

section \<open>Each construct at its own level\<close>

lemma reads_binary_left:
  assumes op: "is_binop op" "op_level op < 4" and l: "\<forall>k \<le> 7. reads rt num k l"
    and r: "\<forall>k \<le> 7. reads rt num k r"
  shows "reads rt num (op_level op) (BinaryNode op l r)"
  unfolding reads_def
proof (intro allI impI)
  fix rest
  let ?k = "op_level op" and ?op = "tok op TInfix SNone"
  let ?r = "enclose (Suc ?k) r (unparse num r)"
  assume "pre_at ?k rest"
  then have s: "stops (Suc ?k) rest" using op by (simp add: pre_at_def)
  have ne: "op \<noteq> ''^''" using op by (auto simp: op_level_def compare_ops_def)
  have pre: "pre_at ?k (?op # ?r @ rest)" using op by (simp add: pre_at_def stops_def)
  have "reads rt num ?k l" using l op by simp
  with pre have "parse_at rt ?k (enclose ?k l (unparse num l) @ ?op # ?r @ rest) =
      loop_at rt ?k l (?op # ?r @ rest)"
    by (simp add: reads_def)
  also have "\<dots> = left_loop (lvl_ops ?k) (parse_at rt (Suc ?k)) l (?op # ?r @ rest)"
    using op by (simp add: loop_at_def)
  also have "\<dots> = left_loop (lvl_ops ?k) (parse_at rt (Suc ?k)) (BinaryNode op l r) rest"
    using reads_stops [OF _ s, of rt num r] r op
    by (simp add: left_loop_step is_infix_lvl)
  finally show "parse_at rt ?k (enclose ?k (BinaryNode op l r) (unparse num (BinaryNode op l r))
      @ rest) = loop_at rt ?k (BinaryNode op l r) rest"
    using op ne by (simp add: loop_at_def enclose_def [of _ "BinaryNode op l r"])
qed

lemma reads_pow:
  assumes l: "\<forall>k \<le> 7. reads rt num k l" and r: "\<forall>k \<le> 7. reads rt num k r"
  shows "reads rt num 4 (BinaryNode ''^'' l r)"
  unfolding reads_def
proof (intro allI impI)
  fix rest
  let ?op = "tok ''^'' TInfix SNone" and ?r = "enclose 4 r (unparse num r)"
  assume "pre_at 4 rest"
  then have s: "stops 4 rest" by (simp add: pre_at_def)
  have lv: "op_level ''^'' = 4" by (simp add: op_level_def compare_ops_def)
  then have "stops 5 (?op # ?r @ rest)" by (simp add: stops_def)
  then have "parseUnary rt (parseExpr rt) (enclose 5 l (unparse num l) @ ?op # ?r @ rest) =
      Inr (l, ?op # ?r @ rest)"
    using reads_stops [of rt num 5 l] l by (simp add: parse_at_def)
  moreover have "parsePow rt (parseExpr rt) (?r @ rest) = Inr (r, rest)"
    using reads_stops [OF _ s, of rt num r] r by (simp add: parse_at_def)
  ultimately show "parse_at rt 4 (enclose 4 (BinaryNode ''^'' l r)
      (unparse num (BinaryNode ''^'' l r)) @ rest) = loop_at rt 4 (BinaryNode ''^'' l r) rest"
    using lv by (simp add: parse_at_def loop_at_def enclose_def [of _ "BinaryNode ''^'' l r"]
        parsePow.simps [of _ _ "enclose 5 l (unparse num l) @ ?op # ?r @ rest"] is_infix_def)
qed

lemma reads_prefix:
  assumes "op \<noteq> ''%''" "\<forall>k \<le> 7. reads rt num k n"
  shows "reads rt num 5 (UnaryNode op n)"
proof -
  have "parseUnary rt (parseExpr rt) (enclose 5 n (unparse num n) @ rest) = Inr (n, rest)"
    if "stops 5 rest" for rest
    using reads_stops [OF _ that, of rt num n] assms(2) by (simp add: parse_at_def)
  then show ?thesis
    using assms(1)
    by (simp add: reads_def pre_at_def parse_at_def loop_at_def enclose_def [of _ "UnaryNode op n"])
qed

lemma reads_percent:
  assumes "\<forall>k \<le> 7. reads rt num k n"
  shows "reads rt num 6 (UnaryNode ''%'' n)"
proof -
  have "parsePostfix rt (parseExpr rt) (enclose 6 n (unparse num n) @ rest) = Inr (postfix_loop n rest)"
    for rest
    using assms [rule_format, of 6] by (simp add: reads_def pre_at_def parse_at_def loop_at_def)
  then show ?thesis
    by (simp add: reads_def pre_at_def parse_at_def loop_at_def enclose_def [of _ "UnaryNode ''%'' n"])
qed

lemma reads_operand:
  assumes "unparse num n = [t]" "TType t = TOperand" "operandNode rt t = Inr n" "node_level n = 7"
  shows "reads rt num 7 n"
  using assms by (simp add: reads_def parse_at_def loop_at_def enclose_def parsePrimary_def)

lemma operandNode_ref:
  "x \<noteq> [] \<Longrightarrow> \<not> is_space (last x) \<Longrightarrow>
    operandNode rt (tok (colIdentPrefix @ x) TOperand SRange) = Inr (RefNode x)"
proof -
  assume x: "x \<noteq> []" "\<not> is_space (last x)"
  have "trim_space (colIdentPrefix @ x) = colIdentPrefix @ x"
    using x by (intro trim_space_id) (simp add: colIdentPrefix_def is_space_def)
  with x show ?thesis by (simp add: operandNode_def identToCol_def)
qed

lemma stops_0_arg: "TType t \<noteq> TPostfix \<Longrightarrow> TType t \<noteq> TInfix \<Longrightarrow> stops 0 (t # ts)"
  by (simp add: stops_def)

lemma parseExpr_reads:
  "reads rt num 0 n \<Longrightarrow> stops 0 rest \<Longrightarrow> parseExpr rt (unparse num n @ rest) = Inr (n, rest)"
  using reads_stops [of rt num 0 n rest]
  by (simp add: parse_at_def enclose_def parseExpr_unguarded [of rt "unparse num n @ rest"])

lemma args_loop_comma:
  "pe ts = Inr (n, t # ts') \<Longrightarrow> TType t = TArgument \<Longrightarrow> length ts' < length ts \<Longrightarrow>
    args_loop stop pe args ts = args_loop stop pe (args @ [n]) ts'"
  by (simp add: args_loop.simps [of _ _ _ ts])

lemma args_loop_reads:
  assumes "args \<noteq> []" "\<forall>a \<in> set args. reads rt num 0 a"
  shows "args_loop TFunction (parseExpr rt) acc
      (sep_args (map (unparse num) args) @ tok '')'' TFunction SStop # rest) = Inr (acc @ args, rest)"
  using assms
proof (induction args arbitrary: acc)
  case (Cons a args)
  let ?close = "tok '')'' TFunction SStop" and ?comma = "tok '','' TArgument SNone"
  show ?case
  proof (cases args)
    case Nil
    have "parseExpr rt (unparse num a @ ?close # rest) = Inr (a, ?close # rest)"
      using Cons.prems by (simp add: parseExpr_reads stops_0_arg)
    with Nil show ?thesis by (simp add: args_loop.simps [of _ _ _ "unparse num a @ ?close # rest"])
  next
    case (Cons b bs)
    let ?tl = "sep_args (map (unparse num) args) @ ?close # rest"
    have "parseExpr rt (unparse num a @ ?comma # ?tl) = Inr (a, ?comma # ?tl)"
      using Cons.prems by (simp add: parseExpr_reads stops_0_arg)
    moreover have "args_loop TFunction (parseExpr rt) (acc @ [a]) ?tl = Inr ((acc @ [a]) @ args, rest)"
      using Cons.IH [of "acc @ [a]"] Cons.prems Cons by simp
    ultimately have "args_loop TFunction (parseExpr rt) acc (unparse num a @ ?comma # ?tl) =
        Inr ((acc @ [a]) @ args, rest)"
      by (simp add: args_loop_comma)
    then show ?thesis using Cons by simp
  qed
qed simp

lemma unparse_not_close:
  "\<exists>t ts. unparse num n = t # ts \<and> \<not> (TType t = TFunction \<and> TSubType t = SStop)"
proof (induction n)
  case (UnaryNode op n)
  then show ?case by (auto simp: enclose_def)
next
  case (BinaryNode op l r)
  then show ?case by (auto simp: enclose_def)
qed auto

lemma sep_args_head:
  assumes "args \<noteq> []"
  shows "\<exists>t ts. sep_args (map (unparse num) args) @ us = t # ts \<and>
    \<not> (TType t = TFunction \<and> TSubType t = SStop)"
proof -
  obtain a args' where a: "args = a # args'" using assms by (cases args) auto
  obtain t ts where "unparse num a = t # ts" "\<not> (TType t = TFunction \<and> TSubType t = SStop)"
    using unparse_not_close by blast
  with a show ?thesis by (cases args') auto
qed

lemma reads_call:
  assumes "to_upper (trim_space f) = f" "\<forall>a \<in> set args. reads rt num 0 a"
  shows "reads rt num 7 (CallNode f args)"
proof -
  let ?close = "tok '')'' TFunction SStop"
  have "parseCallArgs TFunction (parseExpr rt)
      (sep_args (map (unparse num) args) @ ?close # rest) = Inr (args, rest)" for rest
  proof (cases "args = []")
    case False
    obtain t ts where h: "sep_args (map (unparse num) args) @ ?close # rest = t # ts"
      "\<not> (TType t = TFunction \<and> TSubType t = SStop)"
      using sep_args_head [OF False] by blast
    have "args_loop TFunction (parseExpr rt) [] (t # ts) = Inr (args, rest)"
      using args_loop_reads [OF False assms(2), of "[]" rest] h(1) by simp
    with h show ?thesis by (auto simp: parseCallArgs_def)
  qed (simp add: parseCallArgs_def)
  then show ?thesis
    using assms(1) by (simp add: reads_def parse_at_def loop_at_def enclose_def parsePrimary_def)
qed

section \<open>The round trip\<close>

lemma printable_reads_own: "printable rt num n \<Longrightarrow> reads rt num (node_level n) n"
proof (induction n)
  case (UnaryNode op n)
  then have "\<forall>k \<le> 7. reads rt num k n" by (simp add: reads_all)
  then show ?case using reads_prefix reads_percent by simp
next
  case (BinaryNode op l r)
  then have "\<forall>k \<le> 7. reads rt num k l" "\<forall>k \<le> 7. reads rt num k r"
    by (simp_all add: reads_all)
  moreover have "op_level op = 4 \<longleftrightarrow> op = ''^''" and "is_binop op"
    using BinaryNode.prems by (simp_all add: op_level_4)
  ultimately show ?case
    using reads_binary_left [of op] reads_pow op_level_le [of op]
    by (cases "op_level op = 4") auto
next
  case (CallNode f args)
  then have "\<forall>a \<in> set args. reads rt num 0 a" by (auto simp: list_all_iff intro: reads_all)
  with CallNode.prems show ?case by (simp add: reads_call)
next
  case (NumberNode v)
  then show ?case by (auto intro!: reads_operand simp: operandNode_def)
next
  case (BoolNode b)
  have "to_upper (if b then ''TRUE'' else ''FALSE'') = ''TRUE'' \<longleftrightarrow> b"
    by (simp add: to_upper_def to_upper_char_def Let_def)
  then show ?case by (auto intro!: reads_operand simp: operandNode_def)
next
  case (StringNode s)
  then show ?case by (auto intro!: reads_operand simp: operandNode_def)
next
  case (RefNode x)
  then show ?case by (auto intro!: reads_operand simp: operandNode_ref)
qed

lemma parseExpr_unparse:
  assumes "printable rt num n"
  shows "parseExpr rt (unparse num n) = Inr (n, [])"
proof -
  have "reads rt num 0 n" using assms by (simp add: reads_all printable_reads_own)
  from parseExpr_reads [OF this, of "[]"] show ?thesis by (simp add: stops_def)
qed

section \<open>Properties\<close>

text \<open>
  C6. The parser ends on every token stream: it either rejects the input with an error of
  the grammar or returns a tree having consumed at least one token. The guard that makes the
  recursion well founded is never the reason of a rejection.
\<close>

theorem parse_ends:
  "case parseExpr rt ts of
     Inl e \<Rightarrow> e \<noteq> Stuck
   | Inr (n, rest) \<Rightarrow> length rest < length ts"
  using parseExpr_progress [of rt ts] by (simp add: progress_def)

text \<open>
  C1. Parsing is inverse to printing: from the tokens of a tree printed with the parentheses
  its operators need, \<open>parseExpr\<close> reads the tree back and consumes all of them. This fixes the
  precedence of all operators, the left associativity of the binary levels and the right
  associativity of \<open>^\<close>.
\<close>

theorem parse_print:
  assumes "printable rt num n"
  shows "parseExpr rt (unparse num n) = Inr (n, [])"
  using assms by (rule parseExpr_unparse)

theorem parse_print_witness:
  "\<forall>rt. parseExpr rt (unparse (\<lambda>_. []) (BinaryNode ''*'' (BinaryNode ''+'' (RefNode ''a'') (RefNode ''b''))
      (CallNode ''IF'' [RefNode ''c'', StringNode ''x'']))) =
    Inr (BinaryNode ''*'' (BinaryNode ''+'' (RefNode ''a'') (RefNode ''b''))
      (CallNode ''IF'' [RefNode ''c'', StringNode ''x'']), [])"
  by (intro allI parse_print) (simp add: is_binop_def to_upper_def to_upper_char_def is_space_def
      trim_space_def trim_left_def Let_def)

end
