(* ===== verification/Formula_Deps.thy ===== *)
theory Formula_Deps
  imports Formula_Syntax "HOL-Library.Multiset"
begin

text \<open>
  Dependency order of formula columns (\<open>internal/formula/deps.go\<close>, \<open>plan.go\<close>): \<open>Sort\<close> is
  Kahn's algorithm over the \<open>{{refs}}\<close> between the formulas of one table, \<open>DetectCycle\<close> runs
  it on a table with one formula changed.

  The loop \<open>for name := range byName\<close> visits the names in an order the Go runtime chooses:
  the order is the argument \<open>ord\<close>, and the results hold for every enumeration of the names.
  The queue loop runs on fuel, one unit per name; it never runs out (\<open>Sort_no_fuel\<close>).
\<close>

section \<open>Definitions\<close>

record fdef =
  Name :: string
  Expr :: string

datatype serr = SelfReference string | ErrCycle | OutOfFuel

text \<open>\<open>byName\<close>: a later definition of the same name replaces an earlier one.\<close>

definition byName :: "fdef list \<Rightarrow> (string \<times> fdef) list" where
  "byName defs = foldl (\<lambda>m d. map_put (Name d) d m) [] defs"

record degrees =
  inDegree :: "string \<Rightarrow> int"
  dependents :: "string \<Rightarrow> string list"

fun scan_refs :: "(string \<times> fdef) list \<Rightarrow> string \<Rightarrow> string list \<Rightarrow> degrees \<Rightarrow> serr + degrees" where
  "scan_refs bn name [] g = Inr g"
| "scan_refs bn name (r # rs) g =
     (if r = name then Inl (SelfReference name)
      else if \<not> map_has r bn then scan_refs bn name rs g
      else scan_refs bn name rs
        (g\<lparr>inDegree := (inDegree g)(name := inDegree g name + 1),
           dependents := (dependents g)(r := dependents g r @ [name])\<rparr>))"

fun scan_defs :: "(string \<times> fdef) list \<Rightarrow> fdef list \<Rightarrow> degrees \<Rightarrow> serr + degrees" where
  "scan_defs bn [] g = Inr g"
| "scan_defs bn (d # ds) g =
     (case scan_refs bn (Name d) (Refs (Expr d)) g of Inl e \<Rightarrow> Inl e | Inr g' \<Rightarrow> scan_defs bn ds g')"

text \<open>\<open>for _, dep := range dependents[name]\<close>: decrement, and enqueue what reaches zero.\<close>

fun release :: "string list \<Rightarrow> (string \<Rightarrow> int) \<Rightarrow> string list \<Rightarrow> (string \<Rightarrow> int) \<times> string list" where
  "release [] deg q = (deg, q)"
| "release (m # ms) deg q =
     (let deg' = deg(m := deg m - 1) in release ms deg' (if deg' m = 0 then q @ [m] else q))"

fun kahn :: "nat \<Rightarrow> (string \<Rightarrow> string list) \<Rightarrow> string list \<Rightarrow> (string \<Rightarrow> int) \<Rightarrow> string list
    \<Rightarrow> string list option" where
  "kahn fuel deps [] deg acc = Some acc"
| "kahn 0 deps (n # q) deg acc = None"
| "kahn (Suc fuel) deps (n # q) deg acc =
     (let (deg', q') = release (deps n) deg q in kahn fuel deps q' deg' (acc @ [n]))"

definition Sort :: "string list \<Rightarrow> fdef list \<Rightarrow> serr + fdef list" where
  "Sort ord defs =
     (if defs = [] then Inr []
      else let bn = byName defs in
        (case scan_defs bn defs \<lparr>inDegree = (\<lambda>_. 0), dependents = (\<lambda>_. [])\<rparr> of
           Inl e \<Rightarrow> Inl e
         | Inr g \<Rightarrow>
             (case kahn (length ord) (dependents g) (filter (\<lambda>n. inDegree g n = 0) ord) (inDegree g) [] of
                None \<Rightarrow> Inl OutOfFuel
              | Some names \<Rightarrow>
                  let ordered = map (\<lambda>n. the (map_of bn n)) names in
                  if length ordered \<noteq> length defs then Inl ErrCycle else Inr ordered)))"

text \<open>\<open>DetectCycle\<close>: the stored formulas with \<open>name\<close> set to \<open>expr\<close>, in some iteration order.\<close>

definition merged_defs :: "(string \<times> string) list \<Rightarrow> string \<Rightarrow> string \<Rightarrow> fdef list" where
  "merged_defs formulas name expr =
     map (\<lambda>(n, e). \<lparr>Name = n, Expr = e\<rparr>) (map_put name expr formulas)"

definition DetectCycle :: "string list \<Rightarrow> (string \<times> string) list \<Rightarrow> string \<Rightarrow> string \<Rightarrow> serr option" where
  "DetectCycle ord formulas name expr =
     (case Sort ord (merged_defs formulas name expr) of Inl e \<Rightarrow> Some e | Inr _ \<Rightarrow> None)"

text \<open>\<open>BuildSteps\<close>: parse every formula in dependency order.\<close>

datatype step_err = StepSort serr | StepParse string perr

fun parse_steps :: "runtime \<Rightarrow> fdef list \<Rightarrow> step_err + unit" where
  "parse_steps rt [] = Inr ()"
| "parse_steps rt (d # ds) =
     (case Parse rt (Expr d) of Inl e \<Rightarrow> Inl (StepParse (Name d) e) | Inr _ \<Rightarrow> parse_steps rt ds)"

definition BuildSteps :: "runtime \<Rightarrow> string list \<Rightarrow> fdef list \<Rightarrow> step_err + unit" where
  "BuildSteps rt ord defs =
     (case Sort ord defs of Inl e \<Rightarrow> Inl (StepSort e) | Inr ordered \<Rightarrow> parse_steps rt ordered)"

section \<open>The dependency graph\<close>

definition names :: "fdef list \<Rightarrow> string set" where
  "names defs = Name ` set defs"

text \<open>An edge from a formula to each formula of the table that refers to it.\<close>

definition dep_graph :: "fdef list \<Rightarrow> (string \<times> string) set" where
  "dep_graph defs = {(r, Name d) | r d. d \<in> set defs \<and> r \<in> set (Refs (Expr d)) \<and> r \<in> names defs}"

definition self_ref :: "fdef list \<Rightarrow> bool" where
  "self_ref defs = (\<exists>d \<in> set defs. Name d \<in> set (Refs (Expr d)))"

text \<open>Every formula comes after the formulas of the table it refers to.\<close>

definition deps_first :: "fdef list \<Rightarrow> bool" where
  "deps_first out =
     (\<forall>pre d post. out = pre @ d # post \<longrightarrow> (\<forall>r \<in> set (Refs (Expr d)). r \<in> names out \<longrightarrow> r \<in> names pre))"

lemma map_of_byName:
  assumes "distinct (map Name defs)" "d \<in> set defs"
  shows "map_of (byName defs) (Name d) = Some d"
proof -
  have "map_of (foldl (\<lambda>m d. map_put (Name d) d m) m defs) (Name d) = Some d"
    if "distinct (map Name defs)" "d \<in> set defs" for m
    using that
  proof (induction defs arbitrary: m)
    case (Cons e defs)
    have keep: "map_of (foldl (\<lambda>m d. map_put (Name d) d m) m' ds) k = map_of m' k"
      if "k \<notin> Name ` set ds" for ds k m'
      using that by (induction ds arbitrary: m') auto
    from Cons show ?case by (cases "d = e") (auto simp: keep)
  qed simp
  with assms show ?thesis by (simp add: byName_def)
qed

lemma map_has_byName: "map_has n (byName defs) \<longleftrightarrow> n \<in> names defs"
proof -
  have "fst ` set (foldl (\<lambda>m d. map_put (Name d) d m) m defs) = fst ` set m \<union> Name ` set defs" for m
    by (induction defs arbitrary: m) auto
  then show ?thesis by (simp add: byName_def map_has_iff names_def)
qed

subsection \<open>What the scan computes\<close>

lemma scan_refs_self:
  "scan_refs bn name rs g = Inl e \<Longrightarrow> e = SelfReference name \<and> name \<in> set rs"
  by (induction bn name rs g rule: scan_refs.induct) (auto split: if_splits)

lemma scan_refs_ok:
  "name \<notin> set rs \<Longrightarrow> \<exists>g'. scan_refs bn name rs g = Inr g' \<and>
     inDegree g' = (inDegree g)(name := inDegree g name + int (length (filter (\<lambda>r. map_has r bn) rs))) \<and>
     (distinct rs \<longrightarrow> (\<forall>n. dependents g' n =
        dependents g n @ (if n \<in> set rs \<and> map_has n bn then [name] else [])))"
proof (induction bn name rs g rule: scan_refs.induct)
  case (2 bn name r rs g)
  then show ?case by (cases "map_has r bn") (fastforce simp: fun_eq_iff)+
qed simp

lemma scan_defs_self:
  "scan_defs bn ds g = Inl e \<Longrightarrow> \<exists>d \<in> set ds. e = SelfReference (Name d) \<and> Name d \<in> set (Refs (Expr d))"
  by (induction bn ds g rule: scan_defs.induct) (auto split: sum.splits dest: scan_refs_self)

lemma scan_refs_Inr_notin: "scan_refs bn name rs g = Inr g' \<Longrightarrow> name \<notin> set rs"
  by (induction bn name rs g rule: scan_refs.induct) (auto split: if_splits)

lemma scan_defs_ok:
  "scan_defs bn ds g = Inr g' \<Longrightarrow> distinct (map Name ds) \<Longrightarrow>
     (\<forall>d \<in> set ds. Name d \<notin> set (Refs (Expr d)) \<and>
        inDegree g' (Name d) = inDegree g (Name d) + int (length (filter (\<lambda>r. map_has r bn) (Refs (Expr d))))) \<and>
     (\<forall>n. n \<notin> Name ` set ds \<longrightarrow> inDegree g' n = inDegree g n) \<and>
     (\<forall>n. map_has n bn \<longrightarrow>
        dependents g' n = dependents g n @ map Name (filter (\<lambda>d. n \<in> set (Refs (Expr d))) ds))"
proof (induction bn ds g rule: scan_defs.induct)
  case (2 bn d ds g)
  from "2.prems" obtain g1 where g1: "scan_refs bn (Name d) (Refs (Expr d)) g = Inr g1"
    and rest: "scan_defs bn ds g1 = Inr g'"
    by (auto split: sum.splits)
  note nin = scan_refs_Inr_notin [OF g1]
  have step: "inDegree g1 = (inDegree g)(Name d :=
        inDegree g (Name d) + int (length (filter (\<lambda>r. map_has r bn) (Refs (Expr d)))))"
    "\<forall>n. dependents g1 n = dependents g n @ (if n \<in> set (Refs (Expr d)) \<and> map_has n bn then [Name d] else [])"
    using scan_refs_ok [OF nin, of bn g] g1 by auto
  from "2.IH" [OF g1 rest] "2.prems"(2) step nin show ?case by (auto simp: image_iff)
qed simp

subsection \<open>The queue loop\<close>

lemma release_spec:
  "distinct ms \<Longrightarrow> release ms deg q =
     ((\<lambda>n. if n \<in> set ms then deg n - 1 else deg n), q @ filter (\<lambda>m. deg m = 1) ms)"
proof (induction ms deg q rule: release.induct)
  case (2 m ms deg q)
  let ?deg = "deg(m := deg m - 1)"
  have f: "filter (\<lambda>x. ?deg x = 1) ms = filter (\<lambda>x. deg x = 1) ms"
    using "2.prems" by (intro filter_cong) auto
  have g: "(\<lambda>n. if n \<in> set ms then ?deg n - 1 else ?deg n) =
      (\<lambda>n. if n \<in> set (m # ms) then deg n - 1 else deg n)"
    using "2.prems" by (auto simp: fun_eq_iff)
  have "release (m # ms) deg q = release ms ?deg (if ?deg m = 0 then q @ [m] else q)"
    by (simp add: Let_def)
  also have "\<dots> = ((\<lambda>n. if n \<in> set ms then ?deg n - 1 else ?deg n),
      (if ?deg m = 0 then q @ [m] else q) @ filter (\<lambda>x. ?deg x = 1) ms)"
    using "2.prems" by (intro "2.IH" [OF refl]) simp
  finally show ?case unfolding f g by simp
qed simp

text \<open>
  The loop invariant: the emitted names \<open>acc\<close> and the queue hold exactly the names whose
  remaining in-degree is zero, the in-degree counts the predecessors not yet emitted, and
  every emitted name comes after its predecessors.
\<close>

definition kahn_inv :: "string set \<Rightarrow> (string \<Rightarrow> string set) \<Rightarrow> string list \<Rightarrow> (string \<Rightarrow> int)
    \<Rightarrow> string list \<Rightarrow> bool" where
  "kahn_inv N preds q deg acc \<longleftrightarrow>
     distinct (acc @ q) \<and> set (acc @ q) \<subseteq> N \<and>
     (\<forall>n \<in> N. deg n = int (card (preds n - set acc))) \<and>
     (\<forall>n \<in> N. n \<in> set (acc @ q) \<longleftrightarrow> deg n = 0) \<and>
     (\<forall>pre n post. acc = pre @ n # post \<longrightarrow> preds n \<subseteq> set pre)"

lemma kahn_inv_topo: "kahn_inv N P q deg (pre @ n # post) \<Longrightarrow> P n \<subseteq> set pre"
  by (simp add: kahn_inv_def)

lemma kahn_inv_step:
  assumes inv: "kahn_inv N preds (n # q) deg acc"
    and preds: "\<forall>m \<in> N. finite (preds m) \<and> preds m \<subseteq> N"
    and ms: "distinct ms" "set ms = {m \<in> N. n \<in> preds m}"
    and rel: "release ms deg q = (deg', q')"
  shows "kahn_inv N preds q' deg' (acc @ [n])"
proof -
  from inv have d: "distinct (acc @ n # q)" and sub: "set (acc @ n # q) \<subseteq> N"
    and cnt: "\<And>m. m \<in> N \<Longrightarrow> deg m = int (card (preds m - set acc))"
    and zero: "\<And>m. m \<in> N \<Longrightarrow> m \<in> set (acc @ n # q) \<longleftrightarrow> deg m = 0"
    and topo: "\<And>pre m post. acc = pre @ m # post \<Longrightarrow> preds m \<subseteq> set pre"
    unfolding kahn_inv_def by auto
  have deg': "deg' = (\<lambda>m. if m \<in> set ms then deg m - 1 else deg m)"
    and q': "q' = q @ filter (\<lambda>m. deg m = 1) ms"
    using release_spec [OF ms(1)] rel by auto
  have nN: "n \<in> N" and nacc: "n \<notin> set acc" using sub d by auto
  have cnt': "deg' m = int (card (preds m - set (acc @ [n])))" if "m \<in> N" for m
  proof (cases "n \<in> preds m")
    case True
    have "preds m - set (acc @ [n]) = (preds m - set acc) - {n}" by auto
    moreover have "card ((preds m - set acc) - {n}) = card (preds m - set acc) - 1"
      using True nacc by simp
    moreover have "card (preds m - set acc) > 0"
      using True nacc preds that by (auto simp: card_gt_0_iff)
    ultimately show ?thesis using True that cnt [OF that] ms(2) by (simp add: deg')
  next
    case False
    then have "preds m - set (acc @ [n]) = preds m - set acc" by auto
    with False that cnt [OF that] ms(2) show ?thesis by (simp add: deg')
  qed
  have zero': "m \<in> set ((acc @ [n]) @ q') \<longleftrightarrow> deg' m = 0" if "m \<in> N" for m
  proof (cases "m \<in> set ms")
    case True
    then have "n \<in> preds m" using ms(2) by simp
    then have "0 < card (preds m - set acc)"
      using nacc preds that by (auto simp: card_gt_0_iff)
    then have "m \<notin> set (acc @ n # q)" using zero [OF that] cnt [OF that] by simp
    with True show ?thesis by (auto simp: q' deg')
  next
    case False
    then show ?thesis using zero [OF that] by (auto simp: q' deg')
  qed
  have "set q' \<subseteq> N" using sub ms(2) by (auto simp: q')
  moreover have "distinct ((acc @ [n]) @ q')"
  proof -
    have "m \<notin> set (acc @ n # q)" if "m \<in> set ms" "deg m = 1" for m
      using that zero [of m] ms(2) by auto
    then show ?thesis using d ms(1) by (auto simp: q')
  qed
  moreover have "preds m \<subseteq> set pre" if "acc @ [n] = pre @ m # post" for pre m post
  proof (cases "post = []")
    case True
    with that have "pre = acc" "m = n" by auto
    moreover have "preds n - set acc = {}"
      using zero [OF nN] cnt [OF nN] preds nN by auto
    ultimately show ?thesis by blast
  next
    case False
    then obtain post' x where "post = post' @ [x]" by (metis rev_exhaust)
    with that have "acc = pre @ m # post'" by simp
    then show ?thesis by (rule topo)
  qed
  ultimately show ?thesis
    using nN sub cnt' zero' unfolding kahn_inv_def by auto
qed

lemma kahn_total:
  assumes "kahn_inv N preds q deg acc" "finite N" "card N \<le> fuel + length acc"
    and "\<forall>m \<in> N. finite (preds m) \<and> preds m \<subseteq> N"
    and "\<forall>n \<in> N. distinct (deps n) \<and> set (deps n) = {m \<in> N. n \<in> preds m}"
  shows "\<exists>out deg'. kahn fuel deps q deg acc = Some out \<and> kahn_inv N preds [] deg' out"
  using assms(1,3)
proof (induction fuel arbitrary: q deg acc)
  case 0
  have "card (set (acc @ q)) \<le> card N"
    using "0.prems"(1) assms(2) by (auto simp: kahn_inv_def intro: card_mono)
  moreover have "card (set (acc @ q)) = length acc + length q"
    using "0.prems"(1) by (metis distinct_card kahn_inv_def length_append)
  ultimately have "length q = 0" using "0.prems"(2) by linarith
  then have "q = []" by simp
  with "0.prems"(1) show ?case by auto
next
  case (Suc fuel)
  show ?case
  proof (cases q)
    case Nil
    with Suc.prems show ?thesis by auto
  next
    case (Cons n q0)
    obtain deg' q' where rel: "release (deps n) deg q0 = (deg', q')" by fastforce
    have nN: "n \<in> N" using Suc.prems(1) Cons by (auto simp: kahn_inv_def)
    have "kahn_inv N preds q' deg' (acc @ [n])"
      using kahn_inv_step [OF _ assms(4) _ _ rel] Suc.prems(1) Cons assms(5) nN by blast
    from Suc.IH [OF this] Suc.prems(2) show ?thesis using Cons rel by simp
  qed
qed

subsection \<open>From the loop to Sort\<close>

definition preds :: "fdef list \<Rightarrow> string \<Rightarrow> string set" where
  "preds defs n = {r. (r, n) \<in> dep_graph defs}"

text \<open>\<open>ord\<close> enumerates the keys of \<open>byName\<close>.\<close>

definition enumerates :: "string list \<Rightarrow> fdef list \<Rightarrow> bool" where
  "enumerates ord defs = (distinct ord \<and> set ord = names defs)"

lemma preds_def_of:
  assumes "distinct (map Name defs)" "d \<in> set defs"
  shows "preds defs (Name d) = set (filter (\<lambda>r. map_has r (byName defs)) (Refs (Expr d)))"
proof -
  have u: "e = d" if "e \<in> set defs" "Name e = Name d" for e
    using assms that by (metis distinct_map inj_onD)
  show ?thesis
  proof (rule set_eqI)
    fix r
    have "r \<in> preds defs (Name d) \<longleftrightarrow>
        (\<exists>e \<in> set defs. Name e = Name d \<and> r \<in> set (Refs (Expr e)) \<and> r \<in> names defs)"
      unfolding preds_def dep_graph_def by (simp add: eq_commute [of "Name d"]) metis
    then have "r \<in> preds defs (Name d) \<longleftrightarrow> r \<in> set (Refs (Expr d)) \<and> r \<in> names defs"
      using u assms(2) by metis
    then show "r \<in> preds defs (Name d) \<longleftrightarrow>
        r \<in> set (filter (\<lambda>r. map_has r (byName defs)) (Refs (Expr d)))"
      by (simp add: map_has_byName)
  qed
qed

lemma preds_names: "finite (preds defs n) \<and> preds defs n \<subseteq> names defs"
proof -
  have "preds defs n \<subseteq> names defs" by (auto simp: preds_def dep_graph_def)
  moreover have "finite (names defs)" by (simp add: names_def)
  ultimately show ?thesis by (auto intro: finite_subset)
qed

lemma Sort_loop:
  assumes d: "distinct (map Name defs)" and ord: "enumerates ord defs"
    and g: "scan_defs (byName defs) defs \<lparr>inDegree = (\<lambda>_. 0), dependents = (\<lambda>_. [])\<rparr> = Inr g"
  shows "\<exists>out deg. kahn (length ord) (dependents g) (filter (\<lambda>n. inDegree g n = 0) ord) (inDegree g) []
      = Some out \<and> kahn_inv (names defs) (preds defs) [] deg out"
proof (rule kahn_total)
  have scan: "\<forall>e \<in> set defs. inDegree g (Name e) = int (card (preds defs (Name e)))"
  proof
    fix e
    assume e: "e \<in> set defs"
    have "card (preds defs (Name e)) = length (filter (\<lambda>r. map_has r (byName defs)) (Refs (Expr e)))"
      unfolding preds_def_of [OF d e] by (rule distinct_card) simp
    with scan_defs_ok [OF g d] e show "inDegree g (Name e) = int (card (preds defs (Name e)))"
      by simp
  qed
  show "kahn_inv (names defs) (preds defs) (filter (\<lambda>n. inDegree g n = 0) ord) (inDegree g) []"
    using ord scan by (auto simp: kahn_inv_def enumerates_def names_def)
  show "finite (names defs)" by (simp add: names_def)
  show "card (names defs) \<le> length ord + length []"
    using ord by (metis add.right_neutral card_length enumerates_def list.size(3))
  show "\<forall>m \<in> names defs. finite (preds defs m) \<and> preds defs m \<subseteq> names defs"
    using preds_names by blast
  show "\<forall>n \<in> names defs. distinct (dependents g n) \<and>
      set (dependents g n) = {m \<in> names defs. n \<in> preds defs m}"
  proof
    fix n
    assume n: "n \<in> names defs"
    then have "dependents g n = map Name (filter (\<lambda>e. n \<in> set (Refs (Expr e))) defs)"
      using scan_defs_ok [OF g d] by (simp add: map_has_byName)
    moreover have "distinct (map Name (filter (\<lambda>e. n \<in> set (Refs (Expr e))) defs))"
      using d by (simp add: distinct_map_filter)
    moreover have "Name ` {e \<in> set defs. n \<in> set (Refs (Expr e))} = {m \<in> names defs. n \<in> preds defs m}"
      using n by (auto simp: names_def preds_def dep_graph_def)
    ultimately show "distinct (dependents g n) \<and>
        set (dependents g n) = {m \<in> names defs. n \<in> preds defs m}"
      by simp
  qed
qed

lemma length_takeWhile_first: "n \<notin> set pre \<Longrightarrow> length (takeWhile (\<lambda>x. x \<noteq> n) (pre @ n # post)) = length pre"
  by (induction pre) auto

lemma acyclic_if_ordered:
  assumes "set out = names defs" "distinct out"
    and topo: "\<And>pre n post. out = pre @ n # post \<Longrightarrow> preds defs n \<subseteq> set pre"
  shows "acyclic (dep_graph defs)"
proof -
  define rank where "rank n = length (takeWhile (\<lambda>x. x \<noteq> n) out)" for n
  have lt: "rank r < rank n" if e: "(r, n) \<in> dep_graph defs" for r n
  proof -
    from e have "n \<in> set out" using assms(1) by (auto simp: dep_graph_def names_def)
    then obtain pre post where o: "out = pre @ n # post" "n \<notin> set pre"
      by (meson split_list_first)
    from e topo [OF o(1)] have "r \<in> set pre" by (auto simp: preds_def)
    then obtain p1 p2 where p: "pre = p1 @ r # p2" "r \<notin> set p1" by (meson split_list_first)
    have "rank n = length pre" unfolding rank_def o(1) using o(2) by (rule length_takeWhile_first)
    moreover have "rank r = length p1"
      unfolding rank_def o(1) p(1) using length_takeWhile_first [OF p(2), of "p2 @ n # post"] by simp
    ultimately show ?thesis using p by simp
  qed
  have "dep_graph defs \<subseteq> measure rank" using lt by auto
  then have "wf (dep_graph defs)" by (rule wf_subset [OF wf_measure])
  then show ?thesis by (rule wf_acyclic)
qed

lemma cyclic_if_stuck:
  assumes inv: "kahn_inv (names defs) (preds defs) [] deg out" and ne: "set out \<noteq> names defs"
  shows "\<not> acyclic (dep_graph defs)"
proof
  assume "acyclic (dep_graph defs)"
  moreover have "finite (dep_graph defs)"
  proof (rule finite_subset)
    show "dep_graph defs \<subseteq> names defs \<times> names defs" by (auto simp: dep_graph_def names_def)
  qed (simp add: names_def)
  ultimately have wf: "wf (dep_graph defs)" by (simp add: finite_acyclic_wf)
  from inv ne obtain n0 where "n0 \<in> names defs - set out" by (auto simp: kahn_inv_def)
  then obtain n where n: "n \<in> names defs - set out"
    and least: "\<And>r. (r, n) \<in> dep_graph defs \<Longrightarrow> r \<notin> names defs - set out"
    using wfE_min [OF wf] by metis
  have "card (preds defs n - set out) \<noteq> 0" using inv n by (auto simp: kahn_inv_def)
  then obtain r where "r \<in> preds defs n" "r \<notin> set out" by (auto simp: card_eq_0_iff)
  moreover from this have "r \<in> names defs" using preds_names by blast
  ultimately show False using least [of r] by (auto simp: preds_def)
qed

lemma self_ref_cyclic: "self_ref defs \<Longrightarrow> \<not> acyclic (dep_graph defs)"
proof -
  assume "self_ref defs"
  then obtain d where "d \<in> set defs" "Name d \<in> set (Refs (Expr d))" by (auto simp: self_ref_def)
  then have "(Name d, Name d) \<in> dep_graph defs" by (auto simp: dep_graph_def names_def)
  then show ?thesis by (auto simp: acyclic_def)
qed

lemma Sort_outcome:
  assumes d: "distinct (map Name defs)" and ord: "enumerates ord defs"
  shows "case Sort ord defs of
      Inr out \<Rightarrow> mset out = mset defs \<and> deps_first out \<and> acyclic (dep_graph defs)
    | Inl (SelfReference n) \<Rightarrow> \<exists>e \<in> set defs. Name e = n \<and> n \<in> set (Refs (Expr e))
    | Inl ErrCycle \<Rightarrow> \<not> acyclic (dep_graph defs) \<and> \<not> self_ref defs
    | Inl OutOfFuel \<Rightarrow> False"
proof (cases "defs = []")
  case True
  then show ?thesis by (simp add: Sort_def deps_first_def dep_graph_def acyclic_def)
next
  case False
  let ?g0 = "\<lparr>inDegree = (\<lambda>_. 0), dependents = (\<lambda>_. [])\<rparr> :: degrees"
  show ?thesis
  proof (cases "scan_defs (byName defs) defs ?g0")
    case (Inl e)
    with scan_defs_self [OF Inl] False show ?thesis by (auto simp: Sort_def)
  next
    case (Inr g)
    obtain out deg where k: "kahn (length ord) (dependents g)
        (filter (\<lambda>n. inDegree g n = 0) ord) (inDegree g) [] = Some out"
      and inv: "kahn_inv (names defs) (preds defs) [] deg out"
      using Sort_loop [OF d ord Inr] by blast
    let ?ordered = "map (\<lambda>n. the (map_of (byName defs) n)) out"
    have sub: "set out \<subseteq> names defs" "distinct out" using inv by (auto simp: kahn_inv_def)
    have card: "card (names defs) = length defs"
      using d by (metis distinct_card length_map list.set_map names_def)
    show ?thesis
    proof (cases "length out = length defs")
      case True
      have set_out: "set out = names defs"
        using sub card True by (metis List.finite_set card_subset_eq distinct_card list.set_map names_def)
      have look: "the (map_of (byName defs) n) \<in> set defs \<and> Name (the (map_of (byName defs) n)) = n"
        if "n \<in> names defs" for n
        using that map_of_byName [OF d] by (auto simp: names_def)
      have nm: "map Name ?ordered = out"
        using sub(1) look by (simp add: map_idI subset_iff)
      have "set ?ordered = set defs"
      proof (rule card_subset_eq)
        show "set ?ordered \<subseteq> set defs" using look sub(1) by auto
        show "card (set ?ordered) = card (set defs)"
          using nm sub(2) True d by (metis distinct_card distinct_map length_map)
      qed simp
      then have perm: "mset ?ordered = mset defs"
        using nm sub(2) d by (metis distinct_map set_eq_iff_mset_eq_distinct)
      have "deps_first ?ordered"
        unfolding deps_first_def
      proof (intro allI impI ballI)
        fix pre e post r
        assume eq: "?ordered = pre @ e # post" and r: "r \<in> set (Refs (Expr e))" "r \<in> names ?ordered"
        from eq nm have "out = map Name pre @ Name e # map Name post"
          by (metis list.simps(9) map_append)
        with inv have "preds defs (Name e) \<subseteq> set (map Name pre)" using kahn_inv_topo by metis
        moreover have "e \<in> set defs" using eq \<open>set ?ordered = set defs\<close> by auto
        moreover have "r \<in> names defs" using r(2) \<open>set ?ordered = set defs\<close> by (simp add: names_def)
        ultimately show "r \<in> names pre" using r(1)
          by (force simp: names_def preds_def dep_graph_def)
      qed
      moreover have "acyclic (dep_graph defs)"
        using acyclic_if_ordered [OF set_out sub(2)] inv by (simp add: kahn_inv_def)
      ultimately show ?thesis
        using False Inr k True perm by (simp add: Sort_def Let_def)
    next
      case False
      have "set out \<noteq> names defs" using False card sub(2) by (metis distinct_card)
      moreover have "\<not> self_ref defs" using scan_defs_ok [OF Inr d] by (simp add: self_ref_def)
      ultimately show ?thesis
        using \<open>defs \<noteq> []\<close> False Inr k cyclic_if_stuck [OF inv] by (simp add: Sort_def Let_def)
    qed
  qed
qed

lemma Sort_ok_iff:
  assumes "distinct (map Name defs)" "enumerates ord defs"
  shows "is_ok (Sort ord defs) \<longleftrightarrow> acyclic (dep_graph defs)"
  using Sort_outcome [OF assms] self_ref_cyclic [of defs]
  by (auto simp: is_ok_def self_ref_def split: sum.splits serr.splits)

lemma parse_steps_ok: "is_ok (parse_steps rt ds) \<longleftrightarrow> (\<forall>d \<in> set ds. is_ok (Parse rt (Expr d)))"
  by (induction ds) (auto split: sum.splits simp: is_ok_def)

section \<open>Properties\<close>

text \<open>
  C2. \<open>Sort\<close> succeeds exactly when the references among the formulas form no cycle, for every
  order in which the runtime enumerates the map; its result is then a permutation of the
  definitions in which every formula comes after those it refers to.
\<close>

theorem Sort_topological:
  assumes "distinct (map Name defs)" "enumerates ord defs"
  shows "(is_ok (Sort ord defs) \<longleftrightarrow> acyclic (dep_graph defs)) \<and>
    (\<forall>out. Sort ord defs = Inr out \<longrightarrow> mset out = mset defs \<and> deps_first out)"
  using Sort_ok_iff [OF assms] Sort_outcome [OF assms] by auto

theorem Sort_topological_witness:
  "mset [\<lparr>Name = ''a'', Expr = ''1''\<rparr>, \<lparr>Name = ''b'', Expr = ''{{a}}''\<rparr>] =
     mset [\<lparr>Name = ''b'', Expr = ''{{a}}''\<rparr>, \<lparr>Name = ''a'', Expr = ''1''\<rparr>] \<and>
   deps_first [\<lparr>Name = ''a'', Expr = ''1''\<rparr>, \<lparr>Name = ''b'', Expr = ''{{a}}''\<rparr>]"
proof -
  let ?defs = "[\<lparr>Name = ''b'', Expr = ''{{a}}''\<rparr>, \<lparr>Name = ''a'', Expr = ''1''\<rparr>]"
  have d: "distinct (map Name ?defs)" by simp
  have o: "enumerates [''b'', ''a''] ?defs" by (auto simp: enumerates_def names_def)
  have s: "Sort [''b'', ''a''] ?defs =
      Inr [\<lparr>Name = ''a'', Expr = ''1''\<rparr>, \<lparr>Name = ''b'', Expr = ''{{a}}''\<rparr>]"
    by code_simp
  from Sort_topological [OF d o] s show ?thesis by blast
qed

text \<open>
  C13. \<open>Sort\<close> never runs out of the steps it is given, and it names a cycle only when there is
  one that is not a direct self reference.
\<close>

theorem Sort_errors:
  assumes "distinct (map Name defs)" "enumerates ord defs" "Sort ord defs = Inl e"
  shows "(e = ErrCycle \<and> \<not> acyclic (dep_graph defs) \<and> \<not> self_ref defs) \<or>
    (\<exists>d \<in> set defs. e = SelfReference (Name d) \<and> Name d \<in> set (Refs (Expr d)))"
  using Sort_outcome [OF assms(1,2)] assms(3) by (cases e) auto

theorem Sort_errors_witness:
  "\<not> acyclic (dep_graph [\<lparr>Name = ''b'', Expr = ''{{a}}''\<rparr>, \<lparr>Name = ''a'', Expr = ''{{b}}''\<rparr>])"
proof -
  let ?defs = "[\<lparr>Name = ''b'', Expr = ''{{a}}''\<rparr>, \<lparr>Name = ''a'', Expr = ''{{b}}''\<rparr>]"
  have d: "distinct (map Name ?defs)" by simp
  have o: "enumerates [''b'', ''a''] ?defs" by (auto simp: enumerates_def names_def)
  have s: "Sort [''b'', ''a''] ?defs = Inl ErrCycle" by code_simp
  from Sort_errors [OF d o s] show ?thesis by blast
qed

text \<open>
  C5. \<open>DetectCycle\<close> accepts a changed formula exactly when the table with that formula in
  place has no reference cycle.
\<close>

theorem DetectCycle_exact:
  assumes "distinct (map fst formulas)" "enumerates ord (merged_defs formulas name expr)"
  shows "DetectCycle ord formulas name expr = None \<longleftrightarrow> acyclic (dep_graph (merged_defs formulas name expr))"
proof -
  have "distinct (map Name (merged_defs formulas name expr))"
    using assms(1) distinct_map_put [of formulas name expr]
    by (simp add: merged_defs_def comp_def case_prod_unfold)
  from Sort_ok_iff [OF this assms(2)] show ?thesis
    by (auto simp: DetectCycle_def is_ok_def split: sum.splits)
qed

theorem DetectCycle_exact_witness:
  "acyclic (dep_graph (merged_defs [(''a'', ''1''), (''b'', ''{{a}}'')] ''c'' ''{{b}}''))"
proof -
  have d: "distinct (map fst [(''a'', ''1''), (''b'', ''{{a}}'')])" by simp
  have o: "enumerates [''a'', ''b'', ''c''] (merged_defs [(''a'', ''1''), (''b'', ''{{a}}'')] ''c'' ''{{b}}'')"
    by (auto simp: enumerates_def names_def merged_defs_def)
  have "DetectCycle [''a'', ''b'', ''c''] [(''a'', ''1''), (''b'', ''{{a}}'')] ''c'' ''{{b}}'' = None"
    by code_simp
  with DetectCycle_exact [OF d o] show ?thesis by blast
qed

text \<open>
  \<open>BuildSteps\<close> accepts the formulas of a table exactly when they are free of cycles and
  every one of them parses.
\<close>

lemma BuildSteps_exact:
  assumes "distinct (map Name defs)" "enumerates ord defs"
  shows "is_ok (BuildSteps rt ord defs) \<longleftrightarrow>
    acyclic (dep_graph defs) \<and> (\<forall>d \<in> set defs. is_ok (Parse rt (Expr d)))"
proof (cases "Sort ord defs")
  case (Inl e)
  then show ?thesis using Sort_ok_iff [OF assms] by (simp add: BuildSteps_def)
next
  case (Inr out)
  with Sort_outcome [OF assms] have "set out = set defs" "acyclic (dep_graph defs)"
    by (auto dest: mset_eq_setD)
  then show ?thesis using Inr by (simp add: BuildSteps_def parse_steps_ok)
qed

lemma BuildSteps_exact_witness:
  "\<forall>rt. is_ok (BuildSteps rt [''a''] [\<lparr>Name = ''a'', Expr = []\<rparr>]) \<longleftrightarrow>
     acyclic (dep_graph [\<lparr>Name = ''a'', Expr = []\<rparr>])"
proof
  fix rt
  show "is_ok (BuildSteps rt [''a''] [\<lparr>Name = ''a'', Expr = []\<rparr>]) \<longleftrightarrow>
      acyclic (dep_graph [\<lparr>Name = ''a'', Expr = []\<rparr>])"
    using BuildSteps_exact [of "[\<lparr>Name = ''a'', Expr = []\<rparr>]" "[''a'']" rt]
    by (simp add: enumerates_def names_def Parse_def)
qed

end
