(* ===== verification/Formula_Date.thy ===== *)
theory Formula_Date
  imports Go_Value
begin

text \<open>
  Dates of the formula language (\<open>internal/formula/eval_date.go\<close>): the proleptic Gregorian
  calendar of package \<open>time\<close> as day numbers, \<open>time.Date\<close> with its normalisation of months and
  days out of range, \<open>WEEKDAY\<close> and \<open>DATEDIF\<close>.
\<close>

section \<open>The calendar\<close>

text \<open>Day number of a civil date, day 0 being 1970-01-01; the month may be out of range.\<close>

definition days_from_civil :: "int \<Rightarrow> int \<Rightarrow> int \<Rightarrow> int" where
  "days_from_civil y0 m0 d =
     (let y1 = y0 + (m0 - 1) div 12; m = (m0 - 1) mod 12 + 1;
          y = (if m \<le> 2 then y1 - 1 else y1);
          era = y div 400; yoe = y mod 400;
          doy = (153 * (if m > 2 then m - 3 else m + 9) + 2) div 5 + d - 1;
          doe = yoe * 365 + yoe div 4 - yoe div 100 + doy
      in era * 146097 + doe - 719468)"

definition civil_from_days :: "int \<Rightarrow> int \<times> int \<times> int" where
  "civil_from_days z0 =
     (let z = z0 + 719468; era = z div 146097; doe = z mod 146097;
          c = min 3 (doe div 36524); doc = doe - 36524 * c;
          q = doc div 1461; doq = doc - 1461 * q;
          r = min 3 (doq div 365); doy = doq - 365 * r;
          mp = (5 * doy + 2) div 153;
          d = doy - (153 * mp + 2) div 5 + 1;
          m = (if mp < 10 then mp + 3 else mp - 9)
      in (100 * c + 4 * q + r + era * 400 + (if m \<le> 2 then 1 else 0), m, d))"

definition day_number :: "gotime \<Rightarrow> int" where
  "day_number t = tsec t div 86400"

definition Date_of :: "gotime \<Rightarrow> int \<times> int \<times> int" where
  "Date_of t = civil_from_days (day_number t)"

definition Year :: "gotime \<Rightarrow> int" where "Year t = fst (Date_of t)"
definition Month :: "gotime \<Rightarrow> int" where "Month t = fst (snd (Date_of t))"
definition Day :: "gotime \<Rightarrow> int" where "Day t = snd (snd (Date_of t))"

definition Weekday :: "gotime \<Rightarrow> int" where
  "Weekday t = (day_number t + 4) mod 7"

text \<open>\<open>time.Date(y, m, d, 0, 0, 0, 0, loc)\<close>.\<close>

definition time_Date :: "int \<Rightarrow> int \<Rightarrow> int \<Rightarrow> string \<Rightarrow> gotime" where
  "time_Date y m d loc = \<lparr>tsec = days_from_civil y m d * 86400, tnano = 0, tzone = loc\<rparr>"

definition dateOnly :: "gotime \<Rightarrow> gotime" where
  "dateOnly t = time_Date (Year t) (Month t) (Day t) (tzone t)"

text \<open>The instant of a time, in nanoseconds: the order of \<open>Before\<close>, \<open>After\<close> and \<open>Equal\<close>.\<close>

definition instant :: "runtime \<Rightarrow> gotime \<Rightarrow> int" where
  "instant rt t = (tsec t - rt_zone_offset rt (tzone t) (tsec t)) * 10 ^ 9 + int (tnano t)"

section \<open>WEEKDAY\<close>

definition weekdayExcel :: "gotime \<Rightarrow> int \<Rightarrow> string + int" where
  "weekdayExcel t returnType =
     (let wd = Weekday t in
      if returnType = 1 then Inr (wd + 1)
      else if returnType = 2 then (if wd = 0 then Inr 7 else Inr wd)
      else if returnType = 3 then Inr ((wd + 6) mod 7)
      else if 11 \<le> returnType \<and> returnType \<le> 17 then
        (let start = returnType - 11; mon0 = (wd + 6) mod 7 in Inr ((mon0 - start + 7) mod 7 + 1))
      else Inl ''formula: WEEKDAY return_type must be 1, 2, 3, or 11-17'')"

section \<open>DATEDIF\<close>

text \<open>\<open>b.Sub(a)\<close> saturates at the range of \<open>time.Duration\<close>, 64-bit nanoseconds.\<close>

definition duration_sub :: "int \<Rightarrow> int \<Rightarrow> int" where
  "duration_sub b a = max (- (2 ^ 63)) (min (2 ^ 63 - 1) (b - a))"

definition trunc_div :: "int \<Rightarrow> int \<Rightarrow> int" where
  "trunc_div a b = sgn a * (\<bar>a\<bar> div b)" \<comment> \<open>for \<open>b > 0\<close>\<close>

definition day_ns :: int where
  "day_ns = 24 * 3600 * 10 ^ 9"

definition daysBetween :: "gotime \<Rightarrow> gotime \<Rightarrow> int" where
  "daysBetween start end1 =
     (let a = days_from_civil (Year start) (Month start) (Day start);
          b = days_from_civil (Year end1) (Month end1) (Day end1)
      in trunc_div (duration_sub (b * day_ns) (a * day_ns)) day_ns)"

definition datedif :: "gotime \<Rightarrow> gotime \<Rightarrow> string \<Rightarrow> string + int" where
  "datedif start end1 unit1 =
     (let (sy, sm, sd) = Date_of start; (ey, em, ed) = Date_of end1 in
      if unit1 = ''Y'' then
        Inr (ey - sy - (if em < sm \<or> (em = sm \<and> ed < sd) then 1 else 0))
      else if unit1 = ''M'' then
        Inr ((ey - sy) * 12 + (em - sm) - (if ed < sd then 1 else 0))
      else if unit1 = ''D'' then Inr (daysBetween start end1)
      else if unit1 = ''YM'' then
        (let m = em - sm - (if ed < sd then 1 else 0) in Inr (if m < 0 then m + 12 else m))
      else if unit1 = ''MD'' then
        (if ed \<ge> sd then Inr (ed - sd)
         else let prev = time_Date ey em 0 ''UTC'' in Inr (Day prev - sd + ed))
      else if unit1 = ''YD'' then
        (let ann = time_Date ey sm sd ''UTC''; endU = time_Date ey em ed ''UTC'';
             ann' = (if tsec ann > tsec endU then time_Date (ey - 1) sm sd ''UTC'' else ann)
         in Inr (daysBetween ann' endU))
      else Inl ''formula: DATEDIF unit must be Y, M, D, YM, MD, or YD'')"

section \<open>The calendar is consistent\<close>

text \<open>Day and month within their ranges, and years that divide evenly into 400-year eras.\<close>

definition leap :: "int \<Rightarrow> bool" where
  "leap y = (4 dvd y \<and> (\<not> 100 dvd y \<or> 400 dvd y))"

definition month_len :: "int \<Rightarrow> int \<Rightarrow> int" where
  "month_len y m = (if m = 2 then if leap y then 29 else 28 else if m \<in> {4, 6, 9, 11} then 30 else 31)"

definition valid_date :: "int \<Rightarrow> int \<Rightarrow> int \<Rightarrow> bool" where
  "valid_date y m d = (1 \<le> m \<and> m \<le> 12 \<and> 1 \<le> d \<and> d \<le> month_len y m)"

lemma Weekday_range: "0 \<le> Weekday t \<and> Weekday t < 7"
  by (simp add: Weekday_def)

text \<open>The year within the era and the day within the year, from the day within the era.\<close>

lemma era_split:
  fixes c q r doy doe :: int
  assumes c: "0 \<le> c" "c \<le> 3" and q: "0 \<le> q" "q \<le> 24" and r: "0 \<le> r" "r \<le> 3"
    and doy: "0 \<le> doy" "doy \<le> 365" "doy = 365 \<Longrightarrow> r = 3 \<and> (q < 24 \<or> c = 3)"
    and doe: "doe = 36524 * c + 1461 * q + 365 * r + doy"
  shows "min 3 (doe div 36524) = c" "(doe - 36524 * c) div 1461 = q"
    "min 3 ((doe - 36524 * c - 1461 * q) div 365) = r" "0 \<le> doe" "doe < 146097"
proof -
  let ?in = "1461 * q + 365 * r + doy"
  have b: "?in \<le> 36523 \<or> c = 3 \<and> ?in = 36524"
    using q r doy by (cases "doy = 365") auto
  show "min 3 (doe div 36524) = c"
  proof (cases "?in \<le> 36523")
    case True
    have "doe div 36524 = c"
      by (rule int_div_pos_eq [where r = ?in]) (use doe True q r doy in auto)
    with c show ?thesis by simp
  next
    case False
    with b have "doe = 146096" "c = 3" using doe by auto
    then show ?thesis by simp
  qed
  show "(doe - 36524 * c) div 1461 = q"
    by (rule int_div_pos_eq [where r = "365 * r + doy"]) (use doe r doy in auto)
  have "(doe - 36524 * c - 1461 * q) div 365 = r \<or>
      r = 3 \<and> (doe - 36524 * c - 1461 * q) div 365 = 4"
    using doe doy r by (cases "doy = 365") (auto simp: int_div_pos_eq [where r = doy])
  with r show "min 3 ((doe - 36524 * c - 1461 * q) div 365) = r" by auto
  show "0 \<le> doe" "doe < 146097" using doe b c q r doy by auto
qed

lemma yoe_parts:
  fixes yoe :: int
  assumes "0 \<le> yoe" "yoe < 400"
  shows "yoe = 100 * (yoe div 100) + 4 * (yoe mod 100 div 4) + yoe mod 4"
    "yoe * 365 + yoe div 4 - yoe div 100 =
       36524 * (yoe div 100) + 1461 * (yoe mod 100 div 4) + 365 * (yoe mod 4)"
proof -
  obtain c s where s: "yoe = 100 * c + s" "0 \<le> s" "s < 100"
    using pos_mod_bound [of 100 yoe] pos_mod_sign [of 100 yoe] by (metis mult_div_mod_eq zero_less_numeral)
  obtain q r where q: "s = 4 * q + r" "0 \<le> r" "r < 4"
    using pos_mod_bound [of 4 s] pos_mod_sign [of 4 s] by (metis mult_div_mod_eq zero_less_numeral)
  have c: "yoe div 100 = c" "yoe mod 100 = s"
    using s by (auto simp: int_div_pos_eq int_mod_pos_eq)
  have r: "s div 4 = q" "yoe mod 4 = r" "yoe div 4 = 25 * c + q"
    using s q by (auto simp: int_div_pos_eq int_mod_pos_eq [where q = "25 * c + q"])
  from c r s q show "yoe = 100 * (yoe div 100) + 4 * (yoe mod 100 div 4) + yoe mod 4" by simp
  from c r s q show "yoe * 365 + yoe div 4 - yoe div 100 =
      36524 * (yoe div 100) + 1461 * (yoe mod 100 div 4) + 365 * (yoe mod 4)" by simp
qed

text \<open>Month and day, from the day within a year that starts in March.\<close>

lemma month_cases:
  fixes m :: int
  assumes "1 \<le> m" "m \<le> 12"
  shows "m = 1 \<or> m = 2 \<or> m = 3 \<or> m = 4 \<or> m = 5 \<or> m = 6 \<or> m = 7 \<or> m = 8 \<or> m = 9 \<or> m = 10 \<or>
    m = 11 \<or> m = 12"
proof -
  have "m = 1 \<or> m = 2 \<or> m = 3 \<or> m = 4" if "m \<le> 4" using assms that by linarith
  moreover have "m = 5 \<or> m = 6 \<or> m = 7 \<or> m = 8" if "4 < m" "m \<le> 8" using that by linarith
  moreover have "m = 9 \<or> m = 10 \<or> m = 11 \<or> m = 12" if "8 < m" using assms that by linarith
  ultimately show ?thesis by (meson not_less)
qed

lemma month_split:
  fixes m d :: int
  assumes m: "1 \<le> m" "m \<le> 12" and d: "1 \<le> d" "d \<le> 31"
    and feb: "m = 2 \<Longrightarrow> d \<le> 29" and short: "m \<in> {4, 6, 9, 11} \<Longrightarrow> d \<le> 30"
  defines "mp \<equiv> if m > 2 then m - 3 else m + 9"
  shows "(5 * ((153 * mp + 2) div 5 + d - 1) + 2) div 153 = mp"
proof -
  have split: "(5 * (b + d - 1) + 2) div 153 = k"
    if "153 * k \<le> 5 * b + 2" "5 * (b + l - 1) + 2 < 153 * k + 153" "d \<le> l" for b k l
    by (rule int_div_pos_eq [where r = "5 * (b + d - 1) + 2 - 153 * k"]) (use that d in auto)
  note month_cases [OF m]
  then show ?thesis
    by (elim disjE)
      (use split [where l = 29] split [where l = 30] split [where l = 31] d short feb in \<open>simp_all add: mp_def\<close>)
qed

lemma month_offset:
  fixes m d :: int
  assumes m: "1 \<le> m" "m \<le> 12" and d: "1 \<le> d" "d \<le> 31" "m = 2 \<Longrightarrow> d \<le> 29"
  defines "doy \<equiv> (153 * (if m > 2 then m - 3 else m + 9) + 2) div 5 + d - 1"
  shows "0 \<le> doy" "doy \<le> 365" "doy = 365 \<longrightarrow> m = 2 \<and> d = 29"
proof -
  note month_cases [OF m]
  then have "0 \<le> doy \<and> doy \<le> 365 \<and> (doy = 365 \<longrightarrow> m = 2 \<and> d = 29)"
    by (elim disjE) (use d in \<open>simp_all add: doy_def\<close>)
  then show "0 \<le> doy" "doy \<le> 365" "doy = 365 \<longrightarrow> m = 2 \<and> d = 29" by blast+
qed

lemma leap_era: "leap (a + 400 * k) \<longleftrightarrow> leap a"
proof -
  have "4 dvd 400 * k" "100 dvd 400 * k" "400 dvd 400 * k" by (auto intro: dvd_mult2)
  then show ?thesis by (simp add: leap_def dvd_add_left_iff)
qed

lemma leap_parts:
  fixes yoe :: int
  assumes yoe: "0 \<le> yoe" "yoe < 400" and leap: "leap (yoe + 1 + 400 * k)"
  shows "yoe mod 4 = 3 \<and> (yoe mod 100 div 4 < 24 \<or> yoe div 100 = 3)"
proof -
  from leap have l: "4 dvd yoe + 1" "\<not> 100 dvd yoe + 1 \<or> 400 dvd yoe + 1"
    unfolding leap_era by (auto simp: leap_def)
  have r: "yoe mod 4 = 3" using l(1) by presburger
  have "yoe div 100 = 3" if "\<not> yoe mod 100 div 4 < 24"
  proof -
    have "yoe mod 100 mod 4 = 3" using r by (simp add: mod_mod_cancel)
    then have "yoe mod 100 = 4 * (yoe mod 100 div 4) + 3" by presburger
    moreover have "yoe mod 100 < 100" by simp
    ultimately have "yoe mod 100 = 99" using that by linarith
    then have "100 dvd yoe + 1" by presburger
    with l(2) have "400 dvd yoe + 1" by blast
    with yoe have "yoe = 399" by presburger
    then show ?thesis by simp
  qed
  with r show ?thesis by blast
qed

text \<open>Reading a valid date back from its day number gives the date.\<close>

lemma civil_roundtrip:
  assumes v: "valid_date y m d"
  shows "civil_from_days (days_from_civil y m d) = (y, m, d)"
proof -
  define mp where "mp = (if m > 2 then m - 3 else m + 9)"
  define doy where "doy = (153 * mp + 2) div 5 + d - 1"
  define y' where "y' = (if m \<le> 2 then y - 1 else y)"
  define yoe where "yoe = y' mod 400"
  let ?c = "yoe div 100" and ?q = "yoe mod 100 div 4" and ?r = "yoe mod 4"
  have m: "1 \<le> m" "m \<le> 12" and d: "1 \<le> d" "d \<le> month_len y m" using v by (auto simp: valid_date_def)
  have d31: "d \<le> 31" "m = 2 \<Longrightarrow> d \<le> 29" "m \<in> {4, 6, 9, 11} \<Longrightarrow> d \<le> 30"
    using d by (auto simp: month_len_def split: if_splits)
  have ms: "(5 * doy + 2) div 153 = mp"
    unfolding doy_def mp_def by (rule month_split) (use m d d31 in auto)
  note mo = month_offset [OF m d(1) d31(1,2), folded mp_def, folded doy_def]
  have yoe: "0 \<le> yoe" "yoe < 400" by (simp_all add: yoe_def)
  define doe where "doe = yoe * 365 + yoe div 4 - yoe div 100 + doy"
  have nm: "(m - 1) div 12 = 0" "(m - 1) mod 12 + 1 = m" using m by auto
  have dn: "days_from_civil y m d = (y' div 400) * 146097 + doe - 719468"
    unfolding days_from_civil_def Let_def nm
    by (simp add: doe_def doy_def mp_def y'_def yoe_def)
  have last: "?r = 3 \<and> (?q < 24 \<or> ?c = 3)" if "doy = 365"
  proof -
    from mo(3) that have "m = 2" "d = 29" by simp_all
    then have "m = 2" "leap y" using d by (auto simp: month_len_def split: if_splits)
    then have "leap (yoe + 1 + 400 * (y' div 400))" by (simp add: y'_def yoe_def)
    then show ?thesis using leap_parts [OF yoe] by simp
  qed
  have doe: "doe = 36524 * ?c + 1461 * ?q + 365 * ?r + doy"
    using yoe_parts [OF yoe] by (simp add: doe_def)
  have "0 \<le> ?c" "?c \<le> 3" "0 \<le> ?q" "?q \<le> 24" "0 \<le> ?r" "?r \<le> 3"
    using yoe pos_mod_bound [of 100 yoe] pos_mod_bound [of 4 yoe] by simp_all
  note es = era_split [OF this mo(1,2) last doe]
  have parts: "min 3 (doe div 36524) = ?c" "(doe - 36524 * ?c) div 1461 = ?q"
    "min 3 ((doe - 36524 * ?c - 1461 * ?q) div 365) = ?r" "0 \<le> doe" "doe < 146097"
    by (rule es; assumption)+
  have z: "(days_from_civil y m d + 719468) div 146097 = y' div 400"
    "(days_from_civil y m d + 719468) mod 146097 = doe"
    using parts(4,5) dn by (auto intro: int_div_pos_eq [where r = doe] int_mod_pos_eq [where q = "y' div 400"])
  have doy: "doe - 36524 * ?c - 1461 * ?q - 365 * ?r = doy" using doe by simp
  have yr: "100 * ?c + 4 * ?q + ?r + y' div 400 * 400 = y'"
    using yoe_parts(1) [OF yoe] by (simp add: yoe_def)
  have inv: "(if mp < 10 then mp + 3 else mp - 9) = m" "doy - (153 * mp + 2) div 5 + 1 = d"
    "y' + (if m \<le> 2 then 1 else 0) = y"
    using m by (simp_all add: mp_def y'_def doy_def)
  show ?thesis
    unfolding civil_from_days_def Let_def z parts(1,2,3) doy ms yr inv ..
qed

lemma Date_of_time_Date [simp]: "Date_of (time_Date y m d loc) = civil_from_days (days_from_civil y m d)"
  by (simp add: Date_of_def day_number_def time_Date_def)

section \<open>Weekdays\<close>

lemma weekdayExcel_range:
  "weekdayExcel t rt = Inr n \<Longrightarrow> (if rt = 3 then 0 \<le> n \<and> n \<le> 6 else 1 \<le> n \<and> n \<le> 7)"
  using Weekday_range [of t] by (auto simp: weekdayExcel_def Let_def split: if_splits)

end
