(* ===== verification/Numeric.thy ===== *)
theory Numeric
  imports Go_Value
begin

text \<open>
  Decimal arithmetic for number columns (\<open>internal/numeric\<close>): conversion of dynamic values to
  decimals, rounding modes, and the number specification a column type carries. The decimal
  operations themselves are those of the runtime. \<open>decimal.NewFromFloat\<close> panics on NaN and
  the infinities, so every function that reaches it returns \<open>gopanic + 'a\<close>.
\<close>

section \<open>Integers of a fixed width\<close>

text \<open>The conversions \<open>int32(i)\<close> (wraps) and \<open>int(f)\<close> (the amd64 result when out of range).\<close>

definition int32_of :: "int \<Rightarrow> int" where
  "int32_of i = (i + 2 ^ 31) mod 2 ^ 32 - 2 ^ 31"

definition int_of_float :: "f64 \<Rightarrow> int" where
  "int_of_float f =
     (case f of
        Fin q \<Rightarrow> (let t = rat_trunc q in if - (2 ^ 63) \<le> t \<and> t < 2 ^ 63 then t else - (2 ^ 63))
      | _ \<Rightarrow> - (2 ^ 63))"

lemma int32_of_range: "- (2 ^ 31) \<le> int32_of i \<and> int32_of i < 2 ^ 31"
  using pos_mod_bound [of "2 ^ 32" "i + 2 ^ 31"] pos_mod_sign [of "2 ^ 32" "i + 2 ^ 31"]
  by (simp add: int32_of_def)

lemma int32_of_id: "- (2 ^ 31) \<le> i \<Longrightarrow> i < 2 ^ 31 \<Longrightarrow> int32_of i = i"
  by (simp add: int32_of_def)

section \<open>Specifications and modes\<close>

type_synonym rounding_mode = string

definition RoundHalfUp :: rounding_mode where "RoundHalfUp = ''half_up''"
definition RoundHalfEven :: rounding_mode where "RoundHalfEven = ''half_even''"
definition RoundCeil :: rounding_mode where "RoundCeil = ''ceil''"
definition RoundFloor :: rounding_mode where "RoundFloor = ''floor''"
definition RoundTruncate :: rounding_mode where "RoundTruncate = ''truncate''"

lemmas mode_defs = RoundHalfUp_def RoundHalfEven_def RoundCeil_def RoundFloor_def RoundTruncate_def

record nspec =
  FinancialMode :: bool
  Precision :: int
  Scale :: int
  RoundingMode :: rounding_mode

definition zero_spec :: nspec where
  "zero_spec = \<lparr>FinancialMode = False, Precision = 0, Scale = 0, RoundingMode = []\<rparr>"

definition DefaultNumberSpec :: nspec where
  "DefaultNumberSpec = \<lparr>FinancialMode = True, Precision = 20, Scale = 6, RoundingMode = RoundHalfUp\<rparr>"

definition ParseRoundingMode :: "string \<Rightarrow> string + rounding_mode" where
  "ParseRoundingMode s =
     (let m = to_lower (trim_space s) in
      if m = [] \<or> m = RoundHalfUp then Inr RoundHalfUp
      else if m = RoundHalfEven then Inr RoundHalfEven
      else if m = RoundCeil then Inr RoundCeil
      else if m = RoundFloor then Inr RoundFloor
      else if m = RoundTruncate then Inr RoundTruncate
      else Inl (''unsupported roundingMode '' @ s))"

section \<open>Values to decimals\<close>

text \<open>The run-time panics the modelled code can raise: \<open>NewFromFloat\<close> and a slice out of range.\<close>

datatype gopanic = DecimalOfNonFinite f64 | SliceBounds

definition float_to_dec :: "(f64 \<Rightarrow> dec option) \<Rightarrow> f64 \<Rightarrow> gopanic + dec option" where
  "float_to_dec conv f =
     (case conv f of None \<Rightarrow> Inl (DecimalOfNonFinite f) | Some d \<Rightarrow> Inr (Some d))"

text \<open>\<open>FromAny\<close>: \<open>Inr None\<close> is the result \<open>(_, false)\<close>.\<close>

fun FromAny :: "runtime \<Rightarrow> goany \<Rightarrow> gopanic + dec option" where
  "FromAny rt VNil = Inr None"
| "FromAny rt (VDec d) = Inr (Some d)"
| "FromAny rt (VFloat f) = float_to_dec (rt_dec_of_float rt) f"
| "FromAny rt (VFloat32 f) = float_to_dec (rt_dec_of_float32 rt) f"
| "FromAny rt (VInt i) = Inr (Some (rt_dec_of_int rt i))"
| "FromAny rt (VNum s) = Inr (rt_dec_of_string rt s)"
| "FromAny rt (VStr s) =
     (let t = trim_space s in if t = [] then Inr None else Inr (rt_dec_of_string rt t))"
| "FromAny rt (VBool b) = Inr (Some (if b then rt_dec_of_int rt 1 else Dec 0 0))"
| "FromAny rt _ = Inr None"

definition ToFloat64 :: "runtime \<Rightarrow> dec \<Rightarrow> f64" where
  "ToFloat64 rt d = rt_dec_to_float rt d"

section \<open>Rounding and arithmetic\<close>

definition quantize :: "runtime \<Rightarrow> dec \<Rightarrow> int \<Rightarrow> rounding_mode \<Rightarrow> dec" where
  "quantize rt d scale mode =
     (if scale < 0 then d
      else if mode = RoundCeil then rt_dec_round_ceil rt d (int32_of scale)
      else if mode = RoundFloor then rt_dec_round_floor rt d (int32_of scale)
      else if mode = RoundTruncate then rt_dec_truncate rt d (int32_of scale)
      else if mode = RoundHalfEven then rt_dec_round_bank rt d (int32_of scale)
      else rt_dec_round rt d (int32_of scale))"

definition Round :: "runtime \<Rightarrow> dec \<Rightarrow> nspec \<Rightarrow> dec" where
  "Round rt d spec =
     (if \<not> FinancialMode spec \<or> Scale spec < 0 then d
      else quantize rt d (Scale spec) (RoundingMode spec))"

definition RoundToScale :: "runtime \<Rightarrow> dec \<Rightarrow> int \<Rightarrow> rounding_mode \<Rightarrow> dec" where
  "RoundToScale rt d scale mode = quantize rt d scale mode"

definition Div :: "runtime \<Rightarrow> dec \<Rightarrow> dec \<Rightarrow> string + dec" where
  "Div rt a b = (if rt_dec_is_zero rt b then Inl ''division by zero'' else Inr (rt_dec_div rt a b))"

text \<open>\<open>Pow\<close> goes through \<open>float64\<close>; \<open>None\<close> from the conversion back is a panic.\<close>

definition Pow :: "runtime \<Rightarrow> dec \<Rightarrow> dec \<Rightarrow> gopanic + dec" where
  "Pow rt a b =
     (let p = rt_pow rt (rt_dec_to_float rt a) (rt_dec_to_float rt b) in
      case rt_dec_of_float rt p of None \<Rightarrow> Inl (DecimalOfNonFinite p) | Some d \<Rightarrow> Inr d)"

definition NormalizeAny :: "runtime \<Rightarrow> goany \<Rightarrow> nspec \<Rightarrow> gopanic + f64 option" where
  "NormalizeAny rt v spec =
     (case FromAny rt v of
        Inl p \<Rightarrow> Inl p
      | Inr None \<Rightarrow> Inr None
      | Inr (Some d) \<Rightarrow>
          Inr (Some (ToFloat64 rt (if FinancialMode spec then Round rt d spec else d))))"

definition Compare :: "runtime \<Rightarrow> dec \<Rightarrow> dec \<Rightarrow> int" where
  "Compare rt a b = rt_dec_cmp rt a b"

text \<open>A float64 that is integral and below \<open>1e15\<close> in magnitude, as an integer.\<close>

definition small_int :: "f64 \<Rightarrow> int option" where
  "small_int f =
     (case f of
        Fin q \<Rightarrow> if of_int (rat_trunc q) = q \<and> \<bar>q\<bar> < 10 ^ 15 then Some (rat_trunc q) else None
      | _ \<Rightarrow> None)"

definition FormatDecimal :: "runtime \<Rightarrow> dec \<Rightarrow> int \<Rightarrow> string" where
  "FormatDecimal rt d scale =
     (if 0 \<le> scale then rt_dec_string_fixed rt d (int32_of scale)
      else let s = rt_dec_string rt d in
        (case rt_parse_float rt s of
           None \<Rightarrow> s
         | Some f \<Rightarrow> (case small_int f of None \<Rightarrow> s | Some i \<Rightarrow> itoa i)))"

section \<open>Specifications from a type configuration\<close>

fun intFromAny :: "goany \<Rightarrow> int option" where
  "intFromAny (VInt i) = Some i"
| "intFromAny (VFloat f) = Some (int_of_float f)"
| "intFromAny _ = None"

text \<open>The optional settings of a spec: each overrides the default when it is present and valid.\<close>

definition override_mode :: "string \<Rightarrow> nspec \<Rightarrow> nspec" where
  "override_mode rm out =
     (if rm = [] then out
      else (case ParseRoundingMode rm of Inl _ \<Rightarrow> out | Inr m \<Rightarrow> out\<lparr>RoundingMode := m\<rparr>))"

definition SpecFromConfig :: "goobj option \<Rightarrow> nspec" where
  "SpecFromConfig cfg =
     (case cfg of
        None \<Rightarrow> zero_spec
      | Some c \<Rightarrow>
          let pg = as_string (obj_get c ''pgType'') in
          if pg \<noteq> [] \<and> pg \<noteq> ''number'' then zero_spec
          else
            let o1 = DefaultNumberSpec;
                o2 = (case intFromAny (obj_get c ''precision'') of None \<Rightarrow> o1 | Some p \<Rightarrow> o1\<lparr>Precision := p\<rparr>);
                o3 = (case intFromAny (obj_get c ''scale'') of None \<Rightarrow> o2 | Some s \<Rightarrow> o2\<lparr>Scale := s\<rparr>);
                o4 = (case obj_get c ''financialMode'' of VBool b \<Rightarrow> o3\<lparr>FinancialMode := b\<rparr> | _ \<Rightarrow> o3)
            in override_mode (as_string (obj_get c ''roundingMode'')) o4)"

definition IsNumericType :: "string \<Rightarrow> bool" where
  "IsNumericType typeID = (typeID = ''number'')"

section \<open>The documented behaviour of the decimal package\<close>

text \<open>
  What the evaluator relies on: the operations act on the denoted numbers, comparison is
  that of the numbers, and \<open>NewFromFloat\<close> is defined exactly on the finite floats.
\<close>

definition decimal_laws :: "runtime \<Rightarrow> bool" where
  "decimal_laws rt \<longleftrightarrow>
     (\<forall>a b. dec_val (rt_dec_add rt a b) = dec_val a + dec_val b) \<and>
     (\<forall>a b. dec_val (rt_dec_sub rt a b) = dec_val a - dec_val b) \<and>
     (\<forall>a b. dec_val (rt_dec_mul rt a b) = dec_val a * dec_val b) \<and>
     (\<forall>a. dec_val (rt_dec_neg rt a) = - dec_val a) \<and>
     (\<forall>a. dec_val (rt_dec_abs rt a) = \<bar>dec_val a\<bar>) \<and>
     (\<forall>i. dec_val (rt_dec_of_int rt i) = of_int i) \<and>
     (\<forall>a. rt_dec_is_zero rt a \<longleftrightarrow> dec_val a = 0) \<and>
     (\<forall>a b. rt_dec_cmp rt a b =
        (if dec_val a < dec_val b then -1 else if dec_val a = dec_val b then 0 else 1)) \<and>
     (\<forall>f. rt_dec_of_float rt f = None \<longleftrightarrow> (\<forall>q. f \<noteq> Fin q))"

lemma decimal_lawsD:
  assumes "decimal_laws rt"
  shows "dec_val (rt_dec_add rt a b) = dec_val a + dec_val b"
    and "dec_val (rt_dec_sub rt a b) = dec_val a - dec_val b"
    and "dec_val (rt_dec_mul rt a b) = dec_val a * dec_val b"
    and "dec_val (rt_dec_neg rt a) = - dec_val a"
    and "dec_val (rt_dec_abs rt a) = \<bar>dec_val a\<bar>"
    and "dec_val (rt_dec_of_int rt i) = of_int i"
    and "rt_dec_is_zero rt a \<longleftrightarrow> dec_val a = 0"
    and "rt_dec_cmp rt a b =
      (if dec_val a < dec_val b then -1 else if dec_val a = dec_val b then 0 else 1)"
    and "rt_dec_of_float rt f = None \<longleftrightarrow> (\<forall>q. f \<noteq> Fin q)"
  using assms by (simp_all add: decimal_laws_def)

lemma ParseRoundingMode_ok:
  "ParseRoundingMode s = Inr m \<Longrightarrow>
     m \<in> {RoundHalfUp, RoundHalfEven, RoundCeil, RoundFloor, RoundTruncate}"
  by (auto simp: ParseRoundingMode_def Let_def split: if_splits)

lemma ParseRoundingMode_idem: "ParseRoundingMode s = Inr m \<Longrightarrow> ParseRoundingMode m = Inr m"
proof -
  assume "ParseRoundingMode s = Inr m"
  then have "m \<in> {RoundHalfUp, RoundHalfEven, RoundCeil, RoundFloor, RoundTruncate}"
    by (rule ParseRoundingMode_ok)
  moreover have "\<forall>x \<in> {RoundHalfUp, RoundHalfEven, RoundCeil, RoundFloor, RoundTruncate}.
      ParseRoundingMode x = Inr x"
    by code_simp
  ultimately show ?thesis by blast
qed

end
