(* ===== verification/Formula_Eval.thy ===== *)
theory Formula_Eval
  imports Formula_Syntax Formula_Date Numeric
begin

text \<open>
  The evaluator of the formula language (\<open>internal/formula/eval.go\<close>, \<open>decimal.go\<close>,
  \<open>eval_math.go\<close>, \<open>eval_text.go\<close>, \<open>eval_date.go\<close>). The environment is the map of column
  values. A call evaluates its arguments with the recursive \<open>Eval\<close>; here \<open>evalCall\<close> takes the
  list of the arguments' results, of which a branch uses only those the code evaluates, in the
  order in which it does. \<open>evalArith\<close>, \<open>evalMinMax\<close> and \<open>evalINT\<close>, the \<open>float64\<close> versions of
  the decimal routines, are not called from anywhere and are left out. Messages are those of the
  code, without the quotes that \<open>%q\<close> puts around an operator.
\<close>

section \<open>Results\<close>

datatype everr = EvalErr string | EvalParse perr | EvalPanic gopanic

type_synonym ev = "everr + goany"

text \<open>\<open>x, err := f(); if err != nil { return nil, err }\<close> followed by the rest of the body.\<close>

definition ebind :: "everr + 'a \<Rightarrow> ('a \<Rightarrow> everr + 'b) \<Rightarrow> everr + 'b" where
  "ebind r k = (case r of Inl e \<Rightarrow> Inl e | Inr x \<Rightarrow> k x)"

lemma ebind_simps [simp, res_simps]: "ebind (Inl e) k = Inl e" "ebind (Inr x) k = k x"
  by (simp_all add: ebind_def)

lemma ebind_Inr_iff [res_simps]: "ebind r k = Inr y \<longleftrightarrow> (\<exists>x. r = Inr x \<and> k x = Inr y)"
  by (cases r) auto

definition toDecimal :: "runtime \<Rightarrow> goany \<Rightarrow> everr + dec option" where
  "toDecimal rt v = (case FromAny rt v of Inl p \<Rightarrow> Inl (EvalPanic p) | Inr d \<Rightarrow> Inr d)"

definition decimalToResult :: "runtime \<Rightarrow> dec \<Rightarrow> goany" where
  "decimalToResult rt d = VFloat (ToFloat64 rt d)"

text \<open>The pattern \<open>n, ok := toDecimal(v); if !ok { return error }\<close>.\<close>

definition need_dec :: "runtime \<Rightarrow> string \<Rightarrow> goany \<Rightarrow> everr + dec" where
  "need_dec rt msg v =
     ebind (toDecimal rt v) (\<lambda>d. case d of None \<Rightarrow> Inl (EvalErr msg) | Some d \<Rightarrow> Inr d)"

section \<open>Conversions\<close>

fun toFloat :: "runtime \<Rightarrow> goany \<Rightarrow> f64 option" where
  "toFloat rt (VFloat f) = Some f"
| "toFloat rt (VFloat32 f) = Some f"
| "toFloat rt (VInt i) = Some (f64_of_int i)"
| "toFloat rt (VNum s) = rt_parse_float rt s"
| "toFloat rt (VStr s) = rt_parse_float rt (trim_space s)"
| "toFloat rt (VBool b) = Some (Fin (if b then 1 else 0))"
| "toFloat rt _ = None"

definition formatFloat :: "runtime \<Rightarrow> f64 \<Rightarrow> string" where
  "formatFloat rt f = (case small_int f of Some i \<Rightarrow> itoa i | None \<Rightarrow> rt_format_float rt f)"

definition RFC3339 :: string where "RFC3339 = ''2006-01-02T15:04:05Z07:00''"
definition RFC3339Nano :: string where "RFC3339Nano = ''2006-01-02T15:04:05.999999999Z07:00''"

definition toString :: "runtime \<Rightarrow> goany \<Rightarrow> string" where
  "toString rt v =
     (case v of
        VNil \<Rightarrow> []
      | VStr s \<Rightarrow> s
      | VTime t \<Rightarrow>
          if tsec t mod 86400 = 0 \<and> tnano t = 0 then rt_format_time rt ''2006-01-02'' t
          else rt_format_time rt RFC3339 t
      | VBool b \<Rightarrow> if b then ''TRUE'' else ''FALSE''
      | VFloat f \<Rightarrow> formatFloat rt f
      | _ \<Rightarrow> (case toFloat rt v of Some f \<Rightarrow> formatFloat rt f | None \<Rightarrow> sprint rt v))"

definition truthy :: "runtime \<Rightarrow> goany \<Rightarrow> bool" where
  "truthy rt v =
     (case v of
        VNil \<Rightarrow> False
      | VBool b \<Rightarrow> b
      | VStr s \<Rightarrow> s \<noteq> []
      | _ \<Rightarrow> (case toFloat rt v of Some f \<Rightarrow> \<not> f64_eq f (Fin 0) | None \<Rightarrow> True))"

definition isBlank :: "goany \<Rightarrow> bool" where
  "isBlank v = (case v of VNil \<Rightarrow> True | VStr s \<Rightarrow> s = [] | _ \<Rightarrow> False)"

definition truncInt :: "runtime \<Rightarrow> goany \<Rightarrow> int option" where
  "truncInt rt v = (case toFloat rt v of Some (Fin q) \<Rightarrow> Some (int_of_float (Fin q)) | _ \<Rightarrow> None)"

section \<open>Dates\<close>

definition before_sep :: "string \<Rightarrow> string" where
  "before_sep s =
     (let p = takeWhile (\<lambda>c. c \<noteq> CHR ''T'' \<and> c \<noteq> CHR '' '') s in if p = [] then s else p)"

definition parseLooseDate :: "runtime \<Rightarrow> string \<Rightarrow> gotime option" where
  "parseLooseDate rt s =
     (let datePart = replace_char CHR ''/'' ''-'' (replace_char CHR ''.'' ''-'' (before_sep s)) in
      case split_char CHR ''-'' datePart of
        [py, pm, pd] \<Rightarrow>
          (case (truncInt rt (VStr py), truncInt rt (VStr pm), truncInt rt (VStr pd)) of
             (Some y, Some m, Some d) \<Rightarrow>
               if y < 1 \<or> m < 1 \<or> m > 12 \<or> d < 1 \<or> d > 31 then None
               else Some (time_Date y m d ''Local'')
           | _ \<Rightarrow> None)
      | _ \<Rightarrow> None)"

definition date_layouts :: "string list" where
  "date_layouts =
     [RFC3339, RFC3339Nano, ''2006-01-02'', ''2006-01-02 15:04:05'', ''2006-01-02T15:04:05'',
      ''2006/01/02'', ''2006/01/02 15:04:05'', ''2006.01.02'', ''20060102'']"

fun first_layout :: "runtime \<Rightarrow> string list \<Rightarrow> string \<Rightarrow> gotime option" where
  "first_layout rt [] s = None"
| "first_layout rt (l # ls) s =
     (case rt_parse_time rt l s of Some t \<Rightarrow> Some t | None \<Rightarrow> first_layout rt ls s)"

definition parseDateString :: "runtime \<Rightarrow> string \<Rightarrow> gotime option" where
  "parseDateString rt s =
     (if s = [] then None
      else (case first_layout rt date_layouts s of Some t \<Rightarrow> Some t | None \<Rightarrow> parseLooseDate rt s))"

definition asTime :: "runtime \<Rightarrow> goany \<Rightarrow> gotime option" where
  "asTime rt v =
     (case v of VTime t \<Rightarrow> Some t | VStr s \<Rightarrow> parseDateString rt (trim_space s) | _ \<Rightarrow> None)"

section \<open>Operators\<close>

definition evalUnary :: "runtime \<Rightarrow> string \<Rightarrow> goany \<Rightarrow> ev" where
  "evalUnary rt op x =
     (if op = ''-'' then
        ebind (need_dec rt ''formula: unary - needs a number'' x)
          (\<lambda>n. Inr (decimalToResult rt (rt_dec_neg rt n)))
      else if op = ''+'' then
        ebind (need_dec rt ''formula: unary + needs a number'' x) (\<lambda>n. Inr (decimalToResult rt n))
      else if op = ''%'' then
        ebind (need_dec rt ''formula: % needs a number'' x)
          (\<lambda>n. case Div rt n (rt_dec_of_int rt 100) of
              Inl e \<Rightarrow> Inl (EvalErr e)
            | Inr q \<Rightarrow> Inr (decimalToResult rt q))
      else Inl (EvalErr (''formula: unknown unary '' @ op)))"

definition evalArithDecimal :: "runtime \<Rightarrow> string \<Rightarrow> goany \<Rightarrow> goany \<Rightarrow> ev" where
  "evalArithDecimal rt op l r =
     ebind (toDecimal rt l) (\<lambda>a. ebind (toDecimal rt r) (\<lambda>b.
       case (a, b) of
         (Some a, Some b) \<Rightarrow>
           if op = ''+'' then Inr (decimalToResult rt (rt_dec_add rt a b))
           else if op = ''-'' then Inr (decimalToResult rt (rt_dec_sub rt a b))
           else if op = ''*'' then Inr (decimalToResult rt (rt_dec_mul rt a b))
           else if op = ''/'' then
             (case Div rt a b of
                Inl _ \<Rightarrow> Inl (EvalErr ''formula: division by zero'')
              | Inr q \<Rightarrow> Inr (decimalToResult rt q))
           else if op = ''^'' then
             (case Pow rt a b of Inl p \<Rightarrow> Inl (EvalPanic p) | Inr q \<Rightarrow> Inr (decimalToResult rt q))
           else Inl (EvalErr (''formula: unknown operator '' @ op))
       | _ \<Rightarrow>
           if op = ''+'' then Inr (VStr (toString rt l @ toString rt r))
           else Inl (EvalErr (''formula: '' @ op @ '' needs numbers''))))"

text \<open>The six comparisons from an order: \<open>=\<close>, \<open><>\<close>, \<open><\<close>, \<open>>\<close>, \<open><=\<close>, \<open>>=\<close>; \<open>None\<close> for another operator.\<close>

definition six_way :: "string \<Rightarrow> bool \<Rightarrow> bool \<Rightarrow> bool \<Rightarrow> bool option" where
  "six_way op eq lt gt =
     (if op = ''='' then Some eq
      else if op = ''<>'' then Some (\<not> eq)
      else if op = ''<'' then Some lt
      else if op = ''>'' then Some gt
      else if op = ''<='' then Some (lt \<or> eq)
      else if op = ''>='' then Some (gt \<or> eq)
      else None)"

definition evalCompareDecimal :: "runtime \<Rightarrow> string \<Rightarrow> goany \<Rightarrow> goany \<Rightarrow> everr + bool" where
  "evalCompareDecimal rt op l r =
     ebind (toDecimal rt l) (\<lambda>a. ebind (toDecimal rt r) (\<lambda>b.
       case (a, b) of
         (Some a, Some b) \<Rightarrow>
           (let cmp = Compare rt a b in
            case six_way op (cmp = 0) (cmp < 0) (cmp > 0) of
              Some c \<Rightarrow> Inr c
            | None \<Rightarrow> Inl (EvalErr (''formula: unknown compare '' @ op)))
       | _ \<Rightarrow> Inr False))"

text \<open>The comparison by text, when no typed comparison applies.\<close>

definition compareText :: "runtime \<Rightarrow> string \<Rightarrow> goany \<Rightarrow> goany \<Rightarrow> everr + bool" where
  "compareText rt op l r =
     (let ls = toString rt l; rs = toString rt r in
      case six_way op (ls = rs) (ls < rs) (rs < ls) of
        Some c \<Rightarrow> Inr c
      | None \<Rightarrow> Inl (EvalErr (''formula: unknown compare '' @ op)))"

text \<open>The comparison as \<open>float64\<close>; with an unknown operator the code goes on to the text.\<close>

definition compareFloat :: "runtime \<Rightarrow> string \<Rightarrow> goany \<Rightarrow> goany \<Rightarrow> everr + bool" where
  "compareFloat rt op l r =
     (case (toFloat rt l, toFloat rt r) of
        (Some lf, Some rf) \<Rightarrow>
          (case six_way op (f64_eq lf rf) (f64_lt lf rf) (f64_lt rf lf) of
             Some c \<Rightarrow> Inr c
           | None \<Rightarrow> compareText rt op l r)
      | _ \<Rightarrow> compareText rt op l r)"

text \<open>\<open>toDecimal(r)\<close> is called only when \<open>toDecimal(l)\<close> succeeds.\<close>

definition compareNumber :: "runtime \<Rightarrow> string \<Rightarrow> goany \<Rightarrow> goany \<Rightarrow> everr + bool" where
  "compareNumber rt op l r =
     ebind (toDecimal rt l) (\<lambda>a. case a of
         None \<Rightarrow> compareFloat rt op l r
       | Some _ \<Rightarrow> ebind (toDecimal rt r) (\<lambda>b. case b of
           None \<Rightarrow> compareFloat rt op l r
         | Some _ \<Rightarrow> evalCompareDecimal rt op l r))"

definition evalCompare :: "runtime \<Rightarrow> string \<Rightarrow> goany \<Rightarrow> goany \<Rightarrow> everr + bool" where
  "evalCompare rt op l r =
     (case (asTime rt l, asTime rt r) of
        (Some a, Some b) \<Rightarrow>
          (let i = instant rt a; j = instant rt b in
           case six_way op (i = j) (i < j) (i > j) of
             Some c \<Rightarrow> Inr c
           | None \<Rightarrow> compareNumber rt op l r)
      | _ \<Rightarrow> compareNumber rt op l r)"

section \<open>Functions\<close>

subsection \<open>Numbers\<close>

definition arity_err :: "string \<Rightarrow> string \<Rightarrow> everr" where
  "arity_err name what = EvalErr (''formula: '' @ name @ '' needs '' @ what)"

text \<open>The optional second argument of \<open>ROUND\<close>, \<open>CEIL\<close> and \<open>FLOOR\<close>; not a number counts as 0.\<close>

definition digits_arg :: "runtime \<Rightarrow> ev list \<Rightarrow> everr + int" where
  "digits_arg rt rs =
     (case rs of
        [_, r] \<Rightarrow> ebind r (\<lambda>v. ebind (toDecimal rt v) (\<lambda>d.
          Inr (case d of None \<Rightarrow> 0 | Some n \<Rightarrow> rt_dec_int_part rt n)))
      | _ \<Rightarrow> Inr 0)"

definition evalRoundCall :: "runtime \<Rightarrow> ev list \<Rightarrow> rounding_mode \<Rightarrow> ev" where
  "evalRoundCall rt rs mode =
     (if length rs < 1 \<or> length rs > 2 then Inl (arity_err ''ROUND'' ''1 or 2 arguments'')
      else ebind (hd rs) (\<lambda>v. ebind (need_dec rt ''formula: ROUND needs a number'' v) (\<lambda>d.
        ebind (digits_arg rt rs) (\<lambda>scale.
          Inr (decimalToResult rt (RoundToScale rt d scale mode))))))"

definition evalCeilFloorCall :: "runtime \<Rightarrow> ev list \<Rightarrow> bool \<Rightarrow> ev" where
  "evalCeilFloorCall rt rs ceil =
     (let name = (if ceil then ''CEIL'' else ''FLOOR'');
          mode = (if ceil then RoundCeil else RoundFloor)
      in if length rs < 1 \<or> length rs > 2 then Inl (arity_err name ''1 or 2 arguments'')
         else ebind (hd rs) (\<lambda>v. ebind (need_dec rt (''formula: '' @ name @ '' needs a number'') v) (\<lambda>d.
           ebind (digits_arg rt rs) (\<lambda>scale.
             Inr (decimalToResult rt (RoundToScale rt d scale mode))))))"

fun sum_loop :: "runtime \<Rightarrow> dec \<Rightarrow> ev list \<Rightarrow> everr + dec" where
  "sum_loop rt acc [] = Inr acc"
| "sum_loop rt acc (r # rs) =
     ebind r (\<lambda>v. ebind (need_dec rt ''formula: SUM needs numbers'' v) (\<lambda>n.
       sum_loop rt (rt_dec_add rt acc n) rs))"

definition evalSumDecimal :: "runtime \<Rightarrow> ev list \<Rightarrow> ev" where
  "evalSumDecimal rt rs = ebind (sum_loop rt (Dec 0 0) rs) (\<lambda>s. Inr (decimalToResult rt s))"

definition evalAbsDecimal :: "runtime \<Rightarrow> goany \<Rightarrow> ev" where
  "evalAbsDecimal rt v =
     ebind (need_dec rt ''formula: ABS needs a number'' v) (\<lambda>n. Inr (decimalToResult rt (rt_dec_abs rt n)))"

text \<open>\<open>best = None\<close> is the first round of the loop.\<close>

fun minmax_loop :: "runtime \<Rightarrow> bool \<Rightarrow> dec option \<Rightarrow> ev list \<Rightarrow> everr + dec option" where
  "minmax_loop rt mn best [] = Inr best"
| "minmax_loop rt mn best (r # rs) =
     ebind r (\<lambda>v.
     ebind (need_dec rt (''formula: '' @ (if mn then ''MIN'' else ''MAX'') @ '' needs numbers'') v) (\<lambda>n.
       minmax_loop rt mn
         (case best of
            None \<Rightarrow> Some n
          | Some b \<Rightarrow>
              let cmp = Compare rt n b in
              if mn then (if cmp < 0 then Some n else Some b)
              else (if cmp > 0 then Some n else Some b)) rs))"

definition evalMinMaxDecimal :: "runtime \<Rightarrow> ev list \<Rightarrow> bool \<Rightarrow> ev" where
  "evalMinMaxDecimal rt rs mn =
     (if length rs < 1 then Inl (arity_err (if mn then ''MIN'' else ''MAX'') ''at least 1 argument'')
      else ebind (minmax_loop rt mn None rs)
        (\<lambda>b. Inr (decimalToResult rt (case b of None \<Rightarrow> Dec 0 0 | Some d \<Rightarrow> d))))"

definition evalINTDecimal :: "runtime \<Rightarrow> goany \<Rightarrow> ev" where
  "evalINTDecimal rt v =
     ebind (need_dec rt ''formula: INT needs a number'' v)
       (\<lambda>n. Inr (decimalToResult rt (RoundToScale rt n 0 RoundFloor)))"

subsection \<open>Text\<close>

text \<open>A function of exactly one argument.\<close>

definition arg1 :: "string \<Rightarrow> ev list \<Rightarrow> everr + goany" where
  "arg1 name rs = (case rs of [r] \<Rightarrow> r | _ \<Rightarrow> Inl (arity_err name ''1 argument''))"

definition arg3 :: "string \<Rightarrow> ev list \<Rightarrow> everr + (goany \<times> goany \<times> goany)" where
  "arg3 name rs =
     (case rs of
        [r1, r2, r3] \<Rightarrow> ebind r1 (\<lambda>a. ebind r2 (\<lambda>b. ebind r3 (\<lambda>c. Inr (a, b, c))))
      | _ \<Rightarrow> Inl (arity_err name ''3 arguments''))"

text \<open>
  \<open>i + n\<close> wraps at 64 bits: with a huge \<open>num_chars\<close> the end of the slice is negative and
  slicing panics; \<open>None\<close> is that panic.
\<close>

definition int64_of :: "int \<Rightarrow> int" where
  "int64_of i = (i + 2 ^ 63) mod 2 ^ 64 - 2 ^ 63"

definition mid_slice :: "string \<Rightarrow> int \<Rightarrow> int \<Rightarrow> string option" where
  "mid_slice runes start n =
     (if n = 0 \<or> start > int (length runes) then Some []
      else
        let i = start - 1; e = int64_of (i + n);
            e' = (if e > int (length runes) then int (length runes) else e)
        in if i \<le> e' then Some (take (nat (e' - i)) (drop (nat i) runes)) else None)"

definition evalMID :: "runtime \<Rightarrow> ev list \<Rightarrow> ev" where
  "evalMID rt rs =
     ebind (arg3 ''MID'' rs) (\<lambda>(textV, startV, nV).
       case truncInt rt startV of
         None \<Rightarrow> Inl (EvalErr ''formula: MID start_num must be >= 1'')
       | Some start \<Rightarrow>
           if start < 1 then Inl (EvalErr ''formula: MID start_num must be >= 1'')
           else (case truncInt rt nV of
               None \<Rightarrow> Inl (EvalErr ''formula: MID num_chars must be >= 0'')
             | Some n \<Rightarrow>
                 if n < 0 then Inl (EvalErr ''formula: MID num_chars must be >= 0'')
                 else (case mid_slice (toString rt textV) start n of
                     None \<Rightarrow> Inl (EvalPanic SliceBounds)
                   | Some s \<Rightarrow> Inr (VStr s))))"

fun trim_loop :: "bool \<Rightarrow> bool \<Rightarrow> string \<Rightarrow> string" where
  "trim_loop pending started [] = []"
| "trim_loop pending started (c # s) =
     (if c = CHR '' '' then trim_loop (pending \<or> started) started s
      else (if pending then CHR '' '' # c # trim_loop False True s else c # trim_loop False True s))"

definition excelTrim :: "string \<Rightarrow> string" where
  "excelTrim s = trim_loop False False s"

definition evalTRIM :: "runtime \<Rightarrow> ev list \<Rightarrow> ev" where
  "evalTRIM rt rs = ebind (arg1 ''TRIM'' rs) (\<lambda>v. Inr (VStr (excelTrim (toString rt v))))"

definition evalCase :: "runtime \<Rightarrow> ev list \<Rightarrow> string \<Rightarrow> ev" where
  "evalCase rt rs which =
     ebind (arg1 which rs) (\<lambda>v.
       let s = toString rt v in Inr (VStr (if which = ''UPPER'' then to_upper s else to_lower s)))"

definition evalLEN :: "runtime \<Rightarrow> ev list \<Rightarrow> ev" where
  "evalLEN rt rs =
     ebind (arg1 ''LEN'' rs) (\<lambda>v. Inr (VFloat (f64_of_int (int (length (toString rt v))))))"

definition evalISBLANK :: "ev list \<Rightarrow> ev" where
  "evalISBLANK rs = ebind (arg1 ''ISBLANK'' rs) (\<lambda>v. Inr (VBool (isBlank v)))"

fun concat_loop :: "runtime \<Rightarrow> ev list \<Rightarrow> everr + string" where
  "concat_loop rt [] = Inr []"
| "concat_loop rt (r # rs) =
     ebind r (\<lambda>v. ebind (concat_loop rt rs) (\<lambda>s. Inr (toString rt v @ s)))"

subsection \<open>Logic\<close>

fun and_loop :: "runtime \<Rightarrow> ev list \<Rightarrow> ev" where
  "and_loop rt [] = Inr (VBool True)"
| "and_loop rt (r # rs) = ebind r (\<lambda>v. if \<not> truthy rt v then Inr (VBool False) else and_loop rt rs)"

fun or_loop :: "runtime \<Rightarrow> ev list \<Rightarrow> ev" where
  "or_loop rt [] = Inr (VBool False)"
| "or_loop rt (r # rs) = ebind r (\<lambda>v. if truthy rt v then Inr (VBool True) else or_loop rt rs)"

definition evalIF :: "runtime \<Rightarrow> ev list \<Rightarrow> ev" where
  "evalIF rt rs =
     (if length rs < 2 \<or> length rs > 3 then Inl (arity_err ''IF'' ''2 or 3 arguments'')
      else ebind (rs ! 0) (\<lambda>cond.
        if truthy rt cond then rs ! 1
        else if length rs = 3 then rs ! 2
        else Inr (VBool False)))"

subsection \<open>Dates\<close>

definition need_time :: "runtime \<Rightarrow> string \<Rightarrow> goany \<Rightarrow> everr + gotime" where
  "need_time rt msg v = (case asTime rt v of None \<Rightarrow> Inl (EvalErr msg) | Some t \<Rightarrow> Inr t)"

definition lift_err :: "string + 'a \<Rightarrow> everr + 'a" where
  "lift_err r = (case r of Inl e \<Rightarrow> Inl (EvalErr e) | Inr x \<Rightarrow> Inr x)"

definition evalTODAY :: "runtime \<Rightarrow> ev list \<Rightarrow> ev" where
  "evalTODAY rt rs =
     (if rs \<noteq> [] then Inl (EvalErr ''formula: TODAY takes no arguments'')
      else Inr (VTime (dateOnly (rt_now rt))))"

definition evalNOW :: "runtime \<Rightarrow> ev list \<Rightarrow> ev" where
  "evalNOW rt rs =
     (if rs \<noteq> [] then Inl (EvalErr ''formula: NOW takes no arguments'') else Inr (VTime (rt_now rt)))"

definition evalDATEVALUE :: "runtime \<Rightarrow> ev list \<Rightarrow> ev" where
  "evalDATEVALUE rt rs =
     ebind (arg1 ''DATEVALUE'' rs) (\<lambda>v.
       ebind (need_time rt ''formula: DATEVALUE needs a date text'' v) (\<lambda>t. Inr (VTime (dateOnly t))))"

definition evalWEEKDAY :: "runtime \<Rightarrow> ev list \<Rightarrow> ev" where
  "evalWEEKDAY rt rs =
     (if length rs < 1 \<or> length rs > 2 then Inl (arity_err ''WEEKDAY'' ''1 or 2 arguments'')
      else ebind (rs ! 0) (\<lambda>v. ebind (need_time rt ''formula: WEEKDAY needs a date'' v) (\<lambda>t.
        ebind
          (if length rs = 2 then ebind (rs ! 1) (\<lambda>r.
             case truncInt rt r of
               None \<Rightarrow> Inl (EvalErr ''formula: WEEKDAY return_type needs a number'')
             | Some n \<Rightarrow> Inr n)
           else Inr 1)
          (\<lambda>ret. ebind (lift_err (weekdayExcel t ret)) (\<lambda>n. Inr (VFloat (f64_of_int n)))))))"

definition evalDATE :: "runtime \<Rightarrow> ev list \<Rightarrow> ev" where
  "evalDATE rt rs =
     ebind (arg3 ''DATE'' rs) (\<lambda>(yV, mV, dV).
       case (truncInt rt yV, truncInt rt mV, truncInt rt dV) of
         (Some y, Some m, Some d) \<Rightarrow>
           if y < 0 then Inl (EvalErr ''formula: DATE year must be >= 0'')
           else let y' = (if y \<le> 1899 then y + 1900 else y) in
             if y' > 9999 then Inl (EvalErr ''formula: DATE year must be <= 9999'')
             else Inr (VTime (time_Date y' m d ''Local''))
       | _ \<Rightarrow> Inl (EvalErr ''formula: DATE needs numbers''))"

definition evalDatePart :: "runtime \<Rightarrow> ev list \<Rightarrow> string \<Rightarrow> ev" where
  "evalDatePart rt rs which =
     ebind (arg1 which rs) (\<lambda>v.
       ebind (need_time rt (''formula: '' @ which @ '' needs a date'') v) (\<lambda>t.
         Inr (VFloat (f64_of_int
           (if which = ''YEAR'' then Year t else if which = ''MONTH'' then Month t else Day t)))))"

definition evalDATEDIF :: "runtime \<Rightarrow> ev list \<Rightarrow> ev" where
  "evalDATEDIF rt rs =
     ebind (arg3 ''DATEDIF'' rs) (\<lambda>(sV, eV, uV).
       case (asTime rt sV, asTime rt eV) of
         (Some s, Some e) \<Rightarrow>
           (let start = dateOnly s; end1 = dateOnly e in
            if instant rt end1 < instant rt start
            then Inl (EvalErr ''formula: DATEDIF end must be >= start'')
            else ebind (lift_err (datedif start end1 (to_upper (trim_space (toString rt uV)))))
              (\<lambda>n. Inr (VFloat (f64_of_int n))))
       | _ \<Rightarrow> Inl (EvalErr ''formula: DATEDIF needs dates''))"

section \<open>Calls and expressions\<close>

definition evalCall :: "runtime \<Rightarrow> string \<Rightarrow> ev list \<Rightarrow> ev" where
  "evalCall rt name rs =
     (if name = ''IF'' then evalIF rt rs
      else if name = ''SUM'' then evalSumDecimal rt rs
      else if name = ''CONCAT'' \<or> name = ''CONCATENATE'' then
        ebind (concat_loop rt rs) (\<lambda>s. Inr (VStr s))
      else if name = ''AND'' then and_loop rt rs
      else if name = ''OR'' then or_loop rt rs
      else if name = ''NOT'' then ebind (arg1 name rs) (\<lambda>v. Inr (VBool (\<not> truthy rt v)))
      else if name = ''TRUE'' then Inr (VBool True)
      else if name = ''FALSE'' then Inr (VBool False)
      else if name = ''TEXT'' then
        (if rs = [] then Inl (EvalErr ''formula: TEXT needs an argument'')
         else ebind (hd rs) (\<lambda>v. Inr (VStr (toString rt v))))
      else if name = ''ABS'' then ebind (arg1 name rs) (evalAbsDecimal rt)
      else if name = ''ROUND'' then evalRoundCall rt rs RoundHalfUp
      else if name = ''CEIL'' \<or> name = ''CEILING'' then evalCeilFloorCall rt rs True
      else if name = ''FLOOR'' then evalCeilFloorCall rt rs False
      else if name = ''MIN'' then evalMinMaxDecimal rt rs True
      else if name = ''MAX'' then evalMinMaxDecimal rt rs False
      else if name = ''INT'' then ebind (arg1 name rs) (evalINTDecimal rt)
      else if name = ''ISBLANK'' then evalISBLANK rs
      else if name = ''TRIM'' then evalTRIM rt rs
      else if name = ''UPPER'' then evalCase rt rs ''UPPER''
      else if name = ''LOWER'' then evalCase rt rs ''LOWER''
      else if name = ''MID'' then evalMID rt rs
      else if name = ''LEN'' then evalLEN rt rs
      else if name = ''DATE'' then evalDATE rt rs
      else if name = ''TODAY'' then evalTODAY rt rs
      else if name = ''NOW'' then evalNOW rt rs
      else if name = ''DATEVALUE'' then evalDATEVALUE rt rs
      else if name = ''WEEKDAY'' then evalWEEKDAY rt rs
      else if name \<in> {''YEAR'', ''MONTH'', ''DAY''} then evalDatePart rt rs name
      else if name = ''DATEDIF'' then evalDATEDIF rt rs
      else Inl (EvalErr (''formula: unsupported function '' @ name)))"

fun Eval :: "runtime \<Rightarrow> goobj \<Rightarrow> node \<Rightarrow> ev" where
  "Eval rt env (NumberNode f) = Inr (VFloat f)"
| "Eval rt env (StringNode s) = Inr (VStr s)"
| "Eval rt env (BoolNode b) = Inr (VBool b)"
| "Eval rt env (RefNode x) = Inr (obj_get env x)"
| "Eval rt env (UnaryNode op n) = ebind (Eval rt env n) (evalUnary rt op)"
| "Eval rt env (BinaryNode op l r) =
     ebind (Eval rt env l) (\<lambda>a. ebind (Eval rt env r) (\<lambda>b.
       if op \<in> set compare_ops then ebind (evalCompare rt op a b) (\<lambda>c. Inr (VBool c))
       else if op = ''&'' then Inr (VStr (toString rt a @ toString rt b))
       else evalArithDecimal rt op a b))"
| "Eval rt env (CallNode name args) = evalCall rt name (map (Eval rt env) args)"

text \<open>\<open>EvalExpr\<close>; the empty expression parses to a nil node and evaluates to nil.\<close>

definition EvalExpr :: "runtime \<Rightarrow> string \<Rightarrow> goobj \<Rightarrow> ev" where
  "EvalExpr rt expr env =
     (case Parse rt expr of
        Inl e \<Rightarrow> Inl (EvalParse e)
      | Inr None \<Rightarrow> Inr VNil
      | Inr (Some n) \<Rightarrow> Eval rt env n)"

end
