(* ===== verification/Example_Runtime.thy ===== *)
theory Example_Runtime
  imports Numeric
begin

text \<open>
  A concrete runtime, used where a property is applied to an input: exact decimal arithmetic
  on \<^typ>\<open>dec\<close>, integers and decimals read from their digits, one time layout, and the lexer
  result of one expression. It satisfies the documented laws of the decimal package
  (\<open>example_rt_laws\<close>), so the hypothesis \<^const>\<open>decimal_laws\<close> is consistent.
\<close>

section \<open>Exact decimals\<close>

definition align :: "dec \<Rightarrow> int \<Rightarrow> int" where
  "align d e = coef d * 10 ^ nat (dexp d - e)"

definition x_add :: "dec \<Rightarrow> dec \<Rightarrow> dec" where
  "x_add a b = (let e = min (dexp a) (dexp b) in Dec (align a e + align b e) e)"

definition x_sub :: "dec \<Rightarrow> dec \<Rightarrow> dec" where
  "x_sub a b = (let e = min (dexp a) (dexp b) in Dec (align a e - align b e) e)"

definition x_cmp :: "dec \<Rightarrow> dec \<Rightarrow> int" where
  "x_cmp a b =
     (let e = min (dexp a) (dexp b); x = align a e; y = align b e in
      if x < y then -1 else if x = y then 0 else 1)"

text \<open>The exact decimal of a binary fraction.\<close>

definition x_of_float :: "f64 \<Rightarrow> dec option" where
  "x_of_float f =
     (case f of
        Fin q \<Rightarrow> (case quotient_of q of (n, d) \<Rightarrow>
          let k = bit_length (nat d) - 1 in Some (Dec (n * 5 ^ k) (- int k)))
      | _ \<Rightarrow> None)"

definition x_to_float :: "dec \<Rightarrow> f64" where
  "x_to_float d = Fin (dec_val d)"

text \<open>Rounding to a scale with an integer rounding function of numerator and divisor.\<close>

definition x_rescale :: "(int \<Rightarrow> int \<Rightarrow> int) \<Rightarrow> dec \<Rightarrow> int \<Rightarrow> dec" where
  "x_rescale r d s =
     (if - dexp d \<le> s then d else Dec (r (coef d) (10 ^ nat (- dexp d - s))) (- s))"

definition x_half_up :: "int \<Rightarrow> int \<Rightarrow> int" where
  "x_half_up n m = sgn n * ((2 * \<bar>n\<bar> + m) div (2 * m))"

definition x_half_even :: "int \<Rightarrow> int \<Rightarrow> int" where
  "x_half_even n m =
     (let q = n div m; r = n mod m in
      if 2 * r < m then q else if 2 * r > m then q + 1 else if even q then q else q + 1)"

definition digit_val :: "char \<Rightarrow> nat option" where
  "digit_val c = (let n = of_char c in if 48 \<le> n \<and> n \<le> (57::nat) then Some (n - 48) else None)"

fun x_digits :: "int \<Rightarrow> string \<Rightarrow> int option" where
  "x_digits acc [] = Some acc"
| "x_digits acc (c # s) = (case digit_val c of None \<Rightarrow> None | Some n \<Rightarrow> x_digits (acc * 10 + int n) s)"

definition x_int :: "string \<Rightarrow> int option" where
  "x_int s =
     (case s of
        [] \<Rightarrow> None
      | c # t \<Rightarrow> if c = CHR ''-'' then (if t = [] then None else map_option uminus (x_digits 0 t))
          else x_digits 0 s)"

definition x_div :: "dec \<Rightarrow> dec \<Rightarrow> dec" where
  "x_div a b =
     (let e = min (dexp a) (dexp b); x = align a e; y = align b e in
      Dec (x_half_up (sgn y * x * 10 ^ 16) \<bar>y\<bar>) (-16))"

definition example_rt :: runtime where
  "example_rt =
     \<lparr>rt_efp = (\<lambda>s. if s = ''1+2'' then
          [\<lparr>TValue = ''1'', TType = TOperand, TSubType = SNumber\<rparr>,
           \<lparr>TValue = ''+'', TType = TInfix, TSubType = SOther ''Math''\<rparr>,
           \<lparr>TValue = ''2'', TType = TOperand, TSubType = SNumber\<rparr>] else []),
      rt_parse_float = (\<lambda>s. map_option (\<lambda>i. Fin (of_int i)) (x_int s)),
      rt_format_float = (\<lambda>_. ''x''), rt_sprint_float = (\<lambda>_. ''x''), rt_sprint_float32 = (\<lambda>_. ''x''),
      rt_pow = (\<lambda>a b. case (a, b) of
          (Fin x, Fin y) \<Rightarrow>
            if x = 0 \<and> y < 0 then PInf else Fin (x powi (rat_trunc y))
        | _ \<Rightarrow> NaN),
      rt_dec_of_float = x_of_float, rt_dec_of_float32 = x_of_float,
      rt_dec_of_string = (\<lambda>s. map_option (\<lambda>i. Dec i 0) (x_int s)),
      rt_dec_of_int = (\<lambda>i. Dec i 0),
      rt_dec_add = x_add, rt_dec_sub = x_sub,
      rt_dec_mul = (\<lambda>a b. Dec (coef a * coef b) (dexp a + dexp b)),
      rt_dec_div = x_div,
      rt_dec_neg = (\<lambda>a. Dec (- coef a) (dexp a)), rt_dec_abs = (\<lambda>a. Dec \<bar>coef a\<bar> (dexp a)),
      rt_dec_cmp = x_cmp, rt_dec_is_zero = (\<lambda>a. coef a = 0),
      rt_dec_round = x_rescale x_half_up, rt_dec_round_bank = x_rescale x_half_even,
      rt_dec_round_ceil = x_rescale (\<lambda>n m. - ((- n) div m)), rt_dec_round_floor = x_rescale (div),
      rt_dec_truncate = x_rescale (\<lambda>n m. sgn n * (\<bar>n\<bar> div m)),
      rt_dec_int_part = (\<lambda>d. rat_trunc (dec_val d)),
      rt_dec_to_float = x_to_float,
      rt_dec_string = (\<lambda>d. itoa (coef d) @ ''e'' @ itoa (dexp d)),
      rt_dec_string_fixed = (\<lambda>d _. itoa (coef d) @ ''e'' @ itoa (dexp d)),
      rt_now = \<lparr>tsec = 1700000000, tnano = 0, tzone = ''Local''\<rparr>,
      rt_parse_time = (\<lambda>l s. if l = ''20060102'' \<and> length s = 8 \<and> x_int s \<noteq> None
        then map_option (\<lambda>n. \<lparr>tsec = n * 86400, tnano = 0, tzone = ''Local''\<rparr>) (x_int s) else None),
      rt_format_time = (\<lambda>l t. itoa (tsec t)), rt_sprint_time = (\<lambda>t. itoa (tsec t)),
      rt_zone_offset = (\<lambda>_ _. 0)\<rparr>"

section \<open>The laws hold\<close>

lemma shift_powi:
  fixes e f :: int
  assumes "e \<le> f"
  shows "10 ^ nat (f - e) * 10 powi e = (10 :: rat) powi f"
proof -
  have "(10 :: rat) powi f = 10 powi (int (nat (f - e)) + e)" using assms by simp
  also have "\<dots> = 10 powi int (nat (f - e)) * 10 powi e" by (rule power_int_add) simp
  finally show ?thesis by (simp only: power_int_of_nat)
qed

lemma dec_val_align: "e \<le> dexp d \<Longrightarrow> of_int (align d e) * 10 powi e = dec_val d"
  by (simp add: dec_val_def align_def shift_powi mult.assoc)

lemma align_less_iff:
  assumes "e \<le> dexp a" "e \<le> dexp b"
  shows "align a e < align b e \<longleftrightarrow> dec_val a < dec_val b"
    "align a e = align b e \<longleftrightarrow> dec_val a = dec_val b"
  unfolding dec_val_align [OF assms(1), symmetric] dec_val_align [OF assms(2), symmetric]
  by (simp_all add: zero_less_power_int)

lemma x_add_val: "dec_val (x_add a b) = dec_val a + dec_val b"
  using dec_val_align [of "min (dexp a) (dexp b)" a] dec_val_align [of "min (dexp a) (dexp b)" b]
  by (simp add: x_add_def Let_def dec_val_def [of "Dec _ _"] distrib_right)

lemma x_sub_val: "dec_val (x_sub a b) = dec_val a - dec_val b"
  using dec_val_align [of "min (dexp a) (dexp b)" a] dec_val_align [of "min (dexp a) (dexp b)" b]
  by (simp add: x_sub_def Let_def dec_val_def [of "Dec _ _"] left_diff_distrib)

lemma x_cmp_val:
  "x_cmp a b = (if dec_val a < dec_val b then -1 else if dec_val a = dec_val b then 0 else 1)"
  by (simp add: x_cmp_def Let_def align_less_iff)

lemma example_rt_laws: "decimal_laws example_rt"
  unfolding decimal_laws_def
proof (intro conjI allI)
  fix a b :: dec and i :: int and f :: f64
  show "dec_val (rt_dec_add example_rt a b) = dec_val a + dec_val b"
    by (simp add: example_rt_def x_add_val)
  show "dec_val (rt_dec_sub example_rt a b) = dec_val a - dec_val b"
    by (simp add: example_rt_def x_sub_val)
  show "dec_val (rt_dec_mul example_rt a b) = dec_val a * dec_val b"
    by (simp add: example_rt_def dec_val_def power_int_add)
  show "dec_val (rt_dec_neg example_rt a) = - dec_val a" by (simp add: example_rt_def dec_val_def)
  show "dec_val (rt_dec_abs example_rt a) = \<bar>dec_val a\<bar>"
    by (simp add: example_rt_def dec_val_def abs_mult)
  show "dec_val (rt_dec_of_int example_rt i) = of_int i" by (simp add: example_rt_def dec_val_def)
  show "rt_dec_is_zero example_rt a = (dec_val a = 0)" by (simp add: example_rt_def dec_val_def)
  show "rt_dec_cmp example_rt a b =
      (if dec_val a < dec_val b then - 1 else if dec_val a = dec_val b then 0 else 1)"
    by (simp add: example_rt_def x_cmp_val)
  show "rt_dec_of_float example_rt f = None \<longleftrightarrow> (\<forall>q. f \<noteq> Fin q)"
    by (cases f) (simp_all add: example_rt_def x_of_float_def Let_def split: prod.splits)
qed

end
