(* ===== verification/Formula_Laws.thy ===== *)
theory Formula_Laws
  imports Formula_Eval Example_Runtime
begin

text \<open>
  What the evaluator guarantees: results depend only on the referenced columns, comparisons
  are coherent, the aggregate functions compute what their names say on the numbers denoted,
  \<open>TRIM\<close> normalises spaces, and the date functions agree with the calendar.
\<close>

section \<open>Evaluation depends on the references only\<close>

lemma Eval_cong:
  "(\<forall>x \<in> set (walkRefs n). obj_get env x = obj_get env' x) \<Longrightarrow> Eval rt env n = Eval rt env' n"
proof (induction n)
  case (CallNode name args)
  then have "map (Eval rt env) args = map (Eval rt env') args" by auto
  then show ?case by (simp only: Eval.simps)
qed simp_all

section \<open>Comparison\<close>

lemma six_way_not: "six_way ''<>'' e l g = map_option Not (six_way ''='' e l g)"
  by (simp add: six_way_def)

lemma six_way_swap:
  "six_way ''>'' e l g = six_way ''<'' e g l" "six_way ''>='' e l g = six_way ''<='' e g l"
  by (simp_all add: six_way_def)

lemma f64_eq_sym: "f64_eq a b = f64_eq b a"
  by (auto simp: f64_eq_def)

definition cmp_negated :: "everr + bool \<Rightarrow> everr + bool" where
  "cmp_negated r = map_sum id Not r"

lemma cmp_negated_simps [simp]: "cmp_negated (Inl e) = Inl e" "cmp_negated (Inr b) = Inr (\<not> b)"
  by (simp_all add: cmp_negated_def)

lemmas compare_defs = evalCompare_def compareNumber_def compareFloat_def compareText_def
  evalCompareDecimal_def Let_def

lemma evalCompare_ne: "evalCompare rt ''<>'' l r = cmp_negated (evalCompare rt ''='' l r)"
proof -
  have t: "compareText rt ''<>'' l r = cmp_negated (compareText rt ''='' l r)"
    by (simp add: compareText_def six_way_def)
  have f: "compareFloat rt ''<>'' l r = cmp_negated (compareFloat rt ''='' l r)"
    by (simp add: compareFloat_def six_way_def t split: option.splits)
  have d: "evalCompareDecimal rt ''<>'' l r = cmp_negated (evalCompareDecimal rt ''='' l r)"
    if "toDecimal rt l = Inr (Some a)" "toDecimal rt r = Inr (Some b)" for a b
    using that by (simp add: evalCompareDecimal_def six_way_def Let_def)
  have n: "compareNumber rt ''<>'' l r = cmp_negated (compareNumber rt ''='' l r)"
    by (cases "toDecimal rt l"; cases "toDecimal rt r")
      (auto simp: compareNumber_def f d split: option.splits)
  show ?thesis by (simp add: evalCompare_def six_way_def n Let_def split: option.splits)
qed

text \<open>The operand of a comparison converts to a decimal, or to none, without a panic.\<close>

definition no_panic :: "runtime \<Rightarrow> goany \<Rightarrow> bool" where
  "no_panic rt v = is_ok (FromAny rt v)"

lemma no_panicD: "no_panic rt v \<Longrightarrow> \<exists>d. toDecimal rt v = Inr d"
  by (auto simp: no_panic_def is_ok_def toDecimal_def split: sum.splits)

definition swap_op :: "string \<Rightarrow> string" where
  "swap_op op = (if op = ''<'' then ''>'' else if op = ''>'' then ''<'' else if op = ''<='' then ''>=''
     else if op = ''>='' then ''<='' else op)"

lemma six_way_swap_op: "op \<in> set compare_ops \<Longrightarrow> six_way (swap_op op) e l g = six_way op e g l"
  by (auto simp: six_way_def swap_op_def compare_ops_def)

lemma six_way_not_None: "op \<in> set compare_ops \<Longrightarrow> six_way op e l g \<noteq> None"
  by (auto simp: six_way_def compare_ops_def)

lemma swap_op_mem: "op \<in> set compare_ops \<Longrightarrow> swap_op op \<in> set compare_ops"
  by (auto simp: swap_op_def compare_ops_def)

lemma evalCompare_swap:
  assumes laws: "decimal_laws rt" and op: "op \<in> set compare_ops"
    and l: "no_panic rt l" and r: "no_panic rt r"
  shows "evalCompare rt (swap_op op) r l = evalCompare rt op l r"
proof -
  note sw = six_way_swap_op [OF op] and ne = six_way_not_None [OF op]
  obtain a where a: "toDecimal rt l = Inr a" using no_panicD [OF l] by blast
  obtain b where b: "toDecimal rt r = Inr b" using no_panicD [OF r] by blast
  have t: "compareText rt (swap_op op) r l = compareText rt op l r"
    unfolding compareText_def Let_def sw eq_commute [of "toString rt r" "toString rt l"]
    by (auto simp: ne split: option.splits)
  have f: "compareFloat rt (swap_op op) r l = compareFloat rt op l r"
    by (auto simp: compareFloat_def t sw f64_eq_sym split: option.splits)
  have cmp: "Compare rt y x = - Compare rt x y" for x y
    using decimal_lawsD(8) [OF laws] by (simp add: Compare_def)
  have d: "evalCompareDecimal rt (swap_op op) r l = evalCompareDecimal rt op l r"
    if "a = Some x" "b = Some y" for x y
    using that a b
    by (auto simp: evalCompareDecimal_def sw ne Let_def cmp [of x y] split: option.splits)
  have n: "compareNumber rt (swap_op op) r l = compareNumber rt op l r"
    using f d by (auto simp: compareNumber_def a b split: option.splits)
  have i: "(instant rt y = instant rt x) = (instant rt x = instant rt y)" for x y by (rule eq_commute)
  show ?thesis
  proof (cases "asTime rt l = None \<or> asTime rt r = None")
    case True
    then show ?thesis by (auto simp: evalCompare_def n split: option.splits)
  next
    case False
    then obtain x y where xy: "asTime rt l = Some x" "asTime rt r = Some y" by auto
    show ?thesis
      unfolding evalCompare_def xy prod.case option.case Let_def sw n i [of x y] ..
  qed
qed

section \<open>Aggregates\<close>

text \<open>The numbers a list of values denotes, when each converts to a decimal.\<close>

definition denotes :: "runtime \<Rightarrow> goany list \<Rightarrow> dec list \<Rightarrow> bool" where
  "denotes rt vs ds = list_all2 (\<lambda>v d. FromAny rt v = Inr (Some d)) vs ds"

lemma need_dec_ok [simp]: "FromAny rt v = Inr (Some d) \<Longrightarrow> need_dec rt msg v = Inr d"
  by (simp add: need_dec_def toDecimal_def)

lemma sum_loop_val:
  assumes laws: "decimal_laws rt" and "denotes rt vs ds"
  shows "\<exists>s. sum_loop rt acc (map Inr vs) = Inr s \<and> dec_val s = dec_val acc + sum_list (map dec_val ds)"
  using assms(2)
proof (induction vs arbitrary: ds acc)
  case (Cons v vs)
  then obtain d ds' where d: "ds = d # ds'" "FromAny rt v = Inr (Some d)" "denotes rt vs ds'"
    by (auto simp: denotes_def list_all2_Cons1)
  from Cons.IH [OF d(3), of "rt_dec_add rt acc d"] obtain s where
    "sum_loop rt (rt_dec_add rt acc d) (map Inr vs) = Inr s"
    "dec_val s = dec_val acc + dec_val d + sum_list (map dec_val ds')"
    using decimal_lawsD(1) [OF laws] by auto
  with d show ?case by auto
qed (simp add: denotes_def)

lemma minmax_loop_val:
  assumes laws: "decimal_laws rt" and "denotes rt vs ds"
  shows "\<exists>m. minmax_loop rt mn (Some b) (map Inr vs) = Inr (Some m) \<and> m \<in> set (b # ds) \<and>
    (\<forall>d \<in> set (b # ds). if mn then dec_val m \<le> dec_val d else dec_val d \<le> dec_val m)"
  using assms(2)
proof (induction vs arbitrary: ds b)
  case Nil
  then show ?case by (simp add: denotes_def)
next
  case (Cons v vs)
  then obtain d ds' where d: "ds = d # ds'" "FromAny rt v = Inr (Some d)" "denotes rt vs ds'"
    by (auto simp: denotes_def list_all2_Cons1)
  define b' where "b' = (if mn then (if dec_val d < dec_val b then d else b)
    else (if dec_val b < dec_val d then d else b))"
  have b': "b' \<in> {b, d}" "if mn then dec_val b' \<le> dec_val b \<and> dec_val b' \<le> dec_val d
      else dec_val b \<le> dec_val b' \<and> dec_val d \<le> dec_val b'"
    by (auto simp: b'_def)
  have step: "minmax_loop rt mn (Some b) (map Inr (v # vs)) = minmax_loop rt mn (Some b') (map Inr vs)"
    using d(2) by (simp add: b'_def Compare_def decimal_lawsD(8) [OF laws] Let_def)
  from Cons.IH [OF d(3), of b'] obtain m where
    m: "minmax_loop rt mn (Some b') (map Inr vs) = Inr (Some m)" "m \<in> set (b' # ds')"
      "\<forall>x \<in> set (b' # ds'). if mn then dec_val m \<le> dec_val x else dec_val x \<le> dec_val m"
    by blast
  from m(2) b'(1) have "m \<in> set (b # ds)" using d(1) by auto
  moreover have "\<forall>x \<in> set (b # ds). if mn then dec_val m \<le> dec_val x else dec_val x \<le> dec_val m"
    using m(3) b'(2) d(1) by (cases mn) force+
  ultimately show ?case using step m(1) by auto
qed

section \<open>AND and OR\<close>

lemma and_loop_values: "and_loop rt (map Inr vs) = Inr (VBool (list_all (truthy rt) vs))"
  by (induction vs) auto

lemma or_loop_values: "or_loop rt (map Inr vs) = Inr (VBool (list_ex (truthy rt) vs))"
  by (induction vs) auto

lemma and_loop_short:
  "list_all (truthy rt) vs \<Longrightarrow> \<not> truthy rt v \<Longrightarrow> and_loop rt (map Inr vs @ Inr v # rs) = Inr (VBool False)"
  by (induction vs) auto

lemma or_loop_short:
  "list_all (\<lambda>v. \<not> truthy rt v) vs \<Longrightarrow> truthy rt v \<Longrightarrow> or_loop rt (map Inr vs @ Inr v # rs) = Inr (VBool True)"
  by (induction vs) auto

section \<open>TRIM\<close>


lemma trim_loop_words:
  defines "sp \<equiv> \<lambda>c. c = CHR '' ''"
  shows "trim_loop False False s = join '' '' (words_by sp s)"
    and "trim_loop True True s = concat (map ((#) CHR '' '') (words_by sp s))"
    and "trim_loop False True s =
      takeWhile (\<lambda>c. \<not> sp c) s @ concat (map ((#) CHR '' '') (words_by sp (dropWhile (\<lambda>c. \<not> sp c) s)))"
proof (induction s)
  case (Cons c s)
  {
    case 1
    show ?case using Cons by (simp add: words_by_Cons sp_def join_space)
  next
    case 2
    show ?case using Cons by (simp add: words_by_Cons sp_def)
  next
    case 3
    show ?case using Cons by (simp add: words_by_Cons sp_def)
  }
qed simp_all

lemma excelTrim_words: "excelTrim s = join '' '' (words_by (\<lambda>c. c = CHR '' '') s)"
  by (simp add: excelTrim_def trim_loop_words(1))

section \<open>Dates\<close>

lemma truncInt_VInt: "\<bar>i\<bar> < 2 ^ 53 \<Longrightarrow> truncInt rt (VInt i) = Some i"
  by (simp add: truncInt_def f64_of_int_exact int_of_float_def rat_trunc_def Let_def floor_minus) linarith

lemma date_parts:
  assumes "valid_date y m d"
  shows "Date_of (time_Date y m d loc) = (y, m, d)" "Year (time_Date y m d loc) = y"
    "Month (time_Date y m d loc) = m" "Day (time_Date y m d loc) = d"
  using civil_roundtrip [OF assms] by (simp_all add: Year_def Month_def Day_def)

text \<open>A difference of at most 106751 days (292 years) does not saturate \<open>time.Duration\<close>.\<close>

lemma daysBetween_exact:
  assumes s: "valid_date y m d" and e: "valid_date y' m' d'"
    and D: "D = days_from_civil y' m' d' - days_from_civil y m d" "\<bar>D\<bar> \<le> 106751"
  shows "daysBetween (time_Date y m d loc) (time_Date y' m' d' loc') = D"
proof -
  have diff: "days_from_civil y' m' d' * day_ns - days_from_civil y m d * day_ns = D * day_ns"
    by (simp add: D left_diff_distrib)
  have "\<bar>D * day_ns\<bar> \<le> 106751 * day_ns"
    using D(2) by (simp add: day_ns_def abs_mult)
  then have "duration_sub (days_from_civil y' m' d' * day_ns) (days_from_civil y m d * day_ns) = D * day_ns"
    unfolding duration_sub_def diff by (simp add: day_ns_def)
  moreover have "trunc_div (D * day_ns) day_ns = D"
    by (simp add: trunc_div_def day_ns_def abs_mult sgn_mult mult_sgn_abs)
  ultimately show ?thesis by (simp add: daysBetween_def date_parts [OF s] date_parts [OF e] Let_def)
qed

section \<open>Properties\<close>

text \<open>
  C7. A formula's value is determined by the values of the columns it references: two rows
  that agree on every reference of the tree evaluate alike, errors and panics included.
\<close>

theorem Eval_refs:
  assumes "\<forall>x \<in> set (walkRefs n). obj_get env x = obj_get env' x"
  shows "Eval rt env n = Eval rt env' n"
  using assms by (rule Eval_cong)

theorem Eval_refs_witness:
  "Eval example_rt [(''a'', VInt 1), (''b'', VInt 2)] (UnaryNode ''-'' (RefNode ''a'')) =
     Eval example_rt [(''b'', VStr ''x''), (''a'', VInt 1)] (UnaryNode ''-'' (RefNode ''a''))"
  by (rule Eval_refs) (simp add: obj_get_def)

text \<open>
  C9. Comparison is coherent whatever the types of the operands: \<open><>\<close> is the negation of \<open>=\<close>,
  and exchanging the operands exchanges \<open><\<close> with \<open>>\<close> and \<open><=\<close> with \<open>>=\<close>, as long as neither
  operand makes the decimal conversion panic.
\<close>

theorem evalCompare_coherent:
  assumes "decimal_laws rt" "op \<in> set compare_ops" "no_panic rt l" "no_panic rt r"
  shows "evalCompare rt (swap_op op) r l = evalCompare rt op l r \<and>
    evalCompare rt ''<>'' l r = cmp_negated (evalCompare rt ''='' l r)"
  using evalCompare_swap [OF assms] evalCompare_ne by blast

theorem evalCompare_coherent_witness:
  "evalCompare example_rt ''>'' (VInt 3) (VStr ''2'') = evalCompare example_rt ''<'' (VStr ''2'') (VInt 3)"
proof -
  have "swap_op ''<'' = ''>''" "no_panic example_rt (VStr ''2'')" "no_panic example_rt (VInt 3)"
    "''<'' \<in> set compare_ops"
    by (simp_all add: swap_op_def no_panic_def Let_def compare_ops_def)
  then show ?thesis
    using evalCompare_coherent [OF example_rt_laws, of "''<''" "VStr ''2''" "VInt 3"] by simp
qed

text \<open>
  C8. \<open>SUM\<close> of values that denote numbers is the result of a decimal whose value is their exact
  sum; \<open>MIN\<close> and \<open>MAX\<close> return one of the arguments, and none of the others lies beyond it.
\<close>

theorem aggregates_exact:
  assumes laws: "decimal_laws rt" and v: "denotes rt (v # vs) (d # ds)"
  shows "(\<exists>s. evalCall rt ''SUM'' (map Inr (v # vs)) = Inr (decimalToResult rt s) \<and>
            dec_val s = sum_list (map dec_val (d # ds))) \<and>
    (\<exists>m \<in> set (d # ds). evalCall rt ''MIN'' (map Inr (v # vs)) = Inr (decimalToResult rt m) \<and>
            (\<forall>x \<in> set (d # ds). dec_val m \<le> dec_val x)) \<and>
    (\<exists>m \<in> set (d # ds). evalCall rt ''MAX'' (map Inr (v # vs)) = Inr (decimalToResult rt m) \<and>
            (\<forall>x \<in> set (d # ds). dec_val x \<le> dec_val m))"
proof (intro conjI)
  show "\<exists>s. evalCall rt ''SUM'' (map Inr (v # vs)) = Inr (decimalToResult rt s) \<and>
      dec_val s = sum_list (map dec_val (d # ds))"
    using sum_loop_val [OF laws v, of "Dec 0 0"]
    by (auto simp: evalCall_def evalSumDecimal_def dec_val_def [of "Dec 0 0"])
  from v have v1: "FromAny rt v = Inr (Some d)" and vs: "denotes rt vs ds" by (auto simp: denotes_def)
  show "\<exists>m \<in> set (d # ds). evalCall rt ''MIN'' (map Inr (v # vs)) = Inr (decimalToResult rt m) \<and>
      (\<forall>x \<in> set (d # ds). dec_val m \<le> dec_val x)"
    using minmax_loop_val [OF laws vs, of True d] v1
    by (auto simp: evalCall_def evalMinMaxDecimal_def)
  show "\<exists>m \<in> set (d # ds). evalCall rt ''MAX'' (map Inr (v # vs)) = Inr (decimalToResult rt m) \<and>
      (\<forall>x \<in> set (d # ds). dec_val x \<le> dec_val m)"
    using minmax_loop_val [OF laws vs, of False d] v1
    by (auto simp: evalCall_def evalMinMaxDecimal_def)
qed

theorem aggregates_exact_witness:
  "\<exists>s. evalCall example_rt ''SUM'' [Inr (VInt 2), Inr (VStr ''3'')] = Inr (decimalToResult example_rt s) \<and>
     dec_val s = 5"
proof -
  have "denotes example_rt [VInt 2, VStr ''3''] [Dec 2 0, Dec 3 0]"
    unfolding denotes_def by code_simp
  from aggregates_exact [OF example_rt_laws this] show ?thesis by (auto simp: dec_val_def)
qed

text \<open>
  C10. \<open>IF\<close> evaluates the branch its condition selects and ignores the other, \<open>AND\<close> stops at the
  first false argument and \<open>OR\<close> at the first true one: an error in an argument that is not
  reached does not surface.
\<close>

theorem lazy_logic:
  assumes t: "list_all (truthy rt) ts" and f: "list_all (\<lambda>v. \<not> truthy rt v) fs"
    and a: "truthy rt a" and b: "\<not> truthy rt b"
  shows "evalCall rt ''IF'' [Inr a, x, y] = x \<and> evalCall rt ''IF'' [Inr b, x, y] = y \<and>
    evalCall rt ''IF'' [Inr b, x] = Inr (VBool False) \<and>
    evalCall rt ''AND'' (map Inr ts @ Inr b # rest) = Inr (VBool False) \<and>
    evalCall rt ''OR'' (map Inr fs @ Inr a # rest) = Inr (VBool True) \<and>
    evalCall rt ''AND'' (map Inr ts) = Inr (VBool True) \<and>
    evalCall rt ''OR'' (map Inr fs) = Inr (VBool False)"
  using and_loop_short [OF t b] or_loop_short [OF f a] t f a b
  by (simp add: evalCall_def evalIF_def and_loop_values or_loop_values list_all_iff list_ex_iff)

theorem lazy_logic_witness:
  "evalCall example_rt ''AND'' [Inr (VStr ''x''), Inr VNil, Inl (EvalErr ''boom'')] = Inr (VBool False)"
  using lazy_logic [of example_rt "[VStr ''x'']" "[]" "VBool True" VNil _ _ "[Inl (EvalErr ''boom'')]"]
  by (simp add: truthy_def)

text \<open>
  \<open>TRIM\<close> yields the words of the text separated by single spaces, with none at the ends.
\<close>

lemma TRIM_words:
  "evalCall rt ''TRIM'' [Inr v] = Inr (VStr (join '' '' (words_by (\<lambda>c. c = CHR '' '') (toString rt v))))"
  by (simp add: evalCall_def evalTRIM_def arg1_def excelTrim_words)



text \<open>
  C12. \<open>DATEDIF\<close> on valid dates: the complete months are twelve per complete year plus the
  remaining months, which are between 0 and 11, and the days are the distance of the dates
  as long as they are at most 106751 (the range of \<open>time.Duration\<close>).
\<close>

theorem datedif_parts:
  assumes s: "valid_date y m d" and e: "valid_date y' m' d'"
    and near: "\<bar>days_from_civil y' m' d' - days_from_civil y m d\<bar> \<le> 106751"
  shows "\<exists>Y YM. datedif (time_Date y m d l) (time_Date y' m' d' l') ''Y'' = Inr Y \<and>
      datedif (time_Date y m d l) (time_Date y' m' d' l') ''YM'' = Inr YM \<and> 0 \<le> YM \<and> YM \<le> 11 \<and>
      datedif (time_Date y m d l) (time_Date y' m' d' l') ''M'' = Inr (12 * Y + YM) \<and>
      datedif (time_Date y m d l) (time_Date y' m' d' l') ''D'' =
        Inr (days_from_civil y' m' d' - days_from_civil y m d)"
proof -
  from s e have "1 \<le> m" "m \<le> 12" "1 \<le> m'" "m' \<le> 12" by (auto simp: valid_date_def)
  then show ?thesis
    using daysBetween_exact [OF s e refl near]
    by (auto simp: datedif_def civil_roundtrip [OF s] civil_roundtrip [OF e] Let_def)
qed

theorem datedif_parts_witness:
  "datedif (time_Date 2023 1 31 ''UTC'') (time_Date 2024 3 1 ''UTC'') ''D'' = Inr 395"
proof -
  have v: "valid_date 2023 1 31" "valid_date 2024 3 1" by code_simp+
  have d: "days_from_civil 2024 3 1 - days_from_civil 2023 1 31 = 395" by code_simp
  from datedif_parts [OF v, of "''UTC''" "''UTC''"] show ?thesis by (auto simp: d)
qed

text \<open>
  The \<open>MD\<close> unit of \<open>DATEDIF\<close>, days ignoring months and years, can be negative: from 31
  January to 1 March 2023 it is \<open>-2\<close>, since only the length of the one preceding month is added.
\<close>

lemma datedif_MD_negative:
  "datedif (time_Date 2023 1 31 ''UTC'') (time_Date 2023 3 1 ''UTC'') ''MD'' = Inr (-2)"
  by code_simp

end
