(* ===== verification/Column_Types.thy ===== *)
theory Column_Types
  imports Numeric
begin

text \<open>
  Column types (\<open>internal/columntype\<close>): the built-in types and their registry, the documents
  that define tenant column types and their validation, and the number specification of a type
  (\<open>internal/numeric/spec.go\<close>). Record fields carry a prefix per Go struct: \<open>pt_\<close> for
  \<open>PgTypeEntry\<close>, \<open>ty_\<close> for \<open>Type\<close>, \<open>cs_\<close> for \<open>ColumnTypeSpec\<close>, \<open>ct_\<close> for \<open>ColumnType\<close>. The
  error messages are those of the code without the formatted arguments.
\<close>

section \<open>Built-in types\<close>

record modifier =
  md_Name :: string
  md_Type :: string
  md_Default :: goany

record pg_type_entry =
  pt_ID :: string
  pt_Name :: string
  pt_PgType :: string
  pt_Category :: string
  pt_Modifiers :: "modifier list"
  pt_Kind :: string

definition entry :: "string \<Rightarrow> string \<Rightarrow> string \<Rightarrow> string \<Rightarrow> modifier list \<Rightarrow> pg_type_entry" where
  "entry i pg cat kind ms =
     \<lparr>pt_ID = i, pt_Name = i, pt_PgType = pg, pt_Category = cat, pt_Modifiers = ms, pt_Kind = kind\<rparr>"

definition canonicalPgTypes :: "pg_type_entry list" where
  "canonicalPgTypes =
     [entry ''text'' ''text'' ''scalar'' [] [],
      entry ''number'' ''numeric'' ''scalar'' []
        [\<lparr>md_Name = ''precision'', md_Type = ''integer'', md_Default = VInt 20\<rparr>,
         \<lparr>md_Name = ''scale'', md_Type = ''integer'', md_Default = VInt 6\<rparr>,
         \<lparr>md_Name = ''financialMode'', md_Type = ''boolean'', md_Default = VBool True\<rparr>,
         \<lparr>md_Name = ''roundingMode'', md_Type = ''string'', md_Default = VStr ''half_up''\<rparr>],
      entry ''datetime'' ''timestamptz'' ''scalar'' [] [],
      entry ''boolean'' ''boolean'' ''scalar'' [] [],
      entry ''jsonb'' ''jsonb'' ''scalar'' [] [],
      entry ''formula'' [] ''virtual'' ''formula'' [],
      entry ''link'' [] ''virtual'' ''link'' [],
      entry ''lookup'' [] ''virtual'' ''lookup'' [],
      entry ''rollup'' [] ''virtual'' ''rollup'' []]"

text \<open>The table \<open>init\<close> builds; an entry with an empty name is named after its id.\<close>

definition pgTypeByID :: "(string \<times> pg_type_entry) list" where
  "pgTypeByID =
     foldl (\<lambda>m t. let t' = (if pt_Name t = [] then t\<lparr>pt_Name := pt_ID t\<rparr> else t) in map_put (pt_ID t') t' m)
       [] canonicalPgTypes"

definition ListPgTypes :: "pg_type_entry list" where
  "ListPgTypes = canonicalPgTypes"

definition GetPgType :: "string \<Rightarrow> pg_type_entry option" where
  "GetPgType i = map_of pgTypeByID i"

definition CanonicalID :: "string \<Rightarrow> string" where
  "CanonicalID i = (if map_has i pgTypeByID then i else i)"

definition IsLinkType :: "string \<Rightarrow> bool" where
  "IsLinkType typeID =
     (if typeID = ''link'' then True
      else (case GetPgType typeID of None \<Rightarrow> False | Some t \<Rightarrow> pt_Kind t = ''link''))"

record col_type =
  ty_ID :: string
  ty_Name :: string
  ty_PgType :: string
  ty_Kind :: string
  ty_Config :: goobj

fun add_modifiers :: "modifier list \<Rightarrow> goobj \<Rightarrow> goobj" where
  "add_modifiers [] cfg = cfg"
| "add_modifiers (m # ms) cfg =
     add_modifiers ms
       (if md_Default m = VNil then cfg
        else if md_Name m \<in> {''precision'', ''scale'', ''financialMode'', ''roundingMode''}
        then map_put (md_Name m) (md_Default m) cfg else cfg)"

definition fromPgTypeEntry :: "pg_type_entry \<Rightarrow> col_type" where
  "fromPgTypeEntry pt =
     \<lparr>ty_ID = pt_ID pt, ty_Name = pt_Name pt, ty_PgType = pt_PgType pt, ty_Kind = pt_Kind pt,
      ty_Config = add_modifiers (pt_Modifiers pt)
        (if pt_Kind pt \<noteq> [] then [(''kind'', VStr (pt_Kind pt))] else [])\<rparr>"

definition register :: "col_type \<Rightarrow> (string \<times> col_type) list \<Rightarrow> (string \<times> col_type) list" where
  "register t reg =
     (let t1 = (if ty_Name t = [] then t\<lparr>ty_Name := ty_ID t\<rparr> else t);
          t2 = (if ty_Kind t1 \<noteq> [] then t1\<lparr>ty_Config := map_put ''kind'' (VStr (ty_Kind t1)) (ty_Config t1)\<rparr>
                else t1)
      in map_put (ty_ID t2) t2 reg)"

definition registry :: "(string \<times> col_type) list" where
  "registry = foldl (\<lambda>reg pt. register (fromPgTypeEntry pt) reg) [] ListPgTypes"

definition Get :: "string \<Rightarrow> col_type option" where
  "Get i = map_of registry i"

definition Resolve :: "string \<Rightarrow> string + col_type" where
  "Resolve i = (case Get i of None \<Rightarrow> Inl ''unknown column type'' | Some t \<Rightarrow> Inr t)"

definition ListTypes :: "col_type list" where
  "ListTypes = sort_key ty_Name (map snd registry)"

definition Kind :: "string \<Rightarrow> string" where
  "Kind i = (case Get i of Some t \<Rightarrow> ty_Kind t | None \<Rightarrow> [])"

definition IsBuiltIn :: "string \<Rightarrow> bool" where
  "IsBuiltIn i = map_has i registry"

definition IsVirtualKind :: "string \<Rightarrow> bool" where
  "IsVirtualKind kind = (kind \<in> {''formula'', ''link'', ''lookup'', ''rollup''})"

definition IsVirtual :: "string \<Rightarrow> bool" where
  "IsVirtual i = IsVirtualKind (Kind i)"

definition PgType :: "string \<Rightarrow> string" where
  "PgType i = (if IsVirtual i then [] else case Get i of Some t \<Rightarrow> ty_PgType t | None \<Rightarrow> [])"

definition Config :: "string \<Rightarrow> goobj" where
  "Config i = (case Get i of None \<Rightarrow> [] | Some t \<Rightarrow> ty_Config t)"

section \<open>Tenant column types\<close>

definition APIVersion :: string where "APIVersion = ''typespec.lowcode/v1''"
definition KindColumnType :: string where "KindColumnType = ''ColumnType''"

record check_spec =
  ck_Name :: string
  ck_Expr :: string

record column_type_spec =
  cs_PgType :: string
  cs_Array :: bool
  cs_Precision :: "int option"
  cs_Scale :: "int option"
  cs_FinancialMode :: "bool option"
  cs_RoundingMode :: string
  cs_NotNull :: bool
  cs_Default :: "string option"
  cs_Checks :: "check_spec list"

record column_type =
  ct_APIVersion :: string
  ct_Kind :: string
  ct_Name :: string
  ct_Label :: string
  ct_Spec :: column_type_spec

record type_catalog =
  cat_APIVersion :: string
  cat_Kind :: string
  cat_ColumnTypes :: "column_type list"

definition lower_char :: "char \<Rightarrow> bool" where
  "lower_char c = (CHR ''a'' \<le> c \<and> c \<le> CHR ''z'')"

definition name_char :: "char \<Rightarrow> bool" where
  "name_char c = (lower_char c \<or> CHR ''0'' \<le> c \<and> c \<le> CHR ''9'' \<or> c = CHR ''_'')"

text \<open>\<open>^[a-z][a-z0-9_]{0,62}$\<close>, the pattern of \<open>columnTypeNameRe\<close> and \<open>checkNameRe\<close>.\<close>

definition type_name_ok :: "string \<Rightarrow> bool" where
  "type_name_ok s = (s \<noteq> [] \<and> lower_char (hd s) \<and> list_all name_char (tl s) \<and> length s \<le> 63)"

definition columnTypeBasePgTypes :: "string list" where
  "columnTypeBasePgTypes = [''text'', ''number'', ''datetime'', ''boolean'', ''jsonb'']"

definition NormalizeColumnTypePgType :: "string \<Rightarrow> string option" where
  "NormalizeColumnTypePgType pg =
     (let t = trim_space pg in if t \<in> set columnTypeBasePgTypes then Some t else None)"

definition FormatNumericType :: "int option \<Rightarrow> int option \<Rightarrow> string" where
  "FormatNumericType precision scale =
     (case precision of
        None \<Rightarrow> ''numeric''
      | Some p \<Rightarrow> ''numeric('' @ itoa p @ '','' @ itoa (case scale of None \<Rightarrow> 0 | Some s \<Rightarrow> s) @ '')'')"

definition ResolveUnderlyingPgType :: "string \<Rightarrow> int option \<Rightarrow> int option \<Rightarrow> string + string" where
  "ResolveUnderlyingPgType pg0 precision scale =
     (let pg = trim_space pg0 in
      if pg = [] then Inl ''pgType is empty''
      else if contains pg '' '' \<or> has_suffix pg ''[]'' \<or> has_prefix pg ''numeric('' then Inr pg
      else (case GetPgType pg of
          None \<Rightarrow> Inl ''unknown pgType''
        | Some bt \<Rightarrow>
            if pt_ID bt = ''number'' \<and> (precision \<noteq> None \<or> scale \<noteq> None)
            then Inr (FormatNumericType precision scale)
            else if pt_PgType bt = [] then Inl ''pgType is virtual and cannot back a columnType''
            else Inr (pt_PgType bt)))"

definition EffectiveColumnTypePgType :: "column_type_spec \<Rightarrow> string + string" where
  "EffectiveColumnTypePgType spec =
     (let pg = trim_space (cs_PgType spec);
          norm = NormalizeColumnTypePgType pg
      in if norm = None \<and> pg \<noteq> [] then Inl ''spec.pgType must be one of text, number, datetime, boolean, jsonb''
         else
           let pg' = (case norm of Some c \<Rightarrow> c | None \<Rightarrow> pg) in
           (case ResolveUnderlyingPgType pg' (cs_Precision spec) (cs_Scale spec) of
              Inl e \<Rightarrow> Inl e
            | Inr u \<Rightarrow>
                if \<not> cs_Array spec then Inr u
                else if has_suffix (to_lower (trim_space u)) ''[]'' then Inr u
                else Inr (u @ ''[]'')))"

definition validateRoundingMode :: "string \<Rightarrow> string + string" where
  "validateRoundingMode s =
     (if to_lower (trim_space s) \<in> {''half_up'', ''half_even'', ''ceil'', ''floor'', ''truncate''} then Inr s
      else Inl ''spec.roundingMode must be half_up, half_even, ceil, floor, or truncate'')"

fun validate_checks :: "check_spec list \<Rightarrow> string + unit" where
  "validate_checks [] = Inr ()"
| "validate_checks (c # cs) =
     (if trim_space (ck_Expr c) = [] then Inl ''spec.checks.expr is required''
      else if ck_Name c \<noteq> [] \<and> \<not> type_name_ok (ck_Name c) then Inl ''spec.checks.name invalid''
      else validate_checks cs)"

definition ValidateColumnTypeSpec :: "column_type_spec \<Rightarrow> string + unit" where
  "ValidateColumnTypeSpec spec =
     (let pg = trim_space (cs_PgType spec) in
      if pg = [] then Inl ''spec.pgType is required''
      else (case NormalizeColumnTypePgType pg of
          None \<Rightarrow> Inl ''spec.pgType must be one of text, number, datetime, boolean, jsonb''
        | Some canon \<Rightarrow>
            (case ResolveUnderlyingPgType canon (cs_Precision spec) (cs_Scale spec) of
               Inl e \<Rightarrow> Inl e
             | Inr underlying \<Rightarrow>
                 if cs_Array spec \<and> has_suffix (to_lower (trim_space underlying)) ''[]''
                 then Inl ''spec.pgType is already an array; omit spec.array''
                 else if (case cs_Default spec of None \<Rightarrow> False | Some d \<Rightarrow> trim_space d = [])
                 then Inl ''spec.default must not be empty when set''
                 else if cs_RoundingMode spec \<noteq> [] \<and> \<not> is_ok (validateRoundingMode (cs_RoundingMode spec))
                 then Inl ''spec.roundingMode must be half_up, half_even, ceil, floor, or truncate''
                 else validate_checks (cs_Checks spec))))"

definition ValidateColumnType :: "column_type \<Rightarrow> string + unit" where
  "ValidateColumnType t =
     (if ct_APIVersion t \<noteq> [] \<and> ct_APIVersion t \<noteq> APIVersion then Inl ''unsupported apiVersion''
      else if ct_Kind t \<noteq> [] \<and> ct_Kind t \<noteq> KindColumnType then Inl ''unsupported kind''
      else let name = trim_space (ct_Name t) in
        if name = [] then Inl ''metadata.name is required''
        else if \<not> type_name_ok name then Inl ''metadata.name must match''
        else if GetPgType name \<noteq> None then Inl ''metadata.name conflicts with built-in pgType''
        else ValidateColumnTypeSpec (ct_Spec t))"

fun validate_types :: "string set \<Rightarrow> column_type list \<Rightarrow> string + unit" where
  "validate_types seen [] = Inr ()"
| "validate_types seen (t # ts) =
     (case ValidateColumnType t of
        Inl e \<Rightarrow> Inl (''columnTypes: '' @ e)
      | Inr _ \<Rightarrow>
          if ct_Name t \<in> seen then Inl ''duplicate columnType name''
          else validate_types (insert (ct_Name t) seen) ts)"

definition ValidateTypeCatalog :: "type_catalog \<Rightarrow> string + unit" where
  "ValidateTypeCatalog c =
     (if cat_APIVersion c \<noteq> [] \<and> cat_APIVersion c \<noteq> APIVersion then Inl ''unsupported apiVersion''
      else validate_types {} (cat_ColumnTypes c))"

definition NormalizeColumnType :: "column_type \<Rightarrow> column_type" where
  "NormalizeColumnType t =
     (let name = trim_space (ct_Name t); pg = trim_space (cs_PgType (ct_Spec t));
          pg' = (case NormalizeColumnTypePgType pg of Some c \<Rightarrow> c | None \<Rightarrow> pg)
      in \<lparr>ct_APIVersion = (if ct_APIVersion t = [] then APIVersion else ct_APIVersion t),
          ct_Kind = (if ct_Kind t = [] then KindColumnType else ct_Kind t),
          ct_Name = name,
          ct_Label = (if ct_Label t = [] then name else ct_Label t),
          ct_Spec = (ct_Spec t)\<lparr>cs_PgType := pg'\<rparr>\<rparr>)"

section \<open>The number specification of a type\<close>

definition SpecFromColumnTypeSpec :: "column_type_spec option \<Rightarrow> nspec" where
  "SpecFromColumnTypeSpec spec =
     (case spec of
        None \<Rightarrow> zero_spec
      | Some s \<Rightarrow>
          if cs_PgType s \<noteq> ''number'' then zero_spec
          else
            let o1 = DefaultNumberSpec;
                o2 = (case cs_Precision s of None \<Rightarrow> o1 | Some p \<Rightarrow> o1\<lparr>Precision := p\<rparr>);
                o3 = (case cs_Scale s of None \<Rightarrow> o2 | Some x \<Rightarrow> o2\<lparr>Scale := x\<rparr>);
                o4 = (case cs_FinancialMode s of None \<Rightarrow> o3 | Some b \<Rightarrow> o3\<lparr>FinancialMode := b\<rparr>)
            in override_mode (cs_RoundingMode s) o4)"

definition SpecForBuiltin :: "string \<Rightarrow> nspec option" where
  "SpecForBuiltin typeID =
     (if typeID \<noteq> ''number'' then None
      else (case Get typeID of None \<Rightarrow> None | Some t \<Rightarrow> Some (SpecFromConfig (Some (ty_Config t)))))"

section \<open>The registry\<close>

lemma builtin_ids:
  "map fst registry =
     [''text'', ''number'', ''datetime'', ''boolean'', ''jsonb'', ''formula'', ''link'', ''lookup'', ''rollup'']"
  by code_simp

lemma registry_checked:
  "list_all (\<lambda>(i, t). ty_ID t = i \<and> ty_Name t \<noteq> [] \<and>
      (IsVirtualKind (ty_Kind t) \<longleftrightarrow> ty_PgType t = []) \<and> (ty_Kind t \<noteq> [] \<longrightarrow> obj_get (ty_Config t) ''kind'' = VStr (ty_Kind t)))
    registry"
  by code_simp

lemma Get_registry: "Get i = Some t \<Longrightarrow> (i, t) \<in> set registry"
  by (simp add: Get_def map_of_SomeD)

lemma Get_entry:
  assumes "Get i = Some t"
  shows "ty_ID t = i" "ty_Name t \<noteq> []" "IsVirtualKind (ty_Kind t) \<longleftrightarrow> ty_PgType t = []"
  using registry_checked Get_registry [OF assms] by (auto simp: list_all_iff)

text \<open>Each base type of a column type has a storage type.\<close>

lemma base_pg_types:
  "list_all (\<lambda>pg. case GetPgType pg of None \<Rightarrow> False | Some bt \<Rightarrow>
       pt_ID bt = pg \<and> pt_PgType bt \<noteq> [] \<and> pg \<noteq> [] \<and> trim_space pg = pg \<and>
       \<not> contains pg '' '' \<and> \<not> has_suffix pg ''[]'' \<and> \<not> has_prefix pg ''numeric('' \<and>
       \<not> has_suffix (to_lower (trim_space (pt_PgType bt))) ''[]'')
    columnTypeBasePgTypes"
  by code_simp

lemma base_pg_typeD:
  assumes "c \<in> set columnTypeBasePgTypes"
  shows "\<exists>bt. GetPgType c = Some bt \<and> pt_ID bt = c \<and> pt_PgType bt \<noteq> [] \<and>
    \<not> has_suffix (to_lower (trim_space (pt_PgType bt))) ''[]''"
    and "c \<noteq> []" "trim_space c = c" "\<not> contains c '' ''" "\<not> has_suffix c ''[]''" "\<not> has_prefix c ''numeric(''"
  using bspec [OF base_pg_types [unfolded list_all_iff] assms] by (cases "GetPgType c", simp_all)+

lemma NormalizeColumnTypePgType_Some:
  assumes "NormalizeColumnTypePgType pg = Some c"
  shows "c \<in> set columnTypeBasePgTypes" "trim_space pg = c" "trim_space c = c" "c \<noteq> []"
proof -
  from assms show c: "c \<in> set columnTypeBasePgTypes" "trim_space pg = c"
    by (auto simp: NormalizeColumnTypePgType_def Let_def split: if_splits)
  from base_pg_typeD [OF c(1)] show "trim_space c = c" "c \<noteq> []" by blast+
qed

lemma Resolve_base_ok:
  assumes "c \<in> set columnTypeBasePgTypes"
  shows "\<exists>u. ResolveUnderlyingPgType c p s = Inr u"
proof -
  from base_pg_typeD [OF assms] obtain bt where "GetPgType c = Some bt" "pt_PgType bt \<noteq> []" "c \<noteq> []"
    "trim_space c = c" by blast
  then show ?thesis by (simp add: ResolveUnderlyingPgType_def Let_def)
qed

section \<open>Validated types\<close>

lemma Validate_spec_pg:
  assumes "ValidateColumnTypeSpec spec = Inr ()"
  shows "\<exists>c. NormalizeColumnTypePgType (trim_space (cs_PgType spec)) = Some c"
  using assms by (auto simp: ValidateColumnTypeSpec_def Let_def split: if_splits option.splits)

lemma trim_spec: "ValidateColumnTypeSpec (spec\<lparr>cs_PgType := trim_space (cs_PgType spec)\<rparr>) = ValidateColumnTypeSpec spec"
  by (cases spec) (simp only: ValidateColumnTypeSpec_def Let_def column_type_spec.simps trim_space_idem)

lemma normalized_pg:
  "(case NormalizeColumnTypePgType (trim_space pg) of Some c \<Rightarrow> c | None \<Rightarrow> trim_space pg) = trim_space pg"
  by (auto simp: NormalizeColumnTypePgType_def Let_def)

lemmas NormalizeColumnType_simp = NormalizeColumnType_def [unfolded Let_def normalized_pg]

section \<open>Properties\<close>

text \<open>
  C19. A validated column type document normalises to a document that is validated too, has
  all its defaults filled in and does not change under further normalisation.
\<close>

theorem NormalizeColumnType_valid:
  assumes "ValidateColumnType t = Inr ()"
  shows "ValidateColumnType (NormalizeColumnType t) = Inr () \<and>
    NormalizeColumnType (NormalizeColumnType t) = NormalizeColumnType t \<and>
    ct_APIVersion (NormalizeColumnType t) = APIVersion \<and> ct_Kind (NormalizeColumnType t) = KindColumnType \<and>
    type_name_ok (ct_Name (NormalizeColumnType t)) \<and> ct_Label (NormalizeColumnType t) \<noteq> [] \<and>
    cs_PgType (ct_Spec (NormalizeColumnType t)) \<in> set columnTypeBasePgTypes"
proof -
  from assms have h: "ct_APIVersion t = [] \<or> ct_APIVersion t = APIVersion"
    "ct_Kind t = [] \<or> ct_Kind t = KindColumnType" "trim_space (ct_Name t) \<noteq> []"
    "type_name_ok (trim_space (ct_Name t))" "GetPgType (trim_space (ct_Name t)) = None"
    and spec: "ValidateColumnTypeSpec (ct_Spec t) = Inr ()"
    by (auto simp: ValidateColumnType_def Let_def split: if_splits)
  from Validate_spec_pg [OF spec] obtain c where
    "NormalizeColumnTypePgType (trim_space (cs_PgType (ct_Spec t))) = Some c" by blast
  from NormalizeColumnTypePgType_Some [OF this]
  have "trim_space (cs_PgType (ct_Spec t)) \<in> set columnTypeBasePgTypes" by simp
  then show ?thesis
    using h spec
    by (auto simp: NormalizeColumnType_simp ValidateColumnType_def trim_spec APIVersion_def KindColumnType_def Let_def)
qed

theorem NormalizeColumnType_valid_witness:
  "\<exists>t. ValidateColumnType t = Inr () \<and> ct_Name t = '' money '' \<and>
     ValidateColumnType (NormalizeColumnType t) = Inr () \<and> ct_Label (NormalizeColumnType t) \<noteq> []"
proof -
  let ?t = "\<lparr>ct_APIVersion = [], ct_Kind = [], ct_Name = '' money '', ct_Label = [],
    ct_Spec = \<lparr>cs_PgType = ''number'', cs_Array = False, cs_Precision = Some 12, cs_Scale = Some 2,
      cs_FinancialMode = None, cs_RoundingMode = ''half_even'', cs_NotNull = True, cs_Default = None,
      cs_Checks = [\<lparr>ck_Name = ''positive'', ck_Expr = ''VALUE > 0''\<rparr>]\<rparr>\<rparr>"
  have "ValidateColumnType ?t = Inr ()" by code_simp
  with NormalizeColumnType_valid [OF this] show ?thesis by (intro exI [of _ ?t]) simp
qed

text \<open>
  A validated specification always has a storage type: \<open>EffectiveColumnTypePgType\<close>
  succeeds on it, and its result ends in \<open>[]\<close> when the type is declared an array.
\<close>

lemma Effective_total:
  assumes "ValidateColumnTypeSpec spec = Inr ()"
  shows "\<exists>pg. EffectiveColumnTypePgType spec = Inr pg \<and> (cs_Array spec \<longrightarrow> has_suffix pg ''[]'')"
proof -
  from Validate_spec_pg [OF assms] obtain c where
    c: "NormalizeColumnTypePgType (trim_space (cs_PgType spec)) = Some c" by blast
  obtain u where u: "ResolveUnderlyingPgType c (cs_Precision spec) (cs_Scale spec) = Inr u"
    using Resolve_base_ok NormalizeColumnTypePgType_Some [OF c] by blast
  have "\<not> (cs_Array spec \<and> has_suffix (to_lower (trim_space u)) ''[]'')"
    using assms c u by (auto simp: ValidateColumnTypeSpec_def Let_def split: if_splits)
  then show ?thesis
    using c u by (auto simp: EffectiveColumnTypePgType_def Let_def has_suffix_def suffix_def)
qed

lemma Effective_total_witness:
  "\<exists>pg. EffectiveColumnTypePgType \<lparr>cs_PgType = ''text'', cs_Array = True, cs_Precision = None,
      cs_Scale = None, cs_FinancialMode = None, cs_RoundingMode = [], cs_NotNull = False,
      cs_Default = None, cs_Checks = []\<rparr> = Inr pg \<and> has_suffix pg ''[]''"
proof -
  let ?s = "\<lparr>cs_PgType = ''text'', cs_Array = True, cs_Precision = None,
      cs_Scale = None, cs_FinancialMode = None, cs_RoundingMode = [], cs_NotNull = False,
      cs_Default = None, cs_Checks = []\<rparr>"
  have "ValidateColumnTypeSpec ?s = Inr ()" by code_simp
  from Effective_total [OF this] show ?thesis by simp
qed

text \<open>
  The duplicate check of a catalog compares the names as written, not as they are stored:
  a catalog with the names \<open>a\<close> and \<open>a\<close> preceded by a space is accepted, although both
  documents normalise to the name \<open>a\<close>.
\<close>

lemma catalog_duplicates_missed:
  "\<exists>c t1 t2. cat_ColumnTypes c = [t1, t2] \<and> ValidateTypeCatalog c = Inr () \<and>
     ct_Name (NormalizeColumnType t1) = ct_Name (NormalizeColumnType t2)"
proof -
  let ?s = "\<lparr>cs_PgType = ''text'', cs_Array = False, cs_Precision = None,
      cs_Scale = None, cs_FinancialMode = None, cs_RoundingMode = [], cs_NotNull = False,
      cs_Default = None, cs_Checks = []\<rparr>"
  let ?t = "\<lambda>n. \<lparr>ct_APIVersion = [], ct_Kind = [], ct_Name = n, ct_Label = [], ct_Spec = ?s\<rparr>"
  let ?c = "\<lparr>cat_APIVersion = [], cat_Kind = [], cat_ColumnTypes = [?t ''a'', ?t '' a'']\<rparr>"
  have "ValidateTypeCatalog ?c = Inr ()" by code_simp
  moreover have "ct_Name (NormalizeColumnType (?t ''a'')) = ct_Name (NormalizeColumnType (?t '' a''))"
    by code_simp
  ultimately show ?thesis by (intro exI [of _ ?c]) auto
qed

text \<open>
  The built-in number type carries the default number specification, and it is the only
  built-in type that has one; a built-in type is virtual exactly when it has no storage type.
\<close>

lemma builtin_types:
  "SpecForBuiltin ''number'' = Some DefaultNumberSpec \<and>
   (SpecForBuiltin i \<noteq> None \<longleftrightarrow> i = ''number'') \<and>
   (IsBuiltIn i \<longrightarrow> (IsVirtual i \<longleftrightarrow> PgType i = []) \<and> Kind i = Kind (CanonicalID i)) \<and>
   (\<not> IsBuiltIn i \<longrightarrow> PgType i = [] \<and> \<not> IsVirtual i)"
proof -
  have n: "SpecForBuiltin ''number'' = Some DefaultNumberSpec" by code_simp
  moreover have "SpecForBuiltin i \<noteq> None \<longleftrightarrow> i = ''number''"
    using n by (auto simp: SpecForBuiltin_def split: if_splits)
  moreover have "IsVirtual i \<longleftrightarrow> PgType i = []" if "IsBuiltIn i"
  proof -
    from that obtain t where t: "Get i = Some t" by (auto simp: IsBuiltIn_def map_has_def Get_def)
    with Get_entry(3) [OF t] show ?thesis by (auto simp: IsVirtual_def Kind_def PgType_def)
  qed
  moreover have "PgType i = [] \<and> \<not> IsVirtual i" if "\<not> IsBuiltIn i"
  proof -
    from that have "Get i = None" by (simp add: IsBuiltIn_def map_has_def Get_def)
    then show ?thesis by (simp add: PgType_def IsVirtual_def Kind_def IsVirtualKind_def)
  qed
  ultimately show ?thesis by (auto simp: CanonicalID_def)
qed

lemma builtin_types_witness: "IsVirtual ''link'' \<longleftrightarrow> PgType ''link'' = []"
proof -
  have "IsBuiltIn ''link''" by code_simp
  with builtin_types [of "''link''"] show ?thesis by blast
qed

end
