(* ===== verification/Filter_DSL.thy ===== *)
theory Filter_DSL
  imports Go_Value
begin

text \<open>
  The filter language of row queries (\<open>internal/dsl\<close>): the filter document, its parser, and the
  substitution of \<open>{param}\<close> placeholders. JSON documents are dynamic values; \<open>encoding/json\<close> and
  \<open>crypto/sha256\<close> are the functions of a \<open>codec\<close>, an argument of the definitions that use them.
\<close>

section \<open>Filters\<close>

datatype dwhere = Where (wType: string) (wAttr: string) (wVal: goany) (wVals: "dwhere list")

definition no_filter :: dwhere where
  "no_filter = Where [] [] VNil []"

record codec =
  cd_unmarshal :: "string \<Rightarrow> string + goobj option" \<comment> \<open>into \<open>map[string]any\<close>; \<open>None\<close> for \<open>null\<close>\<close>
  cd_marshal :: "goany \<Rightarrow> string + string"
  cd_sha256 :: "string \<Rightarrow> string" \<comment> \<open>the digest, in hexadecimal\<close>

text \<open>The elements of a \<open>[]any\<close> that are objects.\<close>

fun objs :: "goany list \<Rightarrow> goobj list" where
  "objs [] = []"
| "objs (VObj m # vs) = m # objs vs"
| "objs (_ # vs) = objs vs"

definition emptyFilterVal :: "goany \<Rightarrow> bool" where
  "emptyFilterVal v = (case v of VNil \<Rightarrow> True | VStr s \<Rightarrow> trim_space s = [] | _ \<Rightarrow> False)"

definition betweenBounds :: "goany \<Rightarrow> string + goany" where
  "betweenBounds val =
     (case val of
        VArr [a, b] \<Rightarrow>
          if emptyFilterVal a \<or> emptyFilterVal b then Inl ''BETWEEN filter val must be [start, end]''
          else Inr (VArr [a, b])
      | _ \<Rightarrow> Inl ''BETWEEN filter val must be [start, end]'')"

definition compare_types :: "string list" where
  "compare_types = [''EQ'', ''NEQ'', ''LIKE'', ''GT'', ''GTE'', ''LT'', ''LTE'']"

definition array_types :: "string list" where
  "array_types = [''IN'', ''NIN'', ''ARRAY_OVERLAP'', ''ARRAY_NOT_OVERLAP'', ''ARRAY_CONTAINS'',
     ''ARRAY_NOT_CONTAINS'', ''ARRAY_HAS'', ''ARRAY_NOT_HAS'']"

definition filter_type :: "goobj \<Rightarrow> string" where
  "filter_type m = to_upper (trim_space (as_string (obj_get m ''type'')))"

text \<open>The children that are filters: a child without a type is dropped.\<close>

definition typed :: "dwhere list \<Rightarrow> dwhere list" where
  "typed ws = filter (\<lambda>w. wType w \<noteq> []) ws"

lemma obj_get_size: "obj_get m k = v \<Longrightarrow> v \<noteq> VNil \<Longrightarrow> size v < size (VObj m)"
proof -
  assume v: "obj_get m k = v" "v \<noteq> VNil"
  then have "(k, v) \<in> set m" by (auto simp: obj_get_def split: option.splits dest: map_of_SomeD)
  then have "size v < Suc (size_list (size_prod (\<lambda>_. 0) size) m)"
    by (induction m) auto
  then show "size v < size (VObj m)" by simp
qed

lemma objs_mem: "m \<in> set (objs vs) \<longleftrightarrow> VObj m \<in> set vs"
  by (induction vs rule: objs.induct) auto

lemma child_size: "sub \<in> set (objs (as_array (obj_get m k))) \<Longrightarrow> size (VObj sub) < size (VObj m)"
proof -
  assume s: "sub \<in> set (objs (as_array (obj_get m k)))"
  then obtain xs where xs: "obj_get m k = VArr xs" "VObj sub \<in> set xs"
    by (cases "obj_get m k") (auto simp: as_array_def objs_mem)
  from xs(2) have "size (VObj sub) < size (VArr xs)" by (induction xs) auto
  also have "\<dots> < size (VObj m)" using obj_get_size [OF xs(1)] by simp
  finally show ?thesis .
qed

function parseNode :: "runtime \<Rightarrow> goobj \<Rightarrow> string + dwhere" where
  "parseNode rt m =
     (let t = filter_type m; attr = as_string (obj_get m ''attr''); val = obj_get m ''val'' in
      if t = [] then (if m = [] then Inr no_filter else Inl ''filter requires type'')
      else if t = ''AND'' \<or> t = ''OR'' then
        (case collect (map (parseNode rt) (objs (as_array val))) of
           Inl e \<Rightarrow> Inl e
         | Inr ws \<Rightarrow> Inr (Where t [] VNil (typed ws)))
      else if t \<in> set compare_types \<or> t \<in> set array_types then
        (if attr = [] then Inl (''filter '' @ t @ '' requires attr'') else Inr (Where t attr val []))
      else if t = ''BETWEEN'' then
        (if attr = [] then Inl ''filter BETWEEN requires attr''
         else (case betweenBounds val of Inl e \<Rightarrow> Inl e | Inr b \<Rightarrow> Inr (Where t attr b [])))
      else if t \<in> {''EMPTY'', ''NOT_EMPTY'', ''NULL'', ''NOT_NULL''} then
        (if attr = [] then Inl (''filter '' @ t @ '' requires attr'')
         else Inr (Where (if t = ''NULL'' then ''EMPTY'' else if t = ''NOT_NULL'' then ''NOT_EMPTY'' else t)
                attr VNil []))
      else if t = ''FTS'' then
        (if val = VNil \<or> trim_space (sprint rt val) = [] then Inl ''filter FTS requires val''
         else Inr (Where t (if attr = [] then ''_fulltext_text'' else attr) val []))
      else Inl (''unsupported filter type '' @ t))"
  by pat_completeness auto
termination
  by (relation "measure (\<lambda>(_, m). size (VObj m))") (auto dest: child_size simp del: goany.size)

declare parseNode.simps [simp del]

text \<open>\<open>Parse\<close> of package \<open>dsl\<close>: text, bytes or a document.\<close>

definition unmarshal_filter :: "runtime \<Rightarrow> codec \<Rightarrow> string \<Rightarrow> string + dwhere" where
  "unmarshal_filter rt cd b =
     (case cd_unmarshal cd b of
        Inl e \<Rightarrow> Inl e
      | Inr None \<Rightarrow> Inr no_filter
      | Inr (Some m) \<Rightarrow> parseNode rt m)"

definition dsl_Parse :: "runtime \<Rightarrow> codec \<Rightarrow> goany \<Rightarrow> string + dwhere" where
  "dsl_Parse rt cd raw =
     (case raw of
        VNil \<Rightarrow> Inr no_filter
      | VStr v \<Rightarrow>
          (let s = trim_space v in
           if s = [] \<or> s = ''{}'' then Inr no_filter else unmarshal_filter rt cd s)
      | VBytes b \<Rightarrow> unmarshal_filter rt cd b
      | _ \<Rightarrow> (case cd_marshal cd raw of Inl e \<Rightarrow> Inl e | Inr b \<Rightarrow> unmarshal_filter rt cd b))"

definition BuildEqualMap :: "goobj \<Rightarrow> dwhere" where
  "BuildEqualMap m =
     (let children = map (\<lambda>(k, v). Where ''EQ'' k v []) m in
      case children of [] \<Rightarrow> no_filter | [w] \<Rightarrow> w | _ \<Rightarrow> Where ''AND'' [] VNil children)"

section \<open>Parameters\<close>

definition param_start :: "char \<Rightarrow> bool" where
  "param_start c = (char_in CHR ''a'' CHR ''z'' c \<or> char_in CHR ''A'' CHR ''Z'' c \<or> c = CHR ''_'')"

definition param_char :: "char \<Rightarrow> bool" where
  "param_char c = (param_start c \<or> char_in CHR ''0'' CHR ''9'' c)"

text \<open>A match of \<open>filterParamRe\<close> at the start of the text: the name and what follows.\<close>

definition match_param :: "string \<Rightarrow> (string \<times> string) option" where
  "match_param s =
     (case s of
        [] \<Rightarrow> None
      | c # body \<Rightarrow>
          if c \<noteq> CHR ''{'' then None
          else let name = takeWhile param_char body; rest = dropWhile param_char body in
            if name \<noteq> [] \<and> param_start (hd name) \<and> rest \<noteq> [] \<and> hd rest = CHR ''}''
            then Some (name, tl rest) else None)"

lemma match_param_shorter: "match_param s = Some (n, r) \<Longrightarrow> length r < length s"
  by (auto simp: match_param_def Let_def less_Suc_eq_le split: list.splits if_splits
      intro: order_trans [OF diff_le_self length_dropWhile_le])

text \<open>The text as literal pieces and parameter names, in order.\<close>

datatype piece = Lit char | Par string

function pieces :: "string \<Rightarrow> piece list" where
  "pieces [] = []"
| "pieces (c # s) =
     (case match_param (c # s) of
        Some (name, rest) \<Rightarrow> Par name # pieces rest
      | None \<Rightarrow> Lit c # pieces s)"
  by pat_completeness auto
termination
  by (relation "measure length") (use match_param_shorter in fastforce)+

definition params_of :: "string \<Rightarrow> string list" where
  "params_of s = concat (map (\<lambda>p. case p of Par n \<Rightarrow> [n] | Lit _ \<Rightarrow> []) (pieces s))"

fun recordParamNames :: "goany \<Rightarrow> string list" where
  "recordParamNames (VStr s) = params_of s"
| "recordParamNames (VArr vs) = concat (map recordParamNames vs)"
| "recordParamNames (VStrs ss) = concat (map params_of ss)"
| "recordParamNames _ = []"

function collectParamNames :: "goobj \<Rightarrow> string list" where
  "collectParamNames m =
     (if filter_type m = ''AND'' \<or> filter_type m = ''OR'' then
        concat (map collectParamNames (objs (as_array (obj_get m ''val''))))
      else recordParamNames (obj_get m ''val''))"
  by pat_completeness auto
termination
  by (relation "measure (\<lambda>m. size (VObj m))") (auto dest: child_size simp del: goany.size)

declare collectParamNames.simps [simp del]

definition ParamNames :: "goobj \<Rightarrow> string list" where
  "ParamNames m = (if m = [] then [] else sort (remdups (collectParamNames m)))"

definition piece_text :: "runtime \<Rightarrow> goobj \<Rightarrow> piece \<Rightarrow> string" where
  "piece_text rt params p =
     (case p of
        Lit c \<Rightarrow> [c]
      | Par n \<Rightarrow> (case map_of params n of Some v \<Rightarrow> sprint rt v | None \<Rightarrow> ''{'' @ n @ ''}''))"

definition substituteString :: "runtime \<Rightarrow> goobj \<Rightarrow> string \<Rightarrow> string + string" where
  "substituteString rt params s =
     (let missing = filter (\<lambda>n. map_of params n = None) (params_of s) in
      if missing \<noteq> [] then Inl (hd (sort missing))
      else Inr (concat (map (piece_text rt params) (pieces s))))"

fun substituteValue :: "runtime \<Rightarrow> goobj \<Rightarrow> goany \<Rightarrow> string + goany" where
  "substituteValue rt params (VStr s) =
     (case substituteString rt params s of Inl e \<Rightarrow> Inl e | Inr r \<Rightarrow> Inr (VStr r))"
| "substituteValue rt params (VArr vs) =
     (case collect (map (substituteValue rt params) vs) of Inl e \<Rightarrow> Inl e | Inr rs \<Rightarrow> Inr (VArr rs))"
| "substituteValue rt params (VStrs ss) =
     (case collect (map (substituteString rt params) ss) of Inl e \<Rightarrow> Inl e | Inr rs \<Rightarrow> Inr (VStrs rs))"
| "substituteValue rt params v = Inr v"

text \<open>
  \<open>substituteNode\<close> on the \<open>val\<close> entry of a node; the other entries are kept. \<open>range\<close> visits the
  entries in any order, and only \<open>val\<close> can fail, so the order does not matter. The error is
  the missing parameter's name.
\<close>

lemma val_child_size:
  "(k, VArr raw) \<in> set m \<Longrightarrow> VObj sub \<in> set raw \<Longrightarrow> size (VObj sub) < size (VObj m)"
proof -
  assume m: "(k, VArr raw) \<in> set m" and s: "VObj sub \<in> set raw"
  from s have "size (VObj sub) < size (VArr raw)" by (induction raw) auto
  also from m have "size (VArr raw) < Suc (size_list (size_prod (\<lambda>_. 0) size) m)" by (induction m) auto
  finally show ?thesis by simp
qed

function substituteNode :: "runtime \<Rightarrow> goobj \<Rightarrow> goobj \<Rightarrow> string + goobj" where
  "substituteNode rt params m =
     collect (map (\<lambda>(k, v).
       if k \<noteq> ''val'' then Inr (k, v)
       else if filter_type m = ''AND'' \<or> filter_type m = ''OR'' then
         (case v of
            VArr raw \<Rightarrow>
              (case collect (map (\<lambda>item. case item of
                  VObj sub \<Rightarrow> (case substituteNode rt params sub of Inl e \<Rightarrow> Inl e | Inr r \<Rightarrow> Inr (VObj r))
                | _ \<Rightarrow> Inr item) raw) of
                 Inl e \<Rightarrow> Inl e
               | Inr children \<Rightarrow> Inr (k, VArr children))
          | _ \<Rightarrow> Inr (k, v))
       else (case substituteValue rt params v of Inl e \<Rightarrow> Inl e | Inr r \<Rightarrow> Inr (k, r))) m)"
  by pat_completeness auto
termination
  by (relation "measure (\<lambda>(_, _, m). size (VObj m))") (auto dest: val_child_size simp del: goany.size)

declare substituteNode.simps [simp del]

definition SubstituteParams :: "runtime \<Rightarrow> goobj \<Rightarrow> goobj \<Rightarrow> string + goobj" where
  "SubstituteParams rt m params = (if m = [] then Inr m else substituteNode rt params m)"

text \<open>A codec with one document, for examples.\<close>

definition example_doc :: goobj where
  "example_doc =
     [(''type'', VStr ''and''), (''val'', VArr
       [VObj [(''type'', VStr ''eq''), (''attr'', VStr ''a''), (''val'', VInt 1)],
        VObj [(''type'', VStr ''null''), (''attr'', VStr ''b'')]])]"

definition example_codec :: codec where
  "example_codec =
     \<lparr>cd_unmarshal = (\<lambda>s. if s = ''f'' then Inr (Some example_doc)
        else if s = ''{}'' then Inr (Some []) else Inl ''invalid character''),
      cd_marshal = (\<lambda>v. Inr ''f''), cd_sha256 = (\<lambda>s. s)\<rparr>"

section \<open>Parsed filters are well formed\<close>

text \<open>The types a parsed leaf can have, and the shape of its value.\<close>

definition leaf_types :: "string list" where
  "leaf_types = compare_types @ array_types @ [''BETWEEN'', ''EMPTY'', ''NOT_EMPTY'', ''FTS'']"

fun wf_filter :: "dwhere \<Rightarrow> bool" where
  "wf_filter (Where t attr val ws) =
     (if t = ''AND'' \<or> t = ''OR'' then list_all (\<lambda>w. wType w \<noteq> [] \<and> wf_filter w) ws
      else t \<in> set leaf_types \<and> attr \<noteq> [] \<and> ws = [] \<and>
        (t = ''BETWEEN'' \<longrightarrow> (\<exists>a b. val = VArr [a, b] \<and> \<not> emptyFilterVal a \<and> \<not> emptyFilterVal b)))"

lemma betweenBounds_ok:
  "betweenBounds v = Inr b \<Longrightarrow> \<exists>x y. b = VArr [x, y] \<and> \<not> emptyFilterVal x \<and> \<not> emptyFilterVal y"
  by (auto simp: betweenBounds_def split: goany.splits list.splits if_splits)

lemma leaf_types_not_logical: "t \<in> set leaf_types \<Longrightarrow> t \<noteq> ''AND'' \<and> t \<noteq> ''OR'' \<and> t \<noteq> []"
  by (auto simp: leaf_types_def compare_types_def array_types_def)

lemma wf_leaf:
  "t \<in> set leaf_types \<Longrightarrow> attr \<noteq> [] \<Longrightarrow>
     (t = ''BETWEEN'' \<Longrightarrow> \<exists>a b. val = VArr [a, b] \<and> \<not> emptyFilterVal a \<and> \<not> emptyFilterVal b) \<Longrightarrow>
     wf_filter (Where t attr val [])"
  using leaf_types_not_logical [of t] by auto

text \<open>The part of \<open>parseNode\<close> for leaves.\<close>

definition parseNode_leaf :: "runtime \<Rightarrow> string \<Rightarrow> string \<Rightarrow> goany \<Rightarrow> string + dwhere" where
  "parseNode_leaf rt t attr val =
     (if t \<in> set compare_types \<or> t \<in> set array_types then
        (if attr = [] then Inl (''filter '' @ t @ '' requires attr'') else Inr (Where t attr val []))
      else if t = ''BETWEEN'' then
        (if attr = [] then Inl ''filter BETWEEN requires attr''
         else (case betweenBounds val of Inl e \<Rightarrow> Inl e | Inr b \<Rightarrow> Inr (Where t attr b [])))
      else if t \<in> {''EMPTY'', ''NOT_EMPTY'', ''NULL'', ''NOT_NULL''} then
        (if attr = [] then Inl (''filter '' @ t @ '' requires attr'')
         else Inr (Where (if t = ''NULL'' then ''EMPTY'' else if t = ''NOT_NULL'' then ''NOT_EMPTY'' else t)
                attr VNil []))
      else if t = ''FTS'' then
        (if val = VNil \<or> trim_space (sprint rt val) = [] then Inl ''filter FTS requires val''
         else Inr (Where t (if attr = [] then ''_fulltext_text'' else attr) val []))
      else Inl (''unsupported filter type '' @ t))"

lemma parseNode_leaf_eq:
  "filter_type m \<noteq> [] \<Longrightarrow> filter_type m \<noteq> ''AND'' \<Longrightarrow> filter_type m \<noteq> ''OR'' \<Longrightarrow>
     parseNode_leaf rt (filter_type m) (as_string (obj_get m ''attr'')) (obj_get m ''val'') = parseNode rt m"
  unfolding parseNode.simps [of rt m] parseNode_leaf_def Let_def by (simp only: if_False if_True simp_thms)

lemma leaf_types_mem:
  "t \<in> set compare_types \<Longrightarrow> t \<in> set leaf_types" "t \<in> set array_types \<Longrightarrow> t \<in> set leaf_types"
  by (simp_all add: leaf_types_def)

lemma leaf_types_consts:
  "''BETWEEN'' \<in> set leaf_types" "''EMPTY'' \<in> set leaf_types" "''NOT_EMPTY'' \<in> set leaf_types" "''FTS'' \<in> set leaf_types"
  "''BETWEEN'' \<notin> set compare_types" "''BETWEEN'' \<notin> set array_types"
  by (simp_all add: leaf_types_def compare_types_def array_types_def)

lemma parseNode_leaf_wf:
  assumes "parseNode_leaf rt t attr val = Inr w"
  shows "wf_filter w" "wType w \<in> set leaf_types"
proof -
  obtain t' a v where w: "w = Where t' a v []" "t' \<in> set leaf_types" "a \<noteq> []"
    "t' = ''BETWEEN'' \<longrightarrow> (\<exists>x y. v = VArr [x, y] \<and> \<not> emptyFilterVal x \<and> \<not> emptyFilterVal y)"
  proof -
    consider "t \<in> set compare_types \<or> t \<in> set array_types" | "t = ''BETWEEN''"
      | "t \<in> {''EMPTY'', ''NOT_EMPTY'', ''NULL'', ''NOT_NULL''}" "\<not> (t \<in> set compare_types \<or> t \<in> set array_types)"
      | "t = ''FTS''"
      | "\<not> (t \<in> set compare_types \<or> t \<in> set array_types)" "t \<noteq> ''BETWEEN''"
        "t \<notin> {''EMPTY'', ''NOT_EMPTY'', ''NULL'', ''NOT_NULL''}" "t \<noteq> ''FTS''"
      by blast
    then show ?thesis
    proof cases
      case 1
      with assms have "w = Where t attr val []" "attr \<noteq> []"
        by (auto simp: parseNode_leaf_def split: if_splits)
      with 1 that leaf_types_mem leaf_types_consts show ?thesis by blast
    next
      case 2
      with assms obtain b where b: "w = Where t attr b []" "attr \<noteq> []" "betweenBounds val = Inr b"
        by (auto simp: parseNode_leaf_def leaf_types_consts split: if_splits sum.splits)
      show ?thesis
        using betweenBounds_ok [OF b(3)] leaf_types_consts(1) 2 by (intro that [OF b(1) _ b(2)]) simp_all
    next
      case 3
      then have "t \<noteq> ''BETWEEN''" by auto
      with 3 assms have "w = Where (if t = ''NULL'' then ''EMPTY'' else if t = ''NOT_NULL'' then ''NOT_EMPTY'' else t)
          attr VNil []" "attr \<noteq> []"
        by (simp_all add: parseNode_leaf_def split: if_splits)
      with 3(1) that leaf_types_consts(2,3) show ?thesis by (auto split: if_splits)
    next
      case 4
      with assms have "w = Where ''FTS'' (if attr = [] then ''_fulltext_text'' else attr) val []"
        by (simp add: parseNode_leaf_def compare_types_def array_types_def split: if_splits)
      with that leaf_types_consts(4) show ?thesis by (auto split: if_splits)
    next
      case 5
      then have "\<not> is_ok (parseNode_leaf rt t attr val)" by (simp only: parseNode_leaf_def if_False is_ok_simps not_False_eq_True)
      with assms show ?thesis by simp
    qed
  qed
  then show "wf_filter w" "wType w \<in> set leaf_types"
    using wf_leaf [OF w(2,3)] by auto
qed

lemma parseNode_wf: "parseNode rt m = Inr w \<Longrightarrow> w = no_filter \<or> wf_filter w \<and> wType w \<noteq> []"
proof (induction rt m arbitrary: w rule: parseNode.induct)
  case (1 rt m)
  let ?t = "filter_type m"
  consider "?t = []" | "?t = ''AND'' \<or> ?t = ''OR''" | "?t \<noteq> []" "?t \<noteq> ''AND''" "?t \<noteq> ''OR''" by blast
  then show ?case
  proof cases
    case 1
    with "1.prems" show ?thesis by (auto simp: parseNode.simps [of rt m] Let_def split: if_splits)
  next
    case 2
    with "1.prems" obtain ws where ws:
      "map (parseNode rt) (objs (as_array (obj_get m ''val''))) = map Inr ws"
      and w: "w = Where ?t [] VNil (typed ws)"
      by (auto simp: parseNode.simps [of rt m] Let_def collect_Inr_iff split: sum.splits)
    have "wType x \<noteq> [] \<and> wf_filter x" if x: "x \<in> set (typed ws)" for x
    proof -
      from x have wt: "wType x \<noteq> []" by (simp add: typed_def)
      from x have "Inr x \<in> set (map (parseNode rt) (objs (as_array (obj_get m ''val''))))"
        unfolding ws by (auto simp: typed_def)
      then obtain sub where sub: "sub \<in> set (objs (as_array (obj_get m ''val'')))" "parseNode rt sub = Inr x"
        by auto
      have "?t \<noteq> []" using 2 by auto
      from "1.IH" [OF refl refl refl this 2 sub] wt show ?thesis by (auto simp: no_filter_def)
    qed
    with w 2 show ?thesis by (auto simp: list_all_iff)
  next
    case 3
    with "1.prems" have leaf: "parseNode_leaf rt ?t (as_string (obj_get m ''attr'')) (obj_get m ''val'') = Inr w"
      by (simp add: parseNode_leaf_eq)
    from parseNode_leaf_wf [OF this] leaf_types_not_logical show ?thesis by blast
  qed
qed

section \<open>Substitution of parameters\<close>

lemma is_ok_collect: "is_ok (collect rs) \<longleftrightarrow> list_all is_ok rs"
  by (induction rs rule: collect.induct) (auto split: sum.splits simp: is_ok_def)

lemma is_ok_case_sum [simp]: "is_ok (case r of Inl e \<Rightarrow> Inl e | Inr x \<Rightarrow> Inr (f x)) \<longleftrightarrow> is_ok r"
  by (cases r) auto

lemma substituteString_ok:
  "is_ok (substituteString rt params s) \<longleftrightarrow> set (params_of s) \<subseteq> dom (map_of params)"
  by (auto simp: substituteString_def Let_def filter_empty_conv)

lemma substituteValue_ok:
  "is_ok (substituteValue rt params v) \<longleftrightarrow> set (recordParamNames v) \<subseteq> dom (map_of params)"
  by (induction rt params v rule: substituteValue.induct)
    (auto simp: is_ok_collect list_all_iff substituteString_ok comp_def)

text \<open>Objects are maps: every object in the document has distinct keys.\<close>

fun distinct_keys :: "goany \<Rightarrow> bool" where
  "distinct_keys (VObj m) = (distinct (map fst m) \<and> list_all (\<lambda>p. distinct_keys (snd p)) m)"
| "distinct_keys (VArr vs) = list_all distinct_keys vs"
| "distinct_keys _ = True"

lemma obj_get_mem: "distinct (map fst m) \<Longrightarrow> (k, v) \<in> set m \<Longrightarrow> obj_get m k = v"
  by (simp add: obj_get_def)

lemma obj_get_absent: "k \<notin> fst ` set m \<Longrightarrow> obj_get m k = VNil"
  by (auto simp: obj_get_def map_of_eq_None_iff [symmetric] split: option.splits)

definition provided :: "goobj \<Rightarrow> string list \<Rightarrow> bool" where
  "provided params ns = (set ns \<subseteq> dom (map_of params))"

text \<open>What \<open>substituteNode\<close> does to one entry of a node, given the result for the children.\<close>

definition subst_entry :: "runtime \<Rightarrow> goobj \<Rightarrow> bool \<Rightarrow> string \<times> goany \<Rightarrow> string + (string \<times> goany)" where
  "subst_entry rt params logical =
     (\<lambda>(k, v).
       if k \<noteq> ''val'' then Inr (k, v)
       else if logical then
         (case v of
            VArr raw \<Rightarrow>
              (case collect (map (\<lambda>item. case item of
                  VObj sub \<Rightarrow> (case substituteNode rt params sub of Inl e \<Rightarrow> Inl e | Inr r \<Rightarrow> Inr (VObj r))
                | _ \<Rightarrow> Inr item) raw) of
                 Inl e \<Rightarrow> Inl e
               | Inr children \<Rightarrow> Inr (k, VArr children))
          | _ \<Rightarrow> Inr (k, v))
       else (case substituteValue rt params v of Inl e \<Rightarrow> Inl e | Inr r \<Rightarrow> Inr (k, r)))"

lemma substituteNode_entries:
  "substituteNode rt params m =
     collect (map (subst_entry rt params (filter_type m = ''AND'' \<or> filter_type m = ''OR'')) m)"
  unfolding substituteNode.simps [of rt params m] subst_entry_def ..

lemma subst_entry_ok:
  "is_ok (subst_entry rt params logical (k, v)) \<longleftrightarrow>
     (k = ''val'' \<longrightarrow>
        (if logical then \<forall>sub \<in> set (objs (as_array v)). is_ok (substituteNode rt params sub)
         else set (recordParamNames v) \<subseteq> dom (map_of params)))"
proof -
  have item: "is_ok (case item of VObj sub \<Rightarrow>
        (case substituteNode rt params sub of Inl e \<Rightarrow> Inl e | Inr r \<Rightarrow> Inr (VObj r)) | _ \<Rightarrow> Inr item) \<longleftrightarrow>
      (\<forall>sub. item = VObj sub \<longrightarrow> is_ok (substituteNode rt params sub))" for item
    by (cases item) auto
  show ?thesis
  proof (cases logical)
    case True
    then show ?thesis
      by (cases v) (auto simp: subst_entry_def as_array_def objs_mem is_ok_collect list_all_iff item
          simp del: objs.simps split: if_splits)
  qed (simp add: subst_entry_def substituteValue_ok)
qed

lemma substituteNode_ok:
  "distinct_keys (VObj m) \<Longrightarrow>
     is_ok (substituteNode rt params m) \<longleftrightarrow> set (collectParamNames m) \<subseteq> dom (map_of params)"
proof (induction m rule: collectParamNames.induct)
  case (1 m)
  let ?l = "filter_type m = ''AND'' \<or> filter_type m = ''OR''" and ?v = "obj_get m ''val''"
  have d: "distinct (map fst m)" using "1.prems" by simp
  have "is_ok (substituteNode rt params m) \<longleftrightarrow>
      (\<forall>(k, v) \<in> set m. is_ok (subst_entry rt params ?l (k, v)))"
    by (auto simp: substituteNode_entries is_ok_collect list_all_iff)
  also have "\<dots> \<longleftrightarrow> (if ?l then \<forall>sub \<in> set (objs (as_array ?v)). is_ok (substituteNode rt params sub)
      else set (recordParamNames ?v) \<subseteq> dom (map_of params))"
  proof (cases "''val'' \<in> fst ` set m")
    case True
    then have mem: "(''val'', ?v) \<in> set m" using obj_get_mem [OF d] by force
    have "v = ?v" if "(''val'', v) \<in> set m" for v using obj_get_mem [OF d that] by simp
    with mem show ?thesis unfolding subst_entry_ok by blast
  next
    case False
    then have nov: "(''val'', v) \<notin> set m" for v by force
    have "?v = VNil" using obj_get_absent [OF False] .
    then show ?thesis using nov unfolding subst_entry_ok by (auto simp: as_array_def)
  qed
  also have "\<dots> \<longleftrightarrow> set (collectParamNames m) \<subseteq> dom (map_of params)"
  proof (cases ?l)
    case True
    have "distinct_keys (VObj sub)" if "sub \<in> set (objs (as_array ?v))" for sub
    proof -
      from that obtain xs where xs: "?v = VArr xs" "VObj sub \<in> set xs"
        by (cases ?v) (auto simp: as_array_def objs_mem)
      then have "(''val'', VArr xs) \<in> set m"
        by (auto simp: obj_get_def split: option.splits dest: map_of_SomeD)
      with "1.prems" have "distinct_keys (VArr xs)" by (force simp: list_all_iff)
      with xs(2) show ?thesis unfolding distinct_keys.simps(2) list_all_iff by blast
    qed
    with "1.IH" [OF True] True show ?thesis by (auto simp: collectParamNames.simps [of m])
  qed (simp add: collectParamNames.simps [of m])
  finally show ?case .
qed

section \<open>Properties\<close>

text \<open>
  C14. Every filter the parser accepts is empty or well formed: connectives have only typed,
  well-formed children, every condition has one of the supported types and names an
  attribute, and \<open>BETWEEN\<close> has exactly two bounds, neither of them blank.
\<close>

theorem dsl_Parse_wf:
  assumes "dsl_Parse rt cd raw = Inr w"
  shows "w = no_filter \<or> wf_filter w \<and> wType w \<noteq> []"
proof -
  have "unmarshal_filter rt cd b = Inr w \<Longrightarrow> ?thesis" for b
    by (auto simp: unmarshal_filter_def split: sum.splits option.splits dest: parseNode_wf)
  with assms show ?thesis
    by (auto simp: dsl_Parse_def Let_def split: goany.splits if_splits sum.splits)
qed

theorem dsl_Parse_wf_witness:
  "\<forall>rt. wf_filter (Where ''AND'' [] VNil [Where ''EQ'' ''a'' (VInt 1) [], Where ''EMPTY'' ''b'' VNil []]) \<and>
     dsl_Parse rt example_codec (VStr ''f'') =
       Inr (Where ''AND'' [] VNil [Where ''EQ'' ''a'' (VInt 1) [], Where ''EMPTY'' ''b'' VNil []])"
proof
  fix rt :: runtime
  let ?w = "Where ''AND'' [] VNil [Where ''EQ'' ''a'' (VInt 1) [], Where ''EMPTY'' ''b'' VNil []]"
  have p: "dsl_Parse rt example_codec (VStr ''f'') = Inr ?w" by code_simp
  from dsl_Parse_wf [OF p] p show "wf_filter ?w \<and> dsl_Parse rt example_codec (VStr ''f'') = Inr ?w"
    by (simp add: no_filter_def)
qed

text \<open>
  C15. A query's parameters are exactly those it needs: substitution succeeds if and only if
  every name that \<open>ParamNames\<close> reports is among the parameters given.
\<close>

theorem SubstituteParams_exact:
  assumes "distinct_keys (VObj m)"
  shows "is_ok (SubstituteParams rt m params) \<longleftrightarrow> provided params (ParamNames m)"
  using substituteNode_ok [OF assms, of rt params]
  by (simp add: SubstituteParams_def ParamNames_def provided_def)

theorem SubstituteParams_exact_witness:
  "\<forall>rt. is_ok (SubstituteParams rt
      [(''type'', VStr ''and''), (''val'', VArr [VObj [(''type'', VStr ''EQ''), (''attr'', VStr ''x''), (''val'', VStr ''{p}'')]])]
      [(''p'', VInt 1)]) \<and>
    \<not> is_ok (SubstituteParams rt
      [(''type'', VStr ''and''), (''val'', VArr [VObj [(''type'', VStr ''EQ''), (''attr'', VStr ''x''), (''val'', VStr ''{p}'')]])]
      [(''q'', VInt 1)])"
proof
  fix rt
  let ?m = "[(''type'', VStr ''and''), (''val'', VArr [VObj [(''type'', VStr ''EQ''), (''attr'', VStr ''x''), (''val'', VStr ''{p}'')]])]"
  have d: "distinct_keys (VObj ?m)" by code_simp
  have p: "ParamNames ?m = [''p'']" by code_simp
  show "is_ok (SubstituteParams rt ?m [(''p'', VInt 1)]) \<and> \<not> is_ok (SubstituteParams rt ?m [(''q'', VInt 1)])"
    using SubstituteParams_exact [OF d, of rt "[(''p'', VInt 1)]"]
      SubstituteParams_exact [OF d, of rt "[(''q'', VInt 1)]"]
    unfolding p provided_def by simp
qed

end
