(* ===== verification/Memo_Cache.thy ===== *)
theory Memo_Cache
  imports Filter_DSL Example_Runtime
begin

text \<open>
  The bounded process-local caches: \<open>dsl.ParseCached\<close> (\<open>internal/dsl/cache.go\<close>) and
  \<open>query.BuildWhereWithTypesCached\<close> (\<open>internal/query/where_cache.go\<close>) share one pattern: a
  \<open>sync.Map\<close> from a key to a result, filled until a counter reaches 4096, bypassed when the key
  cannot be computed. The pattern is a locale: its client supplies the key and the function,
  with the law that queries of equal key have equal results. Inside it, goroutines interleave:
  the lookup, the computation and the locked store are separate steps.
\<close>

section \<open>One call\<close>

record ('k, 'r) memo =
  entries :: "('k \<times> 'r) list"
  memo_size :: nat

definition memo_init :: "('k, 'r) memo" where
  "memo_init = \<lparr>entries = [], memo_size = 0\<rparr>"

text \<open>The section between \<open>Lock\<close> and \<open>Unlock\<close>.\<close>

definition memo_store :: "nat \<Rightarrow> 'k \<Rightarrow> 'r \<Rightarrow> ('k, 'r) memo \<Rightarrow> ('k, 'r) memo" where
  "memo_store limit k r m =
     (if memo_size m < limit then \<lparr>entries = map_put k r (entries m), memo_size = memo_size m + 1\<rparr> else m)"

definition memo_call ::
    "('q \<Rightarrow> 'e + 'k) \<Rightarrow> ('q \<Rightarrow> 'r) \<Rightarrow> nat \<Rightarrow> 'q \<Rightarrow> ('k, 'r) memo \<Rightarrow> 'r \<times> ('k, 'r) memo" where
  "memo_call key compute limit q m =
     (case key q of
        Inl _ \<Rightarrow> (compute q, m)
      | Inr k \<Rightarrow>
          (case map_of (entries m) k of
             Some r \<Rightarrow> (r, m)
           | None \<Rightarrow> (compute q, memo_store limit k (compute q) m)))"

section \<open>Interleaved calls\<close>

text \<open>
  A configuration is the cache and the calls that have missed and not stored yet. An event is
  a return of a result to its caller; \<open>None\<close> is an internal step. Callers pass the queries
  that \<open>adm\<close> admits.
\<close>

inductive memo_step ::
    "('q \<Rightarrow> 'e + 'k) \<Rightarrow> ('q \<Rightarrow> 'r) \<Rightarrow> nat \<Rightarrow> ('q \<Rightarrow> bool) \<Rightarrow> ('k, 'r) memo \<times> ('q \<times> 'k) list \<Rightarrow> ('q \<times> 'r) option \<Rightarrow>
      ('k, 'r) memo \<times> ('q \<times> 'k) list \<Rightarrow> bool"
  for key compute limit adm
where
  bypass: "adm q \<Longrightarrow> key q = Inl e \<Longrightarrow> memo_step key compute limit adm (m, p) (Some (q, compute q)) (m, p)"
| hit: "adm q \<Longrightarrow> key q = Inr k \<Longrightarrow> map_of (entries m) k = Some r \<Longrightarrow>
    memo_step key compute limit adm (m, p) (Some (q, r)) (m, p)"
| miss: "adm q \<Longrightarrow> key q = Inr k \<Longrightarrow> map_of (entries m) k = None \<Longrightarrow>
    memo_step key compute limit adm (m, p) None (m, (q, k) # p)"
| store: "(q, k) \<in> set p \<Longrightarrow>
    memo_step key compute limit adm (m, p) (Some (q, compute q))
      (memo_store limit k (compute q) m, remove1 (q, k) p)"

text \<open>The events of a run of calls, in order, and the queries it started.\<close>

inductive memo_run ::
    "('q \<Rightarrow> 'e + 'k) \<Rightarrow> ('q \<Rightarrow> 'r) \<Rightarrow> nat \<Rightarrow> ('q \<Rightarrow> bool) \<Rightarrow> ('k, 'r) memo \<times> ('q \<times> 'k) list \<Rightarrow> ('q \<times> 'r) list \<Rightarrow> bool"
  for key compute limit adm
where
  start: "memo_run key compute limit adm (memo_init, []) []"
| step: "memo_run key compute limit adm c evs \<Longrightarrow> memo_step key compute limit adm c ev c' \<Longrightarrow>
    memo_run key compute limit adm c' (evs @ (case ev of None \<Rightarrow> [] | Some x \<Rightarrow> [x]))"

inductive_cases memo_stepE: "memo_step key compute limit adm c ev c'"

text \<open>Two calls in a row with the same query: the first stores, the second hits.\<close>

lemma run_twice:
  assumes adm: "adm q" and key: "key q = Inr k" and lim: "0 < limit"
  shows "memo_run key compute limit adm (memo_store limit k (compute q) memo_init, [])
    [(q, compute q), (q, compute q)]"
proof -
  let ?m = "memo_store limit k (compute q) memo_init"
  have "memo_step key compute limit adm (memo_init, []) None (memo_init, [(q, k)])"
    by (rule memo_step.miss) (simp_all add: adm key memo_init_def)
  from memo_run.step [OF memo_run.start this]
  have 1: "memo_run key compute limit adm (memo_init, [(q, k)]) []" by simp
  have "memo_step key compute limit adm (memo_init, [(q, k)]) (Some (q, compute q)) (?m, [])"
    using memo_step.store [where q = q and k = k and p = "[(q, k)]" and m = memo_init
        and key = key and compute = compute and limit = limit and adm = adm] by simp
  from memo_run.step [OF 1 this] have 2: "memo_run key compute limit adm (?m, []) [(q, compute q)]" by simp
  have "memo_step key compute limit adm (?m, []) (Some (q, compute q)) (?m, [])"
    by (rule memo_step.hit [where k = k]) (simp_all add: adm key lim memo_store_def memo_init_def)
  from memo_run.step [OF 2 this] show ?thesis by simp
qed

section \<open>The contract\<close>

locale memo =
  fixes key :: "'q \<Rightarrow> 'e + 'k" and compute :: "'q \<Rightarrow> 'r" and limit :: nat and admitted :: "'q \<Rightarrow> bool"
  assumes key_sound: "admitted x \<Longrightarrow> admitted y \<Longrightarrow> key x = Inr k \<Longrightarrow> key y = Inr k \<Longrightarrow> compute x = compute y"
begin

definition faithful :: "('k, 'r) memo \<Rightarrow> bool" where
  "faithful m \<longleftrightarrow>
     (\<forall>k r. map_of (entries m) k = Some r \<longrightarrow> (\<exists>q. admitted q \<and> key q = Inr k \<and> compute q = r)) \<and>
     length (entries m) \<le> memo_size m \<and> memo_size m \<le> limit"

definition sound :: "('k, 'r) memo \<times> ('q \<times> 'k) list \<Rightarrow> bool" where
  "sound c \<longleftrightarrow> faithful (fst c) \<and> (\<forall>(q, k) \<in> set (snd c). admitted q \<and> key q = Inr k)"

lemma length_map_put: "length (map_put k v m) \<le> Suc (length m)"
  by (induction k v m rule: map_put.induct) auto

lemma faithful_init: "faithful memo_init"
  by (simp add: faithful_def memo_init_def)

lemma faithful_store: "faithful m \<Longrightarrow> admitted q \<Longrightarrow> key q = Inr k \<Longrightarrow> faithful (memo_store limit k (compute q) m)"
  using length_map_put [of k "compute q" "entries m"]
  by (auto simp: faithful_def memo_store_def)

lemma faithful_hit:
  assumes "faithful m" "admitted q" "key q = Inr k" "map_of (entries m) k = Some r"
  shows "r = compute q"
proof -
  from assms(1,4) obtain q' where "admitted q'" "key q' = Inr k" "compute q' = r"
    unfolding faithful_def by blast
  with key_sound [of q' q k] assms(2,3) show ?thesis by simp
qed

text \<open>A call returns what the function computes and keeps the invariant.\<close>

lemma call_transparent:
  "faithful m \<Longrightarrow> admitted q \<Longrightarrow>
     fst (memo_call key compute limit q m) = compute q \<and> faithful (snd (memo_call key compute limit q m))"
  by (auto simp: memo_call_def faithful_store faithful_hit split: sum.splits option.splits)

lemma calls_transparent:
  "faithful m \<Longrightarrow> \<forall>q \<in> set qs. admitted q \<Longrightarrow>
     faithful (foldl (\<lambda>m q. snd (memo_call key compute limit q m)) m qs)"
  by (induction qs arbitrary: m) (auto simp: call_transparent)

lemma step_sound:
  assumes st: "memo_step key compute limit admitted c ev c'" and s: "sound c"
  shows "sound c' \<and> (\<forall>q r. ev = Some (q, r) \<longrightarrow> admitted q \<and> r = compute q)"
  using st
proof cases
  case (bypass q e m p)
  with s show ?thesis by simp
next
  case (hit q k m r p)
  with s faithful_hit [of m q k r] show ?thesis by (simp add: sound_def)
next
  case (miss q k m p)
  with s show ?thesis by (simp add: sound_def)
next
  case (store q k p m)
  with s have "admitted q" "key q = Inr k" "faithful m" by (auto simp: sound_def)
  moreover from s store have "\<forall>(q, k) \<in> set (remove1 (q, k) p). admitted q \<and> key q = Inr k"
    by (auto simp: sound_def dest: notin_set_remove1)
  ultimately show ?thesis using store faithful_store by (simp add: sound_def)
qed

text \<open>Whatever the interleaving, every caller receives what the function computes.\<close>

lemma run_sound:
  assumes "memo_run key compute limit admitted c evs"
  shows "sound c \<and> (\<forall>(q, r) \<in> set evs. r = compute q)"
  using assms
proof induction
  case start
  then show ?case by (simp add: sound_def faithful_init)
next
  case (step c evs ev c')
  with step_sound [OF step.hyps(2)] show ?case by (auto split: option.splits)
qed

lemma run_transparent:
  "memo_run key compute limit admitted (m, p) evs \<Longrightarrow> (q, r) \<in> set evs \<Longrightarrow> r = compute q"
  using run_sound by fastforce

lemma run_bounded: "memo_run key compute limit admitted (m, p) evs \<Longrightarrow> length (entries m) \<le> limit"
  using run_sound [of "(m, p)" evs] by (auto simp: sound_def faithful_def)

end

section \<open>The cache of parsed filters\<close>

definition parseCacheMax :: nat where "parseCacheMax = 4096"

definition filterCacheKey :: "codec \<Rightarrow> goany \<Rightarrow> string + string" where
  "filterCacheKey cd raw =
     (case raw of
        VStr s \<Rightarrow> Inr (cd_sha256 cd s)
      | VBytes b \<Rightarrow> Inr (cd_sha256 cd b)
      | _ \<Rightarrow> (case cd_marshal cd raw of Inl e \<Rightarrow> Inl e | Inr b \<Rightarrow> Inr (cd_sha256 cd b)))"

type_synonym parse_cache = "(string, string + dwhere) memo"

definition ParseCached :: "runtime \<Rightarrow> codec \<Rightarrow> goany \<Rightarrow> parse_cache \<Rightarrow> (string + dwhere) \<times> parse_cache" where
  "ParseCached rt cd raw m =
     (if raw = VNil then (Inr no_filter, m)
      else memo_call (filterCacheKey cd) (dsl_Parse rt cd) parseCacheMax raw m)"

text \<open>
  What the cache relies on: the digest has no collisions, encoded documents are not blank and
  carry no surrounding space, and \<open>{}\<close> decodes to the empty object. Byte slices are excluded:
  for them the key does not determine the result.
\<close>

definition codec_laws :: "codec \<Rightarrow> bool" where
  "codec_laws cd \<longleftrightarrow>
     inj (cd_sha256 cd) \<and> cd_unmarshal cd ''{}'' = Inr (Some []) \<and>
     (\<forall>v b. cd_marshal cd v = Inr b \<longrightarrow> b \<noteq> [] \<and> trim_space b = b)"

definition cacheable :: "codec \<Rightarrow> goany \<Rightarrow> bool" where
  "cacheable cd raw = (codec_laws cd \<and> (\<forall>b. raw \<noteq> VBytes b))"

text \<open>The text whose digest is the key, and the filter as a function of that text.\<close>

definition key_text :: "codec \<Rightarrow> goany \<Rightarrow> string + string" where
  "key_text cd raw = (case raw of VStr s \<Rightarrow> Inr s | VBytes b \<Rightarrow> Inr b | _ \<Rightarrow> cd_marshal cd raw)"

lemma filterCacheKey_text:
  "filterCacheKey cd raw = (case key_text cd raw of Inl e \<Rightarrow> Inl e | Inr b \<Rightarrow> Inr (cd_sha256 cd b))"
  by (cases raw) (simp_all add: filterCacheKey_def key_text_def)

definition text_filter :: "runtime \<Rightarrow> codec \<Rightarrow> string \<Rightarrow> string + dwhere" where
  "text_filter rt cd b =
     (let s = trim_space b in if s = [] \<or> s = ''{}'' then Inr no_filter else unmarshal_filter rt cd s)"

lemma unmarshal_braces: "codec_laws cd \<Longrightarrow> unmarshal_filter rt cd ''{}'' = Inr no_filter"
  by (simp add: codec_laws_def unmarshal_filter_def parseNode.simps filter_type_def obj_get_def
      as_string_def to_upper_def)

lemma dsl_Parse_text:
  assumes "cacheable cd raw" "raw \<noteq> VNil" "key_text cd raw = Inr b"
  shows "dsl_Parse rt cd raw = text_filter rt cd b"
proof -
  have laws: "codec_laws cd" using assms(1) by (simp add: cacheable_def)
  have marshalled: "unmarshal_filter rt cd b = text_filter rt cd b" if "cd_marshal cd raw = Inr b"
    using that laws unmarshal_braces [OF laws, of rt]
    by (auto simp: text_filter_def Let_def codec_laws_def)
  show ?thesis
    using assms marshalled
    by (cases raw) (auto simp: dsl_Parse_def key_text_def text_filter_def cacheable_def)
qed

definition cacheable_filter :: "codec \<Rightarrow> goany \<Rightarrow> bool" where
  "cacheable_filter cd raw = (cacheable cd raw \<and> raw \<noteq> VNil)"

interpretation parse_memo: memo "filterCacheKey cd" "dsl_Parse rt cd" parseCacheMax "cacheable_filter cd"
  for rt cd
proof
  fix x y k
  assume xy: "cacheable_filter cd x" "cacheable_filter cd y"
    and k: "filterCacheKey cd x = Inr k" "filterCacheKey cd y = Inr k"
  from k obtain a b where ab: "key_text cd x = Inr a" "key_text cd y = Inr b"
    "cd_sha256 cd a = k" "cd_sha256 cd b = k"
    by (auto simp: filterCacheKey_text split: sum.splits)
  with xy have "a = b" by (auto simp: cacheable_filter_def cacheable_def codec_laws_def inj_def)
  with xy ab show "dsl_Parse rt cd x = dsl_Parse rt cd y"
    using dsl_Parse_text by (simp add: cacheable_filter_def)
qed

section \<open>Properties\<close>



text \<open>
  The key does not distinguish text from bytes: after a blank text has been looked up,
  blank bytes are reported as an empty filter, although \<open>Parse\<close> rejects them.
\<close>

lemma ParseCached_bytes_confused:
  "\<exists>cd rt m. snd (ParseCached rt cd (VStr []) memo_init) = m \<and>
     fst (ParseCached rt cd (VBytes []) m) = Inr no_filter \<and>
     \<not> is_ok (dsl_Parse rt cd (VBytes []))"
proof -
  have "fst (ParseCached rt example_codec (VBytes []) (snd (ParseCached rt example_codec (VStr []) memo_init))) =
      Inr no_filter" for rt
    by (simp add: ParseCached_def memo_call_def filterCacheKey_def memo_init_def memo_store_def
        parseCacheMax_def dsl_Parse_def Let_def)
  moreover have "\<not> is_ok (dsl_Parse rt example_codec (VBytes []))" for rt
    by (simp add: dsl_Parse_def unmarshal_filter_def example_codec_def)
  ultimately show ?thesis by blast
qed

end
