(* ===== verification/SQL_Where.thy ===== *)
theory SQL_Where
  imports Memo_Cache
begin

text \<open>
  Generation of the SQL condition of a query (\<open>internal/query/where.go\<close>, \<open>builder.go\<close>,
  \<open>where_cache.go\<close>). SQL text is a list of fragments, a literal text or a placeholder \<open>$n\<close>;
  \<open>render\<close> gives the text the code builds. \<open>pgx.Identifier.Sanitize\<close> is the argument \<open>san\<close>.
\<close>

section \<open>SQL text\<close>

datatype frag = Txt string | Ph nat

type_synonym sql = "frag list"
type_synonym cond = "string + (sql \<times> goany list)"
type_synonym strmap = "(string \<times> string) list"

definition frag_text :: "frag \<Rightarrow> string" where
  "frag_text f = (case f of Txt s \<Rightarrow> s | Ph n \<Rightarrow> ''$'' @ nat_digits n)"

definition render :: "sql \<Rightarrow> string" where
  "render fs = concat (map frag_text fs)"

text \<open>\<open>strings.Join\<close> on fragments.\<close>

fun join_sql :: "string \<Rightarrow> sql list \<Rightarrow> sql" where
  "join_sql sep [] = []"
| "join_sql sep [x] = x"
| "join_sql sep (x # y # xs) = x @ Txt sep # join_sql sep (y # xs)"

section \<open>Column references\<close>

definition isRawSQLExpr :: "string \<Rightarrow> bool" where
  "isRawSQLExpr pg =
     (let s = trim_space pg in
      if s = [] then False
      else has_prefix s ''('' \<or> has_prefix s ''COALESCE('' \<or> has_prefix s ''CASE''
        \<or> contains s ''->'' \<or> contains s ''::''
        \<or> contains_any s [CHR '' '', CHR 0x09, CHR 0x0A])"

definition quoteColRef :: "(string \<Rightarrow> string) \<Rightarrow> string \<Rightarrow> string" where
  "quoteColRef san pg = (if isRawSQLExpr pg then pg else if contains pg ''.'' then pg else san pg)"

definition resolveColRefWithType ::
    "(string \<Rightarrow> string) \<Rightarrow> string \<Rightarrow> strmap \<Rightarrow> strmap \<Rightarrow> string + (string \<times> string)" where
  "resolveColRefWithType san attr A T =
     (case map_of A attr of
        None \<Rightarrow> Inl (''unknown filter attribute '' @ attr)
      | Some pg \<Rightarrow> Inr (quoteColRef san pg, case map_of T attr of Some t \<Rightarrow> t | None \<Rightarrow> []))"

definition isArrayPgType :: "string \<Rightarrow> bool" where
  "isArrayPgType pgType = has_suffix (to_lower (trim_space pgType)) ''[]''"

definition arrayCastType :: "string \<Rightarrow> string" where
  "arrayCastType pgType = (if isArrayPgType pgType then pgType else ''text[]'')"

definition isArrayValueRef :: "string \<Rightarrow> string \<Rightarrow> bool" where
  "isArrayValueRef colRef pgType = (isArrayPgType pgType \<or> has_prefix (trim_space colRef) ''('')"

section \<open>Values\<close>

definition escapeLikeLiteral :: "string \<Rightarrow> string" where
  "escapeLikeLiteral s =
     concat (map (\<lambda>c. if c \<in> {CHR 0x5C, CHR ''%'', CHR ''_''} then [CHR 0x5C, c] else [c]) s)"

definition likeContainsPattern :: "goany \<Rightarrow> goany" where
  "likeContainsPattern val =
     (case val of
        VStr s \<Rightarrow>
          if contains s ''%'' then VStr (escapeLikeLiteral s) else VStr (''%'' @ escapeLikeLiteral s @ ''%'')
      | _ \<Rightarrow> val)"

definition filterValToSlice :: "goany \<Rightarrow> string + goany list" where
  "filterValToSlice val =
     (case val of
        VArr v \<Rightarrow> if v = [] then Inl ''array filter val must be non-empty'' else Inr v
      | VStr v \<Rightarrow> if trim_space v = [] then Inl ''array filter val must be non-empty'' else Inr [VStr v]
      | VNil \<Rightarrow> Inl ''array filter val must be non-empty''
      | _ \<Rightarrow> Inr [val])"

definition anySliceToStringSlice :: "runtime \<Rightarrow> goany list \<Rightarrow> string list" where
  "anySliceToStringSlice rt vals = map (sprint rt) vals"

text \<open>A text in single quotes.\<close>

definition sq :: "string \<Rightarrow> string" where
  "sq s = CHR 0x27 # s @ [CHR 0x27]"

definition ts_open :: string where "ts_open = ''to_tsvector('' @ sq ''simple'' @ '', ''"
definition ts_mid :: string where "ts_mid = '') @@ to_tsquery('' @ sq ''simple'' @ '', ''"
definition eq_empty :: string where "eq_empty = '' = '' @ sq ''{}'' @ ''::''"
definition ne_empty :: string where "ne_empty = '' <> '' @ sq ''{}'' @ ''::''"

definition strip_quotes :: "string \<Rightarrow> string" where
  "strip_quotes p = replace_char CHR '':'' [] (replace_char CHR 0x27 [] p)"

definition toTsQuery :: "string \<Rightarrow> string" where
  "toTsQuery q = join '' & '' (map strip_quotes (Prelude.fields q))"

definition compareArgCast :: "string \<Rightarrow> string" where
  "compareArgCast pgType =
     (let t = to_lower (trim_space pgType) in
      if t \<in> {''numeric'', ''bigint'', ''integer'', ''int4'', ''int8'', ''double precision'', ''float8''} then ''numeric''
      else if t \<in> {''boolean'', ''bool''} then ''boolean''
      else if t \<in> {''timestamptz'', ''timestamp with time zone'', ''timestamp'', ''date''} then ''timestamptz''
      else [])"

section \<open>Conditions\<close>

definition buildArrayHas :: "runtime \<Rightarrow> string \<Rightarrow> string \<Rightarrow> goany \<Rightarrow> nat \<Rightarrow> cond" where
  "buildArrayHas rt colRef pgType val argStart =
     (let s = (case val of VStr s \<Rightarrow> s | _ \<Rightarrow> sprint rt val) in
      if trim_space s = [] then Inl ''ARRAY_HAS filter val must be non-empty''
      else if isArrayValueRef colRef pgType then
        Inr ([Txt ''('', Txt colRef, Txt '') @> ARRAY['', Ph argStart, Txt '']::'', Txt (arrayCastType pgType)], [VStr s])
      else Inr ([Ph argStart, Txt '' = ANY('', Txt colRef, Txt '')''], [VStr s]))"

definition negate_cond :: "cond \<Rightarrow> cond" where
  "negate_cond r =
     (case r of Inl e \<Rightarrow> Inl e | Inr (sql, args) \<Rightarrow> Inr (Txt ''NOT ('' # sql @ [Txt '')''], args))"

definition buildArrayNotHas :: "runtime \<Rightarrow> string \<Rightarrow> string \<Rightarrow> goany \<Rightarrow> nat \<Rightarrow> cond" where
  "buildArrayNotHas rt colRef pgType val argStart = negate_cond (buildArrayHas rt colRef pgType val argStart)"

definition buildArrayOverlap :: "runtime \<Rightarrow> string \<Rightarrow> string \<Rightarrow> goany \<Rightarrow> nat \<Rightarrow> cond" where
  "buildArrayOverlap rt colRef pgType val argStart =
     (case filterValToSlice val of
        Inl e \<Rightarrow> Inl e
      | Inr vals \<Rightarrow>
          Inr ([Txt ''('', Txt colRef, Txt '') && '', Ph argStart, Txt ''::'', Txt (arrayCastType pgType)],
            [VStrs (anySliceToStringSlice rt vals)]))"

definition buildArrayNotOverlap :: "runtime \<Rightarrow> string \<Rightarrow> string \<Rightarrow> goany \<Rightarrow> nat \<Rightarrow> cond" where
  "buildArrayNotOverlap rt colRef pgType val argStart = negate_cond (buildArrayOverlap rt colRef pgType val argStart)"

definition buildArrayContains :: "runtime \<Rightarrow> string \<Rightarrow> string \<Rightarrow> goany \<Rightarrow> nat \<Rightarrow> cond" where
  "buildArrayContains rt colRef pgType val argStart =
     (case filterValToSlice val of
        Inl e \<Rightarrow> Inl e
      | Inr vals \<Rightarrow>
          Inr ([Txt ''('', Txt colRef, Txt '') @> '', Ph argStart, Txt ''::'', Txt (arrayCastType pgType)],
            [VStrs (anySliceToStringSlice rt vals)]))"

definition buildArrayNotContains :: "runtime \<Rightarrow> string \<Rightarrow> string \<Rightarrow> goany \<Rightarrow> nat \<Rightarrow> cond" where
  "buildArrayNotContains rt colRef pgType val argStart = negate_cond (buildArrayContains rt colRef pgType val argStart)"

definition compare_sql :: "string \<Rightarrow> string" where
  "compare_sql t =
     (if t = ''EQ'' then '' = '' else if t = ''NEQ'' then '' <> '' else if t = ''GT'' then '' > ''
      else if t = ''GTE'' then '' >= '' else if t = ''LT'' then '' < '' else if t = ''LTE'' then '' <= '' else [])"

definition buildWhereCompare :: "string \<Rightarrow> string \<Rightarrow> string \<Rightarrow> goany \<Rightarrow> nat \<Rightarrow> cond" where
  "buildWhereCompare colRef pgType t val argStart =
     (let c = compareArgCast pgType in
      Inr ([Txt colRef, Txt (compare_sql t), Ph argStart] @ (if c \<noteq> [] then [Txt ''::'', Txt c] else []), [val]))"

definition buildWhereIn :: "string \<Rightarrow> string \<Rightarrow> goany \<Rightarrow> nat \<Rightarrow> cond" where
  "buildWhereIn colRef t val argStart =
     (case val of
        VArr vals \<Rightarrow>
          if vals = [] then Inr ([Txt (if t = ''IN'' then ''FALSE'' else ''TRUE'')], [])
          else
            Inr ([Txt colRef, Txt (if t = ''NIN'' then '' NOT IN '' else '' IN ''), Txt ''(''] @
              join_sql '', '' (map (\<lambda>n. [Ph n]) [argStart ..< argStart + length vals]) @ [Txt '')''], vals)
      | _ \<Rightarrow> Inl ''IN filter val must be array'')"

definition buildWhereBetween :: "string \<Rightarrow> goany \<Rightarrow> nat \<Rightarrow> cond" where
  "buildWhereBetween colRef val argStart =
     (case val of
        VArr [a, b] \<Rightarrow>
          Inr ([Txt colRef, Txt '' BETWEEN '', Ph argStart, Txt '' AND '', Ph (argStart + 1)], [a, b])
      | _ \<Rightarrow> Inl ''BETWEEN filter val must be [start, end]'')"

definition buildWhereFTS :: "runtime \<Rightarrow> string \<Rightarrow> goany \<Rightarrow> nat \<Rightarrow> cond" where
  "buildWhereFTS rt colRef val argStart =
     (let q = toTsQuery (sprint rt val) in
      if q = [] then Inr ([Txt ''FALSE''], [])
      else Inr ([Txt ts_open, Txt colRef,
        Txt ts_mid, Ph argStart, Txt '')''], [VStr q]))"

definition buildWhereEmpty :: "string \<Rightarrow> string \<Rightarrow> cond" where
  "buildWhereEmpty colRef pgType =
     (if isArrayPgType pgType then
        Inr ([Txt ''('', Txt colRef, Txt '' IS NULL OR '', Txt colRef, Txt eq_empty,
          Txt (arrayCastType pgType), Txt '')''], [])
      else Inr ([Txt colRef, Txt '' IS NULL''], []))"

definition buildWhereNotEmpty :: "string \<Rightarrow> string \<Rightarrow> cond" where
  "buildWhereNotEmpty colRef pgType =
     (if isArrayPgType pgType then
        Inr ([Txt ''('', Txt colRef, Txt '' IS NOT NULL AND '', Txt colRef, Txt ne_empty,
          Txt (arrayCastType pgType), Txt '')''], [])
      else Inr ([Txt colRef, Txt '' IS NOT NULL''], []))"

text \<open>A condition on one column, with the column's reference and type already resolved.\<close>

definition build_leaf :: "runtime \<Rightarrow> string \<Rightarrow> string \<Rightarrow> string \<Rightarrow> goany \<Rightarrow> nat \<Rightarrow> cond" where
  "build_leaf rt colRef pgType t val argStart =
     (if t = ''LIKE'' then
        (if isArrayPgType pgType then buildArrayHas rt colRef pgType val argStart
         else Inr ([Txt colRef, Txt '' LIKE '', Ph argStart], [likeContainsPattern val]))
      else if t = ''ARRAY_HAS'' then buildArrayHas rt colRef pgType val argStart
      else if t = ''ARRAY_NOT_HAS'' then buildArrayNotHas rt colRef pgType val argStart
      else if t = ''ARRAY_OVERLAP'' then buildArrayOverlap rt colRef pgType val argStart
      else if t = ''ARRAY_NOT_OVERLAP'' then buildArrayNotOverlap rt colRef pgType val argStart
      else if t = ''ARRAY_CONTAINS'' then buildArrayContains rt colRef pgType val argStart
      else if t = ''ARRAY_NOT_CONTAINS'' then buildArrayNotContains rt colRef pgType val argStart
      else if t \<in> {''EQ'', ''NEQ'', ''GT'', ''GTE'', ''LT'', ''LTE''} then
        (if isArrayPgType pgType \<and> t = ''EQ'' then buildArrayHas rt colRef pgType val argStart
         else if isArrayPgType pgType \<and> t = ''NEQ'' then buildArrayNotHas rt colRef pgType val argStart
         else buildWhereCompare colRef pgType t val argStart)
      else if t = ''IN'' \<or> t = ''NIN'' then
        (if isArrayPgType pgType then
           (if t = ''IN'' then buildArrayOverlap rt colRef pgType val argStart
            else buildArrayNotOverlap rt colRef pgType val argStart)
         else buildWhereIn colRef t val argStart)
      else if t = ''BETWEEN'' then buildWhereBetween colRef val argStart
      else if t = ''EMPTY'' then buildWhereEmpty colRef pgType
      else if t = ''NOT_EMPTY'' then buildWhereNotEmpty colRef pgType
      else buildWhereFTS rt colRef val argStart)"

definition leaf_cond :: "runtime \<Rightarrow> (string \<Rightarrow> string) \<Rightarrow> strmap \<Rightarrow> strmap \<Rightarrow> dwhere \<Rightarrow> nat \<Rightarrow> cond" where
  "leaf_cond rt san A T w argStart =
     (if wType w \<notin> set leaf_types then Inl (''unsupported filter type '' @ wType w)
      else (case resolveColRefWithType san (wAttr w) A T of
          Inl e \<Rightarrow> Inl e
        | Inr (colRef, pgType) \<Rightarrow> build_leaf rt colRef pgType (wType w) (wVal w) argStart))"

fun BuildWhereWithTypes ::
    "runtime \<Rightarrow> (string \<Rightarrow> string) \<Rightarrow> strmap \<Rightarrow> strmap \<Rightarrow> dwhere \<Rightarrow> nat \<Rightarrow> cond"
  and logical_parts ::
    "runtime \<Rightarrow> (string \<Rightarrow> string) \<Rightarrow> strmap \<Rightarrow> strmap \<Rightarrow> dwhere list \<Rightarrow> nat \<Rightarrow> string + (sql list \<times> goany list)"
where
  "BuildWhereWithTypes rt san A T (Where t attr val ws) argStart =
     (if t = [] then Inr ([], [])
      else if t = ''AND'' \<or> t = ''OR'' then
        (case logical_parts rt san A T ws argStart of
           Inl e \<Rightarrow> Inl e
         | Inr (parts, args) \<Rightarrow>
             if parts = [] then Inr ([], [])
             else Inr (join_sql (if t = ''OR'' then '' OR '' else '' AND '') parts, args))
      else leaf_cond rt san A T (Where t attr val ws) argStart)"
| "logical_parts rt san A T [] idx = Inr ([], [])"
| "logical_parts rt san A T (w # ws) idx =
     (case BuildWhereWithTypes rt san A T w idx of
        Inl e \<Rightarrow> Inl e
      | Inr (part, childArgs) \<Rightarrow>
          if render part = [] then logical_parts rt san A T ws idx
          else
            (case logical_parts rt san A T ws (idx + length childArgs) of
               Inl e \<Rightarrow> Inl e
             | Inr (parts, args) \<Rightarrow> Inr ((Txt ''('' # part @ [Txt '')'']) # parts, childArgs @ args)))"

definition BuildWhere :: "runtime \<Rightarrow> (string \<Rightarrow> string) \<Rightarrow> strmap \<Rightarrow> dwhere \<Rightarrow> nat \<Rightarrow> cond" where
  "BuildWhere rt san A w argStart = BuildWhereWithTypes rt san A [] w argStart"

section \<open>Ordering and column maps\<close>

record column_meta =
  cm_ID :: string
  cm_Name :: string
  cm_PgType :: string

record order_spec =
  os_Attribute :: string
  os_SortOrder :: string

fun AttrPgTypesFromColumns :: "column_meta list \<Rightarrow> strmap \<Rightarrow> strmap" where
  "AttrPgTypesFromColumns [] m = m"
| "AttrPgTypesFromColumns (c # cs) m =
     (if cm_PgType c = [] then AttrPgTypesFromColumns cs m
      else let m1 = (if cm_ID c \<noteq> [] then map_put (cm_ID c) (cm_PgType c) m else m);
               m2 = (if cm_Name c \<noteq> [] then map_put (cm_Name c) (cm_PgType c) m1 else m1)
        in AttrPgTypesFromColumns cs m2)"

definition AttrMapFromColumns :: "(string \<Rightarrow> string) \<Rightarrow> string \<Rightarrow> column_meta list \<Rightarrow> strmap" where
  "AttrMapFromColumns san alias cols =
     foldl (\<lambda>m c. let ref = alias @ ''.'' @ san (cm_Name c) in map_put (cm_Name c) ref (map_put (cm_ID c) ref m))
       [(''id'', alias @ ''.id'')] cols"

fun order_parts :: "(string \<Rightarrow> string) \<Rightarrow> order_spec list \<Rightarrow> strmap \<Rightarrow> string list" where
  "order_parts san [] A = []"
| "order_parts san (o1 # os) A =
     (case map_of A (os_Attribute o1) of
        None \<Rightarrow> order_parts san os A
      | Some pg \<Rightarrow>
          (quoteColRef san pg @ '' '' @ (if equal_fold (os_SortOrder o1) ''DESC'' then ''DESC'' else ''ASC''))
            # order_parts san os A)"

definition BuildOrderBy :: "(string \<Rightarrow> string) \<Rightarrow> order_spec list \<Rightarrow> strmap \<Rightarrow> string \<Rightarrow> string" where
  "BuildOrderBy san orders A defaultCol =
     (let parts = order_parts san orders A in
      join '', '' (if parts = [] \<and> defaultCol \<noteq> [] then
          [quoteColRef san (case map_of A defaultCol of Some r \<Rightarrow> r | None \<Rightarrow> defaultCol) @ '' ASC'']
        else parts))"

section \<open>Placeholders and arguments\<close>

fun phs :: "sql \<Rightarrow> nat list" where
  "phs [] = []"
| "phs (Ph n # fs) = n # phs fs"
| "phs (Txt _ # fs) = phs fs"

lemma phs_append [simp]: "phs (xs @ ys) = phs xs @ phs ys"
  by (induction xs rule: phs.induct) auto

lemma phs_join [simp]: "phs (join_sql sep xs) = concat (map phs xs)"
  by (induction sep xs rule: join_sql.induct) auto

text \<open>The placeholders are numbered in order, from the start, one per argument.\<close>

definition numbered :: "nat \<Rightarrow> sql \<times> goany list \<Rightarrow> bool" where
  "numbered n r = (phs (fst r) = [n ..< n + length (snd r)])"

lemma numbered_leaf:
  "phs sql = [n] \<Longrightarrow> numbered n (sql, [v])" "phs sql = [] \<Longrightarrow> numbered n (sql, [])"
  "phs sql = [n, n + 1] \<Longrightarrow> numbered n (sql, [v, v'])"
  by (simp_all add: numbered_def upt_conv_Cons)

lemma numbered_negate: "negate_cond r = Inr x \<Longrightarrow> (\<And>y. r = Inr y \<Longrightarrow> numbered n y) \<Longrightarrow> numbered n x"
  by (auto simp: negate_cond_def numbered_def split: sum.splits)

lemma numbered_has: "buildArrayHas rt c t v n = Inr x \<Longrightarrow> numbered n x"
  by (auto simp: buildArrayHas_def Let_def split: if_splits intro!: numbered_leaf)

lemma numbered_overlap: "buildArrayOverlap rt c t v n = Inr x \<Longrightarrow> numbered n x"
  by (auto simp: buildArrayOverlap_def split: sum.splits intro!: numbered_leaf)

lemma numbered_contains: "buildArrayContains rt c t v n = Inr x \<Longrightarrow> numbered n x"
  by (auto simp: buildArrayContains_def split: sum.splits intro!: numbered_leaf)

lemma numbered_in: "buildWhereIn c t v n = Inr x \<Longrightarrow> numbered n x"
  by (auto simp: buildWhereIn_def numbered_def comp_def split: goany.splits if_splits)

lemma numbered_between: "buildWhereBetween c v n = Inr x \<Longrightarrow> numbered n x"
  by (auto simp: buildWhereBetween_def split: goany.splits list.splits intro!: numbered_leaf)

lemma numbered_others:
  "buildWhereCompare c t ty v n = Inr x \<Longrightarrow> numbered n x"
  "buildWhereFTS rt c v n = Inr x \<Longrightarrow> numbered n x"
  "buildWhereEmpty c t = Inr x \<Longrightarrow> numbered n x"
  "buildWhereNotEmpty c t = Inr x \<Longrightarrow> numbered n x"
  by (auto simp: buildWhereCompare_def buildWhereFTS_def buildWhereEmpty_def buildWhereNotEmpty_def Let_def
      split: if_splits intro!: numbered_leaf)

lemmas numbered_builders = numbered_has numbered_overlap numbered_contains numbered_in numbered_between
  numbered_others

text \<open>A leaf is built by one of these builders.\<close>

lemma build_leaf_cases:
  "build_leaf rt c ty t v n \<in>
     {buildArrayHas rt c ty v n, Inr ([Txt c, Txt '' LIKE '', Ph n], [likeContainsPattern v]),
      negate_cond (buildArrayHas rt c ty v n), buildArrayOverlap rt c ty v n,
      negate_cond (buildArrayOverlap rt c ty v n), buildArrayContains rt c ty v n,
      negate_cond (buildArrayContains rt c ty v n), buildWhereCompare c ty t v n, buildWhereIn c t v n,
      buildWhereBetween c v n, buildWhereEmpty c ty, buildWhereNotEmpty c ty, buildWhereFTS rt c v n}"
  unfolding build_leaf_def buildArrayNotHas_def buildArrayNotOverlap_def buildArrayNotContains_def
  by (rule if_mem | rule insertI1 | rule insertI2)+

text \<open>A property of all builders' results is one of every leaf.\<close>

lemma build_leaf_induct:
  assumes r: "build_leaf rt c ty t v n = Inr x"
    and has: "\<And>y. buildArrayHas rt c ty v n = Inr y \<Longrightarrow> P y"
    and overlap: "\<And>y. buildArrayOverlap rt c ty v n = Inr y \<Longrightarrow> P y"
    and "contains": "\<And>y. buildArrayContains rt c ty v n = Inr y \<Longrightarrow> P y"
    and neg: "\<And>q y. P y \<Longrightarrow> negate_cond (Inr y) = Inr q \<Longrightarrow> P q"
    and like: "P ([Txt c, Txt '' LIKE '', Ph n], [likeContainsPattern v])"
    and "compare": "\<And>y. buildWhereCompare c ty t v n = Inr y \<Longrightarrow> P y"
    and "in": "\<And>y. buildWhereIn c t v n = Inr y \<Longrightarrow> P y"
    and between: "\<And>y. buildWhereBetween c v n = Inr y \<Longrightarrow> P y"
    and empty: "\<And>y. buildWhereEmpty c ty = Inr y \<Longrightarrow> P y"
    and not_empty: "\<And>y. buildWhereNotEmpty c ty = Inr y \<Longrightarrow> P y"
    and fts: "\<And>y. buildWhereFTS rt c v n = Inr y \<Longrightarrow> P y"
  shows "P x"
proof -
  have negated: "P x" if "negate_cond r = Inr x" "\<And>y. r = Inr y \<Longrightarrow> P y" for r
    using that neg by (cases r) (auto simp: negate_cond_def)
  from build_leaf_cases [of rt c ty t v n] show ?thesis
    unfolding r insert_iff empty_iff
    by (elim disjE) (use assms(2-) negated in \<open>metis Inr_inject\<close>)+
qed

lemma numbered_build_leaf: "build_leaf rt c ty t v n = Inr x \<Longrightarrow> numbered n x"
proof (erule build_leaf_induct)
  fix q y assume "numbered n y" "negate_cond (Inr y) = Inr q"
  then show "numbered n q" using numbered_negate [of "Inr y" q n] by simp
next
  show "numbered n ([Txt c, Txt '' LIKE '', Ph n], [likeContainsPattern v])" by (simp add: numbered_leaf)
qed (fact numbered_builders)+

lemma numbered_where:
  "BuildWhereWithTypes rt san A T w n = Inr x \<Longrightarrow> numbered n x"
  "logical_parts rt san A T ws n = Inr (parts, args) \<Longrightarrow> concat (map phs parts) = [n ..< n + length args]"
proof (induction rt san A T w n and rt san A T ws n arbitrary: x and parts args
    rule: BuildWhereWithTypes_logical_parts.induct)
  case (1 rt san A T t attr val ws argStart)
  then show ?case
    by (auto simp: numbered_def leaf_cond_def split: if_splits sum.splits
        dest!: numbered_build_leaf)
next
  case (3 rt san A T w ws idx)
  from "3.prems" obtain part childArgs where
    b: "BuildWhereWithTypes rt san A T w idx = Inr (part, childArgs)" by (auto split: sum.splits)
  note p = "3.IH"(1) [OF b]
  show ?case
  proof (cases "render part = []")
    case True
    with "3.IH"(2) [OF b refl True] "3.prems" b show ?thesis by simp
  next
    case False
    with "3.prems" b obtain ps as where
      l: "logical_parts rt san A T ws (idx + length childArgs) = Inr (ps, as)"
      and eq: "parts = (Txt ''('' # part @ [Txt '')'']) # ps" "args = childArgs @ as"
      by (auto split: sum.splits)
    from "3.IH"(3) [OF b refl False l] p eq show ?thesis
      using upt_add_eq_append [of idx "idx + length childArgs" "length as"]
      by (simp add: numbered_def add.assoc)
  qed
qed auto

section \<open>Where the text comes from\<close>

definition sql_words :: "string list" where
  "sql_words =
     [''('', '')'', '') @> ARRAY['', '']::'', '' = ANY('', ''NOT ('', '') && '', ''::'', '') @> '', '' LIKE '',
      '' = '', '' <> '', '' > '', '' >= '', '' < '', '' <= '', [], ''numeric'', ''boolean'', ''timestamptz'',
      ''FALSE'', ''TRUE'', '' NOT IN '', '' IN '', '', '', '' BETWEEN '', '' AND '', '' OR '',
      ts_open, ts_mid,
      '' IS NULL OR '', eq_empty, '' IS NULL'', '' IS NOT NULL AND '',
      ne_empty, '' IS NOT NULL'', ''text[]'']"

text \<open>
  A fragment is a placeholder, a fixed word of the generator, a column reference from the
  table's column map or a type from its type map.
\<close>

definition frag_ok :: "(string \<Rightarrow> string) \<Rightarrow> strmap \<Rightarrow> strmap \<Rightarrow> frag \<Rightarrow> bool" where
  "frag_ok san A T f =
     (case f of
        Ph _ \<Rightarrow> True
      | Txt s \<Rightarrow> s \<in> set sql_words \<or> s \<in> (\<lambda>p. quoteColRef san (snd p)) ` set A \<or> s \<in> snd ` set T)"

definition safe_sql :: "(string \<Rightarrow> string) \<Rightarrow> strmap \<Rightarrow> strmap \<Rightarrow> sql \<Rightarrow> bool" where
  "safe_sql san A T fs = list_all (frag_ok san A T) fs"

lemma safe_simps [simp]:
  "safe_sql san A T []" "safe_sql san A T (f # fs) \<longleftrightarrow> frag_ok san A T f \<and> safe_sql san A T fs"
  "safe_sql san A T (xs @ ys) \<longleftrightarrow> safe_sql san A T xs \<and> safe_sql san A T ys"
  by (simp_all add: safe_sql_def)

lemma frag_ok_Ph [simp]: "frag_ok san A T (Ph n)"
  by (simp add: frag_ok_def)

lemma frag_ok_word: "s \<in> set sql_words \<Longrightarrow> frag_ok san A T (Txt s)"
  by (simp add: frag_ok_def)

lemma words_ok [simp]:
  "frag_ok san A T (Txt ''('')" "frag_ok san A T (Txt '')'')" "frag_ok san A T (Txt '') @> ARRAY['')"
  "frag_ok san A T (Txt '']::'')" "frag_ok san A T (Txt '' = ANY('')" "frag_ok san A T (Txt ''NOT ('')"
  "frag_ok san A T (Txt '') && '')" "frag_ok san A T (Txt ''::'')" "frag_ok san A T (Txt '') @> '')"
  "frag_ok san A T (Txt '' LIKE '')" "frag_ok san A T (Txt ''FALSE'')" "frag_ok san A T (Txt ''TRUE'')"
  "frag_ok san A T (Txt '' NOT IN '')" "frag_ok san A T (Txt '' IN '')" "frag_ok san A T (Txt '', '')"
  "frag_ok san A T (Txt '' BETWEEN '')" "frag_ok san A T (Txt '' AND '')" "frag_ok san A T (Txt '' OR '')"
  "frag_ok san A T (Txt ts_open)"
  "frag_ok san A T (Txt ts_mid)"
  "frag_ok san A T (Txt '' IS NULL OR '')" "frag_ok san A T (Txt eq_empty)"
  "frag_ok san A T (Txt '' IS NULL'')" "frag_ok san A T (Txt '' IS NOT NULL AND '')"
  "frag_ok san A T (Txt ne_empty)" "frag_ok san A T (Txt '' IS NOT NULL'')"
  "frag_ok san A T (Txt ''text[]'')"
  by (rule frag_ok_word, code_simp)+

lemma compare_sql_word: "compare_sql t \<in> set sql_words"
  unfolding compare_sql_def by (rule if_mem | code_simp)+

lemma compareArgCast_word: "compareArgCast t \<in> set sql_words"
  unfolding compareArgCast_def Let_def by (rule if_mem | code_simp)+

lemma safe_join: "safe_sql san A T [Txt sep] \<Longrightarrow> list_all (safe_sql san A T) xs \<Longrightarrow> safe_sql san A T (join_sql sep xs)"
  by (induction sep xs rule: join_sql.induct) auto

text \<open>The column reference and the cast of a resolved attribute.\<close>

definition resolved :: "(string \<Rightarrow> string) \<Rightarrow> strmap \<Rightarrow> strmap \<Rightarrow> string \<Rightarrow> string \<Rightarrow> bool" where
  "resolved san A T c ty = (frag_ok san A T (Txt c) \<and> frag_ok san A T (Txt (arrayCastType ty)))"

lemma resolved_attr: "resolveColRefWithType san attr A T = Inr (c, ty) \<Longrightarrow> resolved san A T c ty"
proof -
  assume r: "resolveColRefWithType san attr A T = Inr (c, ty)"
  then obtain pg where pg: "map_of A attr = Some pg" "c = quoteColRef san pg"
    and ty: "ty = (case map_of T attr of Some t \<Rightarrow> t | None \<Rightarrow> [])"
    by (auto simp: resolveColRefWithType_def split: option.splits)
  have c: "frag_ok san A T (Txt c)" using map_of_SomeD [OF pg(1)] pg(2) by (force simp: frag_ok_def)
  have "frag_ok san A T (Txt (arrayCastType ty))"
  proof (cases "map_of T attr")
    case None
    then have "arrayCastType ty = ''text[]''"
      by (simp add: ty arrayCastType_def isArrayPgType_def has_suffix_def to_lower_def)
    then show ?thesis by simp
  next
    case (Some t)
    then have "t \<in> snd ` set T" by (force dest: map_of_SomeD)
    then show ?thesis using Some by (simp add: ty arrayCastType_def frag_ok_def [of _ _ _ "Txt t"])
  qed
  with c show ?thesis by (simp add: resolved_def)
qed

lemma safe_build_leaf:
  assumes r: "resolved san A T c ty" and b: "build_leaf rt c ty t v n = Inr x"
  shows "safe_sql san A T (fst x)"
proof -
  have ok: "frag_ok san A T (Txt c)" "frag_ok san A T (Txt (arrayCastType ty))"
    using r by (simp_all add: resolved_def)
  have words: "frag_ok san A T (Txt (compare_sql t))" "frag_ok san A T (Txt (compareArgCast ty))"
    using compare_sql_word compareArgCast_word by (simp_all add: frag_ok_word)
  from b show ?thesis
  proof (rule build_leaf_induct)
    show "safe_sql san A T (fst q)" if "safe_sql san A T (fst y)" "negate_cond (Inr y) = Inr q" for q y
      using that by (auto simp: negate_cond_def split: prod.splits)
    show "safe_sql san A T (fst y)" if "buildWhereIn c t v n = Inr y" for y
      using that ok by (auto simp: buildWhereIn_def list_all_iff split: goany.splits if_splits intro!: safe_join)
  qed (use ok words in \<open>auto simp: buildArrayHas_def buildArrayOverlap_def buildArrayContains_def
      buildWhereCompare_def buildWhereBetween_def buildWhereEmpty_def buildWhereNotEmpty_def
      buildWhereFTS_def Let_def split: if_splits sum.splits goany.splits list.splits\<close>)
qed

lemma safe_where:
  "BuildWhereWithTypes rt san A T w n = Inr x \<Longrightarrow> safe_sql san A T (fst x)"
  "logical_parts rt san A T ws n = Inr (parts, args) \<Longrightarrow> list_all (safe_sql san A T) parts"
proof (induction rt san A T w n and rt san A T ws n arbitrary: x and parts args
    rule: BuildWhereWithTypes_logical_parts.induct)
  case (1 rt san A T t attr val ws argStart)
  then show ?case
    by (auto simp: leaf_cond_def split: if_splits sum.splits intro!: safe_join
        dest: safe_build_leaf [OF resolved_attr])
next
  case (3 rt san A T w ws idx)
  then show ?case by (fastforce split: sum.splits if_splits)
qed auto

section \<open>LIKE\<close>

text \<open>SQL's \<open>text LIKE pattern\<close> with the default escape character, the backslash.\<close>

function like :: "string \<Rightarrow> string \<Rightarrow> bool" where
  "like [] t = (t = [])"
| "like (c # p) t =
     (if c = CHR ''%'' then like p t \<or> (case t of [] \<Rightarrow> False | _ # t' \<Rightarrow> like (c # p) t')
      else case t of
        [] \<Rightarrow> False
      | x # t' \<Rightarrow>
          if c = CHR 0x5C then (case p of [] \<Rightarrow> False | d # p' \<Rightarrow> x = d \<and> like p' t')
          else (c = CHR ''_'' \<or> x = c) \<and> like p t')"
  by pat_completeness auto
termination
  by (relation "measure (\<lambda>(p, t). length p + length t)") auto

declare like.simps(2) [simp del]

lemma like_percent: "like (CHR ''%'' # p) t \<longleftrightarrow> (\<exists>u v. t = u @ v \<and> like p v)"
proof (induction t)
  case Nil
  show ?case by (simp add: like.simps(2))
next
  case (Cons c t)
  have "like (CHR ''%'' # p) (c # t) \<longleftrightarrow> like p (c # t) \<or> (\<exists>u v. t = u @ v \<and> like p v)"
    using Cons.IH by (simp add: like.simps(2) [of "CHR ''%''" p "c # t"])
  also have "\<dots> \<longleftrightarrow> (\<exists>u v. c # t = u @ v \<and> like p v)" by (auto simp: Cons_eq_append_conv)
  finally show ?case .
qed

lemma like_literal:
  "c \<notin> {CHR 0x5C, CHR ''%'', CHR ''_''} \<Longrightarrow> like (c # p) t \<longleftrightarrow> (\<exists>t'. t = c # t' \<and> like p t')"
  "like (CHR 0x5C # d # p) t \<longleftrightarrow> (\<exists>t'. t = d # t' \<and> like p t')"
  by (cases t, auto simp: like.simps(2))+

lemma like_escape: "like (escapeLikeLiteral s @ p) t \<longleftrightarrow> (\<exists>t'. t = s @ t' \<and> like p t')"
proof (induction s arbitrary: t)
  case Nil
  show ?case by (simp add: escapeLikeLiteral_def)
next
  case (Cons c s)
  have "escapeLikeLiteral (c # s) @ p =
      (if c \<in> {CHR 0x5C, CHR ''%'', CHR ''_''} then CHR 0x5C # c # escapeLikeLiteral s @ p
       else c # escapeLikeLiteral s @ p)"
    by (simp add: escapeLikeLiteral_def)
  with Cons.IH show ?case by (auto simp: like_literal split: if_splits)
qed

lemma contains_single: "contains s [c] \<longleftrightarrow> c \<in> set s"
  by (induction s) (auto simp: contains_def has_prefix_def split: option.splits)

section \<open>The cache of conditions\<close>

definition whereCacheMax :: nat where "whereCacheMax = 4096"

definition sortedPairs :: "strmap \<Rightarrow> strmap" where
  "sortedPairs m = map (\<lambda>k. (k, the (map_of m k))) (sort (map fst m))"

type_synonym where_query = "dwhere \<times> strmap \<times> strmap \<times> nat"

text \<open>\<open>json.Marshal\<close> of the payload is the argument \<open>enc\<close>.\<close>

definition whereCacheKey ::
    "(where_query \<Rightarrow> string + string) \<Rightarrow> codec \<Rightarrow> where_query \<Rightarrow> string + string" where
  "whereCacheKey enc cd q =
     (case q of (w, A, T, argStart) \<Rightarrow>
        case enc (w, sortedPairs A, sortedPairs T, argStart) of
          Inl e \<Rightarrow> Inl e
        | Inr b \<Rightarrow> Inr (cd_sha256 cd b))"

definition where_of_query :: "runtime \<Rightarrow> (string \<Rightarrow> string) \<Rightarrow> where_query \<Rightarrow> cond" where
  "where_of_query rt san q = (case q of (w, A, T, argStart) \<Rightarrow> BuildWhereWithTypes rt san A T w argStart)"

type_synonym where_cache = "(string, cond) memo"

definition BuildWhereWithTypesCached ::
    "(where_query \<Rightarrow> string + string) \<Rightarrow> codec \<Rightarrow> runtime \<Rightarrow> (string \<Rightarrow> string) \<Rightarrow> where_query \<Rightarrow>
      where_cache \<Rightarrow> cond \<times> where_cache" where
  "BuildWhereWithTypesCached enc cd rt san q m =
     memo_call (whereCacheKey enc cd) (where_of_query rt san) whereCacheMax q m"

text \<open>
  What the cache relies on: the digest has no collisions, and the encoding tells apart
  filters whose values are those JSON decoding produces, floats and not integers.
\<close>

fun json_value :: "goany \<Rightarrow> bool" where
  "json_value VNil = True"
| "json_value (VBool _) = True"
| "json_value (VStr _) = True"
| "json_value (VFloat f) = (\<exists>q. f = Fin q)"
| "json_value (VArr vs) = list_all json_value vs"
| "json_value _ = False"

fun json_where :: "dwhere \<Rightarrow> bool" where
  "json_where (Where t a v ws) = (json_value v \<and> list_all json_where ws)"

definition where_admitted :: "(where_query \<Rightarrow> string + string) \<Rightarrow> codec \<Rightarrow> where_query \<Rightarrow> bool" where
  "where_admitted enc cd q \<longleftrightarrow>
     inj (cd_sha256 cd) \<and>
     (\<forall>x y b. json_where (fst x) \<longrightarrow> json_where (fst y) \<longrightarrow> enc x = Inr b \<longrightarrow> enc y = Inr b \<longrightarrow> x = y) \<and>
     json_where (fst q)"

lemma map_of_sortedPairs: "map_of (sortedPairs m) = map_of m"
proof
  fix k
  have "map_of (map (\<lambda>k. (k, the (map_of m k))) ks) k = (if k \<in> set ks then map_of m k else None)"
    if "set ks \<subseteq> dom (map_of m)" for ks
    using that by (induction ks) (auto simp: domIff)
  from this [of "sort (map fst m)"]
  have "map_of (sortedPairs m) k = (if k \<in> fst ` set m then map_of m k else None)"
    by (simp add: sortedPairs_def dom_map_of_conv_image_fst)
  then show "map_of (sortedPairs m) k = map_of m k"
    using map_of_eq_None_iff [of m k] by (metis (full_types))
qed

text \<open>The condition depends on the maps' contents only, not on their order.\<close>

lemma where_cong:
  assumes "map_of A = map_of A'" "map_of T = map_of T'"
  shows "BuildWhereWithTypes rt san A T w n = BuildWhereWithTypes rt san A' T' w n"
    and "logical_parts rt san A T ws n = logical_parts rt san A' T' ws n"
  using assms
proof (induction rt san A T w n and rt san A T ws n rule: BuildWhereWithTypes_logical_parts.induct)
  case (1 rt san A T t attr val ws argStart)
  have "resolveColRefWithType san a A T = resolveColRefWithType san a A' T'" for a
    unfolding resolveColRefWithType_def "1.prems" ..
  with 1 show ?case by (simp add: leaf_cond_def)
next
  case (3 rt san A T w ws idx)
  then show ?case by (simp split: sum.splits)
qed simp_all

interpretation where_memo: memo "whereCacheKey enc cd" "where_of_query rt san" whereCacheMax "where_admitted enc cd"
  for enc cd rt san
proof
  fix x y k
  assume adm: "where_admitted enc cd x" "where_admitted enc cd y"
    and k: "whereCacheKey enc cd x = Inr k" "whereCacheKey enc cd y = Inr k"
  obtain w A T n where x: "x = (w, A, T, n)" by (cases x)
  obtain w' A' T' n' where y: "y = (w', A', T', n')" by (cases y)
  from k x y obtain b b' where b: "enc (w, sortedPairs A, sortedPairs T, n) = Inr b" "cd_sha256 cd b = k"
    "enc (w', sortedPairs A', sortedPairs T', n') = Inr b'" "cd_sha256 cd b' = k"
    by (auto simp: whereCacheKey_def split: sum.splits)
  with adm have "b = b'" by (auto simp: where_admitted_def inj_def)
  moreover have "json_where w" "json_where w'" using adm x y by (auto simp: where_admitted_def)
  ultimately have "(w, sortedPairs A, sortedPairs T, n) = (w', sortedPairs A', sortedPairs T', n')"
    using adm(1) b(1,3) unfolding where_admitted_def by simp
  then have "w = w'" "n = n'" and A: "sortedPairs A = sortedPairs A'" and T: "sortedPairs T = sortedPairs T'"
    by simp_all
  moreover have "map_of A = map_of A'" using A map_of_sortedPairs [of A] map_of_sortedPairs [of A'] by simp
  moreover have "map_of T = map_of T'" using T map_of_sortedPairs [of T] map_of_sortedPairs [of T'] by simp
  ultimately show "where_of_query rt san x = where_of_query rt san y"
    using where_cong(1) [of A A' T T' rt san w n] x y by (simp add: where_of_query_def)
qed

section \<open>Properties\<close>

text \<open>
  C3. The placeholders of a generated condition are exactly \<open>$argStart, $argStart+1, ...\<close>, each
  once and in order, one for every argument returned: the condition can be spliced into a
  query that already has \<open>argStart - 1\<close> arguments.
\<close>

theorem where_placeholders:
  assumes "BuildWhereWithTypes rt san A T w argStart = Inr (sql, args)"
  shows "phs sql = [argStart ..< argStart + length args]"
  using numbered_where(1) [OF assms] by (simp add: numbered_def)

theorem where_placeholders_witness:
  "\<exists>sql. BuildWhereWithTypes example_rt id [(''a'', ''a''), (''b'', ''b'')] []
       (Where ''AND'' [] VNil [Where ''BETWEEN'' ''a'' (VArr [VInt 1, VInt 2]) [], Where ''NEQ'' ''b'' (VStr ''x'') []]) 3 =
     Inr (sql, [VInt 1, VInt 2, VStr ''x'']) \<and> phs sql = [3, 4, 5]"
proof -
  let ?w = "Where ''AND'' [] VNil [Where ''BETWEEN'' ''a'' (VArr [VInt 1, VInt 2]) [], Where ''NEQ'' ''b'' (VStr ''x'') []]"
  have "\<exists>sql. BuildWhereWithTypes example_rt id [(''a'', ''a''), (''b'', ''b'')] [] ?w 3 =
      Inr (sql, [VInt 1, VInt 2, VStr ''x''])"
    by (simp add: leaf_cond_def leaf_types_def compare_types_def array_types_def resolveColRefWithType_def
        build_leaf_def buildWhereBetween_def buildWhereCompare_def compare_sql_def render_def frag_text_def
        isArrayPgType_def has_suffix_def trim_space_def trim_left_def to_lower_def Let_def)
  then obtain sql where sql: "BuildWhereWithTypes example_rt id [(''a'', ''a''), (''b'', ''b'')] [] ?w 3 =
      Inr (sql, [VInt 1, VInt 2, VStr ''x''])" by blast
  from where_placeholders [OF sql] have "phs sql = [3 ..< 6]" by simp
  also have "[3 ..< 6] = [3, 4, 5 :: nat]" by code_simp
  finally show ?thesis using sql by blast
qed

text \<open>
  C4. No value of a filter reaches the SQL text: every piece of the text is a fixed word of
  the generator, a reference from the table's column map, or a type from its type map; the
  values are only ever returned as arguments.
\<close>

theorem where_no_injection:
  assumes "BuildWhereWithTypes rt san A T w argStart = Inr (sql, args)"
  shows "safe_sql san A T sql"
  using safe_where(1) [OF assms] by simp

theorem where_no_injection_witness:
  "safe_sql id [(''a'', ''a'')] [] [Txt ''a'', Txt '' LIKE '', Ph 1]"
proof -
  have "BuildWhereWithTypes example_rt id [(''a'', ''a'')] [] (Where ''LIKE'' ''a'' (VStr ''x; DROP TABLE t'') []) 1 =
      Inr ([Txt ''a'', Txt '' LIKE '', Ph 1], [VStr ''%x; DROP TABLE t%''])"
    by code_simp
  from where_no_injection [OF this] show ?thesis .
qed

text \<open>
  C18. The pattern of a \<open>LIKE\<close> filter: for a text without a percent sign it matches exactly the
  texts that contain it; a text with one is only escaped, so that it matches nothing but itself.
\<close>

theorem like_contains:
  "likeContainsPattern (VStr s) = VStr p \<Longrightarrow>
     like p t \<longleftrightarrow> (if CHR ''%'' \<in> set s then t = s else \<exists>u v. t = u @ s @ v)"
proof -
  assume p: "likeContainsPattern (VStr s) = VStr p"
  show ?thesis
  proof (cases "CHR ''%'' \<in> set s")
    case True
    with p have "p = escapeLikeLiteral s" by (simp add: likeContainsPattern_def contains_single)
    then show ?thesis using True like_escape [of s "[]" t] by simp
  next
    case False
    with p have p': "p = CHR ''%'' # escapeLikeLiteral s @ [CHR ''%'']"
      by (simp add: likeContainsPattern_def contains_single)
    have "like p t \<longleftrightarrow> (\<exists>u v. t = u @ s @ v \<and> like [CHR ''%''] v)"
      unfolding p' by (auto simp: like_percent like_escape)
    then show ?thesis using False by (simp add: like_percent)
  qed
qed

theorem like_contains_witness: "\<forall>t. like ''%a%'' t \<longleftrightarrow> (\<exists>u v. t = u @ ''a'' @ v)"
  using like_contains [of "''a''" "''%a%''"] by (simp add: likeContainsPattern_def contains_single escapeLikeLiteral_def)



end
