(* ===== verification/Shared_Config.thy ===== *)
theory Shared_Config
  imports Column_Types Formula_Deps Formula_Eval Example_Runtime
begin

text \<open>
  Configuration of virtual columns (\<open>internal/service/shared\<close>: \<open>config.go\<close>, \<open>result_type.go\<close>,
  \<open>virtual.go\<close>, \<open>column_type_migrate.go\<close>): reading settings, the normal form of a link's
  configuration, validation of rollups, names of tables and columns, and the value type of
  formulas, lookups and rollups.
\<close>

section \<open>Reading settings\<close>

definition CfgString :: "runtime \<Rightarrow> goobj \<Rightarrow> string \<Rightarrow> string" where
  "CfgString rt cfg key =
     (case obj_get cfg key of VNil \<Rightarrow> [] | VStr t \<Rightarrow> trim_space t | v \<Rightarrow> trim_space (sprint rt v))"

definition CfgBool :: "goobj \<Rightarrow> string \<Rightarrow> bool" where
  "CfgBool cfg key =
     (case obj_get cfg key of VBool b \<Rightarrow> b | VStr t \<Rightarrow> t = ''true'' \<or> t = ''1'' | _ \<Rightarrow> False)"

definition NullJSON :: "string \<Rightarrow> goany" where
  "NullJSON b = (if b = [] then VNil else VBytes b)"

definition ValidateLinkedFilter :: "goobj \<Rightarrow> string + unit" where
  "ValidateLinkedFilter cfg =
     (case obj_get cfg ''filter'' of
        VNil \<Rightarrow> Inr ()
      | VObj _ \<Rightarrow> Inr ()
      | _ \<Rightarrow> Inl ''filter must be a JSON object'')"

definition ValidateRollupConfig :: "runtime \<Rightarrow> goobj \<Rightarrow> string + unit" where
  "ValidateRollupConfig rt cfg =
     (let rel = (let r = CfgString rt cfg ''relation_column_id'' in
                 if r = [] then CfgString rt cfg ''link_field_id'' else r) in
      if rel = [] then Inl ''rollup config requires link_field_id (or relation_column_id)''
      else
        let agg = (let a = CfgString rt cfg ''aggregate'' in
                   if a = [] then CfgString rt cfg ''aggregation'' else a) in
        if agg = [] then Inl ''rollup config requires aggregation (sum|count|min|max|avg)''
        else if agg \<in> {''sum'', ''count'', ''min'', ''max'', ''avg'', ''SUM'', ''COUNT'', ''MIN'', ''MAX'', ''AVG''}
        then ValidateLinkedFilter cfg
        else Inl (''rollup aggregate '' @ agg @ '' not supported''))"

section \<open>Links\<close>

definition InverseLinkCardinality :: "string \<Rightarrow> string" where
  "InverseLinkCardinality c = (if to_lower (trim_space c) = ''one'' then ''many'' else ''one'')"

definition LinkInverseFieldKey :: "runtime \<Rightarrow> goobj \<Rightarrow> string" where
  "LinkInverseFieldKey rt cfg =
     (let name = CfgString rt cfg ''inverse_field_name'' in
      if name \<noteq> [] then name else CfgString rt cfg ''inverse_field_id'')"

text \<open>\<open>if _, ok := out[k]; !ok { out[k] = v }\<close>\<close>

definition put_default :: "string \<Rightarrow> goany \<Rightarrow> goobj \<Rightarrow> goobj" where
  "put_default k v m = (if map_has k m then m else map_put k v m)"

text \<open>The first part: internal keys are dropped and the two names of the target table completed.\<close>

definition link_targets :: "runtime \<Rightarrow> goobj \<Rightarrow> goobj" where
  "link_targets rt cfg =
     (let o1 = map_del ''_skip_inverse_delete'' (map_del ''_skip_inverse'' cfg);
          t = CfgString rt o1 ''to_table_name'';
          o2 = (if CfgString rt o1 ''target_table_name'' = [] \<and> t \<noteq> []
                then map_put ''target_table_name'' (VStr t) o1 else o1);
          t' = CfgString rt o2 ''target_table_name''
      in if CfgString rt o2 ''to_table_name'' = [] \<and> t' \<noteq> [] then map_put ''to_table_name'' (VStr t') o2 else o2)"

text \<open>The branch for links kept in \<open>link_ref\<close>: cardinality, direction, cardinality of the inverse.\<close>

definition link_ref_config :: "runtime \<Rightarrow> goobj \<Rightarrow> goobj" where
  "link_ref_config rt out =
     (let o1 = map_put ''cardinality''
            (VStr (if to_lower (CfgString rt out ''cardinality'') = ''one'' then ''one'' else ''many'')) out;
          o2 = put_default ''bidirectional'' (VBool True) o1;
          inv = to_lower (CfgString rt o2 ''inverse_cardinality'')
      in if inv = ''one'' \<or> inv = ''many'' then map_put ''inverse_cardinality'' (VStr inv) o2
         else if CfgBool o2 ''bidirectional'' then
           map_put ''inverse_cardinality'' (VStr (InverseLinkCardinality (CfgString rt o2 ''cardinality''))) o2
         else o2)"

definition NormalizeRelationshipConfig :: "runtime \<Rightarrow> goobj \<Rightarrow> string + goobj" where
  "NormalizeRelationshipConfig rt cfg =
     (let out = link_targets rt cfg in
      if CfgString rt out ''target_table_name'' = []
      then Inl ''link/relationship config requires to_table_name (or target_table_name)''
      else
        let linkID = CfgString rt out ''link_column_id'';
            targetColID = CfgString rt out ''target_column_id'';
            card = to_lower (CfgString rt out ''cardinality'')
        in if linkID = [] \<and> targetColID = [] then Inr (link_ref_config rt out)
           else if linkID \<noteq> [] \<and> targetColID \<noteq> []
           then Inl ''relationship config: set only one of link_column_id (many) or target_column_id (one), not both''
           else if linkID \<noteq> [] then
             (if card = ''one'' then Inl ''relationship cardinality one requires target_column_id, not link_column_id''
              else Inr (put_default ''bidirectional'' (VBool False)
                     (map_del ''target_column_id'' (map_put ''cardinality'' (VStr ''many'') out))))
           else if card = ''many'' then Inl ''relationship cardinality many requires link_column_id''
           else Inr (put_default ''bidirectional'' (VBool False)
                  (map_del ''link_column_id'' (map_put ''cardinality'' (VStr ''one'') out))))"

definition EffectiveRelationshipCardinality :: "runtime \<Rightarrow> goobj \<Rightarrow> string \<Rightarrow> string \<Rightarrow> string" where
  "EffectiveRelationshipCardinality rt cfg linkID targetColID =
     (let c = to_lower (CfgString rt cfg ''cardinality'') in
      if c = ''one'' \<or> c = ''many'' then c
      else if linkID \<noteq> [] \<and> targetColID \<noteq> [] then ''many''
      else if linkID \<noteq> [] then ''many''
      else ''one'')"

section \<open>Names\<close>

text \<open>\<open>^[a-zA-Z_][a-zA-Z0-9_]{0,62}$\<close>\<close>

definition pg_object_name :: "string \<Rightarrow> bool" where
  "pg_object_name s = (is_ident s \<and> length s \<le> 63)"

definition ValidateTableName :: "string \<Rightarrow> string + unit" where
  "ValidateTableName name =
     (if name = [] then Inl ''name is required''
      else if \<not> pg_object_name name then Inl ''name must match (English identifier, PG-compatible)''
      else Inr ())"

definition ValidateColumnName :: "string \<Rightarrow> string + unit" where
  "ValidateColumnName name =
     (case ValidateTableName name of
        Inl e \<Rightarrow> Inl e
      | Inr _ \<Rightarrow> if equal_fold name ''id'' then Inl ''column name is reserved (row primary key)'' else Inr ())"

section \<open>Value types\<close>

definition ConfigResultTypeID :: "runtime \<Rightarrow> goobj \<Rightarrow> string" where
  "ConfigResultTypeID rt cfg = CfgString rt cfg ''result_type_id''"

definition SetConfigResultTypeID :: "goobj \<Rightarrow> string \<Rightarrow> goobj" where
  "SetConfigResultTypeID cfg t =
     (if trim_space t = [] then cfg else map_put ''result_type_id'' (VStr (trim_space t)) cfg)"

definition IsNumericResultType :: "string \<Rightarrow> bool" where
  "IsNumericResultType t = (CanonicalID t = ''number'')"

definition IsDateTimeResultType :: "string \<Rightarrow> bool" where
  "IsDateTimeResultType t = (CanonicalID t = ''datetime'')"

definition ValidateResultTypeID :: "string \<Rightarrow> string + unit" where
  "ValidateResultTypeID t0 =
     (let t = trim_space t0 in
      if t = [] then Inl ''result_type_id is empty''
      else (case GetPgType t of
          None \<Rightarrow> Inl ''unknown result_type_id''
        | Some e \<Rightarrow> if pt_Kind e \<noteq> [] then Inl ''unknown result_type_id'' else Inr ()))"

definition isIdentChar :: "char \<Rightarrow> bool" where
  "isIdentChar b = (char_in CHR ''A'' CHR ''Z'' b \<or> char_in CHR ''0'' CHR ''9'' b \<or> b = CHR ''_'')"

text \<open>
  \<open>hasCall\<close>: the loop over the occurrences of \<open>name(\<close>; \<open>prev\<close> is the character before the
  rest of the text, if any.
\<close>

fun has_call :: "char option \<Rightarrow> string \<Rightarrow> string \<Rightarrow> bool" where
  "has_call prev [] needle = False"
| "has_call prev (c # s) needle =
     (if has_prefix (c # s) needle \<and> (case prev of None \<Rightarrow> True | Some b \<Rightarrow> \<not> isIdentChar b) then True
      else has_call (Some c) s needle)"

definition hasCall :: "string \<Rightarrow> string \<Rightarrow> bool" where
  "hasCall upperExpr name = has_call None upperExpr (name @ ''('')"

definition InferFormulaResultTypeId :: "string \<Rightarrow> string" where
  "InferFormulaResultTypeId expr =
     (let e = trim_space expr; u = to_upper e in
      if e = [] then ''number''
      else if hasCall u ''ISBLANK'' then ''boolean''
      else if list_ex (hasCall u) [''DATEDIF'', ''YEAR'', ''MONTH'', ''DAY'', ''LEN'', ''MIN'', ''MAX'', ''INT'', ''WEEKDAY'']
      then ''number''
      else if list_ex (hasCall u) [''CONCAT'', ''TEXT'', ''LOWER'', ''UPPER'', ''TRIM''] then ''text''
      else if list_ex (hasCall u) [''DATEVALUE'', ''DATE'', ''TODAY'', ''NOW''] then ''datetime''
      else if hasCall u ''MID'' then ''text''
      else if contains_any e [CHR 0x22, CHR 0x27] then ''text''
      else ''number'')"

definition RollupResultTypeId :: "string \<Rightarrow> string \<Rightarrow> string" where
  "RollupResultTypeId aggregate targetResultType =
     (let agg = to_lower (trim_space aggregate);
          target = (let t = trim_space targetResultType in if t = [] then ''number'' else t)
      in if agg = ''count'' then ''number''
         else if agg = ''sum'' \<or> agg = ''avg'' then (if IsNumericResultType target then ''number'' else target)
         else if agg = ''min'' \<or> agg = ''max'' then target
         else ''number'')"

definition LookupManyResultTypeID :: "string \<Rightarrow> string" where
  "LookupManyResultTypeID scalar = CanonicalID scalar"

definition ResultTypeIDToPgType :: "string \<Rightarrow> string" where
  "ResultTypeIDToPgType t =
     (let c = CanonicalID (trim_space t) in
      if c = ''number'' then ''numeric''
      else if c = ''datetime'' then ''timestamptz''
      else if c = ''boolean'' then ''boolean''
      else if c = ''jsonb'' then ''jsonb''
      else (case GetPgType t of Some e \<Rightarrow> if pt_PgType e \<noteq> [] then pt_PgType e else ''text'' | None \<Rightarrow> ''text''))"

definition FormulaExpression :: "runtime \<Rightarrow> goobj \<Rightarrow> string" where
  "FormulaExpression rt cfg =
     (let e = CfgString rt cfg ''expression'' in if e \<noteq> [] then e else CfgString rt cfg ''formula'')"

definition VirtualColumnPgType :: "runtime \<Rightarrow> string \<Rightarrow> goobj \<Rightarrow> string" where
  "VirtualColumnPgType rt typeID cfg =
     (let kind = Kind typeID; t = ConfigResultTypeID rt cfg in
      if kind = ''formula'' then
        ResultTypeIDToPgType (if t = [] then InferFormulaResultTypeId (FormulaExpression rt cfg) else t)
      else if kind = ''lookup'' then ResultTypeIDToPgType (if t = [] then ''text'' else t)
      else if kind = ''rollup'' then ResultTypeIDToPgType (if t = [] then ''number'' else t)
      else [])"

definition ScalarPgTypeToArray :: "string \<Rightarrow> string" where
  "ScalarPgTypeToArray pg0 =
     (let pg = trim_space pg0; l = to_lower pg in
      if has_suffix pg ''[]'' then pg
      else if l = ''bigint'' \<or> l = ''int8'' then ''bigint[]''
      else if l = ''double precision'' \<or> l = ''float8'' then ''double precision[]''
      else if l = ''boolean'' \<or> l = ''bool'' then ''boolean[]''
      else if l = ''uuid'' then ''uuid[]''
      else if l = ''timestamptz'' \<or> l = ''timestamp with time zone'' then ''timestamptz[]''
      else if l = ''jsonb'' \<or> l = ''json'' then ''jsonb[]''
      else if l = ''numeric'' then ''numeric[]''
      else ''text[]'')"

section \<open>Virtual columns\<close>

record full_column_meta =
  fc_Id :: string
  fc_TableName :: string
  fc_Name :: string
  fc_TypeId :: string
  fc_Kind :: string
  fc_PgType :: string
  fc_IsNullable :: bool
  fc_Position :: int
  fc_Config :: goobj
  fc_IsVirtual :: bool

definition CompileFormulaExpression :: "runtime \<Rightarrow> string \<Rightarrow> string set \<Rightarrow> perr + string" where
  "CompileFormulaExpression rt expr known =
     (case Validate rt expr (Some known) of Inl e \<Rightarrow> Inl e | Inr _ \<Rightarrow> Inr expr)"

definition FormulaDefs :: "runtime \<Rightarrow> full_column_meta list \<Rightarrow> fdef list" where
  "FormulaDefs rt cols =
     map (\<lambda>c. \<lparr>Name = fc_Name c, Expr = FormulaExpression rt (fc_Config c)\<rparr>)
       (filter (\<lambda>c. fc_Kind c = ''formula'' \<and> FormulaExpression rt (fc_Config c) \<noteq> []) cols)"

definition FormulaRefAllowed :: "string \<Rightarrow> bool" where
  "FormulaRefAllowed kind =
     (if kind \<in> {''formula'', ''lookup'', ''rollup''} then True else \<not> IsVirtualKind kind)"

definition LookupTargetAllowed :: "string \<Rightarrow> bool" where
  "LookupTargetAllowed kind =
     (if kind \<in> {''formula'', ''lookup'', ''rollup''} then True else \<not> IsVirtualKind kind)"

definition EffectivePgType :: "string \<Rightarrow> goobj \<Rightarrow> string" where
  "EffectivePgType pgType cfg =
     (case obj_get cfg ''precision'' of
        VFloat p \<Rightarrow>
          (let scale = (case obj_get cfg ''scale'' of VFloat s \<Rightarrow> s | _ \<Rightarrow> Fin 0);
               scale' = (if f64_eq scale (Fin 0) then Fin 6 else scale)
           in ''numeric('' @ itoa (int_of_float p) @ '','' @ itoa (int_of_float scale') @ '')'')
      | _ \<Rightarrow> pgType)"

section \<open>Changing a column's storage type\<close>

definition IsNumericPgType :: "string \<Rightarrow> bool" where
  "IsNumericPgType pg =
     (pg \<in> {''bigint'', ''integer'', ''smallint'', ''double precision'', ''real''} \<or> has_prefix pg ''numeric'')"

definition IsTextLikePgType :: "string \<Rightarrow> bool" where
  "IsTextLikePgType pg = (pg = ''text'' \<or> pg = ''varchar'' \<or> has_prefix pg ''character varying'')"

section \<open>The normal form of a link configuration\<close>

lemma obj_get_put [simp]: "obj_get (map_put k v m) k' = (if k' = k then v else obj_get m k')"
  by (simp add: obj_get_def)

lemma obj_get_del [simp]: "obj_get (map_del k m) k' = (if k' = k then VNil else obj_get m k')"
  by (simp add: obj_get_def)

lemma CfgString_put [simp]:
  "CfgString rt (map_put k (VStr s) m) k' = (if k' = k then trim_space s else CfgString rt m k')"
  "k' \<noteq> k \<Longrightarrow> CfgString rt (map_put k v m) k' = CfgString rt m k'"
  by (simp_all add: CfgString_def)

lemma CfgString_del [simp]: "CfgString rt (map_del k m) k' = (if k' = k then [] else CfgString rt m k')"
  by (simp add: CfgString_def)

lemma CfgString_default [simp]: "k' \<noteq> k \<Longrightarrow> CfgString rt (put_default k v m) k' = CfgString rt m k'"
  by (simp add: put_default_def)

lemma CfgString_trim [simp]: "trim_space (CfgString rt m k) = CfgString rt m k"
  by (simp add: CfgString_def split: goany.splits)

lemma map_has_put [simp]: "map_has k' (map_put k v m) \<longleftrightarrow> k' = k \<or> map_has k' m"
  by (auto simp: map_has_def)

lemma map_has_del [simp]: "map_has k' (map_del k m) \<longleftrightarrow> k' \<noteq> k \<and> map_has k' m"
  by (auto simp: map_has_def)

lemma map_has_default [simp]: "map_has k' (put_default k v m) \<longleftrightarrow> k' = k \<or> map_has k' m"
  by (auto simp: put_default_def)

text \<open>Writing what is there already changes nothing.\<close>

lemma map_put_same: "map_of m k = Some v \<Longrightarrow> map_put k v m = m"
  by (induction k v m rule: map_put.induct) (auto split: if_splits)

lemma map_put_get: "obj_get m k = v \<Longrightarrow> v \<noteq> VNil \<Longrightarrow> map_put k v m = m"
  by (auto simp: obj_get_def split: option.splits intro: map_put_same)

lemma map_del_absent: "\<not> map_has k m \<Longrightarrow> map_del k m = m"
  by (force simp: map_del_def map_has_iff intro: filter_True)

lemma put_default_has: "map_has k m \<Longrightarrow> put_default k v m = m"
  by (simp add: put_default_def)

text \<open>Both table names are set, the internal keys are gone.\<close>

definition targets_set :: "runtime \<Rightarrow> goobj \<Rightarrow> bool" where
  "targets_set rt m \<longleftrightarrow>
     CfgString rt m ''target_table_name'' \<noteq> [] \<and> CfgString rt m ''to_table_name'' \<noteq> [] \<and>
     \<not> map_has ''_skip_inverse'' m \<and> \<not> map_has ''_skip_inverse_delete'' m"

lemma link_targets_set: "CfgString rt (link_targets rt cfg) ''target_table_name'' \<noteq> [] \<Longrightarrow> targets_set rt (link_targets rt cfg)"
proof -
  let ?a = "CfgString rt cfg ''target_table_name''" and ?b = "CfgString rt cfg ''to_table_name''"
  assume h: "CfgString rt (link_targets rt cfg) ''target_table_name'' \<noteq> []"
  show ?thesis
    using h by (cases "?a = []"; cases "?b = []") (simp_all add: link_targets_def targets_set_def Let_def)
qed

lemma link_targets_id: "targets_set rt m \<Longrightarrow> link_targets rt m = m"
  by (simp add: link_targets_def targets_set_def map_del_absent Let_def)

lemma targets_set_other:
  assumes "\<forall>k \<in> {''target_table_name'', ''to_table_name''}. CfgString rt m' k = CfgString rt m k"
    and "\<forall>k \<in> {''_skip_inverse'', ''_skip_inverse_delete''}. map_has k m' = map_has k m"
  shows "targets_set rt m' = targets_set rt m"
  using assms by (simp add: targets_set_def)

lemma card_words [simp]:
  "trim_space ''one'' = ''one''" "trim_space ''many'' = ''many''"
  "to_lower ''one'' = ''one''" "to_lower ''many'' = ''many''"
  by code_simp+

lemma InverseLinkCardinality_range: "InverseLinkCardinality c \<in> {''one'', ''many''}"
  by (simp add: InverseLinkCardinality_def)

lemma link_ref_shape:
  obtains c inv where "c \<in> {''one'', ''many''}"
    and "link_ref_config rt m =
      (case inv of
         None \<Rightarrow> put_default ''bidirectional'' (VBool True) (map_put ''cardinality'' (VStr c) m)
       | Some i \<Rightarrow> map_put ''inverse_cardinality'' (VStr i)
           (put_default ''bidirectional'' (VBool True) (map_put ''cardinality'' (VStr c) m)))"
    and "inv = None \<longrightarrow> to_lower (CfgString rt m ''inverse_cardinality'') \<notin> {''one'', ''many''} \<and>
      \<not> CfgBool (link_ref_config rt m) ''bidirectional''"
    and "\<forall>i. inv = Some i \<longrightarrow> i \<in> {''one'', ''many''}"
proof -
  define c where "c = (if to_lower (CfgString rt m ''cardinality'') = ''one'' then ''one'' else ''many'')"
  define o2 where "o2 = put_default ''bidirectional'' (VBool True) (map_put ''cardinality'' (VStr c) m)"
  define i where "i = to_lower (CfgString rt m ''inverse_cardinality'')"
  have i2: "to_lower (CfgString rt o2 ''inverse_cardinality'') = i" by (simp add: o2_def i_def)
  have cfg: "link_ref_config rt m =
      (if i = ''one'' \<or> i = ''many'' then map_put ''inverse_cardinality'' (VStr i) o2
       else if CfgBool o2 ''bidirectional'' then
         map_put ''inverse_cardinality'' (VStr (InverseLinkCardinality (CfgString rt o2 ''cardinality''))) o2
       else o2)"
    unfolding link_ref_config_def Let_def c_def [symmetric] o2_def [symmetric] i2 ..
  have c: "c \<in> {''one'', ''many''}" by (simp add: c_def)
  consider "i = ''one'' \<or> i = ''many''" | "i \<notin> {''one'', ''many''}" "CfgBool o2 ''bidirectional''"
    | "i \<notin> {''one'', ''many''}" "\<not> CfgBool o2 ''bidirectional''" by blast
  then show ?thesis
  proof cases
    case 1
    then show ?thesis using c cfg by (intro that [of c "Some i"]) (auto simp: o2_def)
  next
    case 2
    then show ?thesis
      using c cfg InverseLinkCardinality_range
      by (intro that [of c "Some (InverseLinkCardinality (CfgString rt o2 ''cardinality''))"]) (auto simp: o2_def)
  next
    case 3
    then show ?thesis using c cfg i_def by (intro that [of c None]) (auto simp: o2_def)
  qed
qed

lemma link_ref_facts:
  assumes m: "targets_set rt m"
  shows "targets_set rt (link_ref_config rt m)" "map_has ''bidirectional'' (link_ref_config rt m)"
    "CfgString rt (link_ref_config rt m) ''cardinality'' \<in> {''one'', ''many''}"
    "CfgString rt (link_ref_config rt m) ''link_column_id'' = CfgString rt m ''link_column_id''"
    "CfgString rt (link_ref_config rt m) ''target_column_id'' = CfgString rt m ''target_column_id''"
    "link_ref_config rt (link_ref_config rt m) = link_ref_config rt m"
proof -
  obtain c inv where c: "c \<in> {''one'', ''many''}"
    and out: "link_ref_config rt m =
      (case inv of
         None \<Rightarrow> put_default ''bidirectional'' (VBool True) (map_put ''cardinality'' (VStr c) m)
       | Some i \<Rightarrow> map_put ''inverse_cardinality'' (VStr i)
           (put_default ''bidirectional'' (VBool True) (map_put ''cardinality'' (VStr c) m)))"
    and none: "inv = None \<longrightarrow> to_lower (CfgString rt m ''inverse_cardinality'') \<notin> {''one'', ''many''} \<and>
      \<not> CfgBool (link_ref_config rt m) ''bidirectional''"
    and some: "\<forall>i. inv = Some i \<longrightarrow> i \<in> {''one'', ''many''}"
    by (rule link_ref_shape [of rt m])
  let ?out = "link_ref_config rt m"
  have cfg: "CfgString rt ?out k = CfgString rt m k"
    if "k \<noteq> ''cardinality''" "k \<noteq> ''inverse_cardinality''" "k \<noteq> ''bidirectional''" for k
    using that by (cases inv) (simp_all add: out)
  have has: "map_has k ?out = map_has k m"
    if "k \<noteq> ''cardinality''" "k \<noteq> ''inverse_cardinality''" "k \<noteq> ''bidirectional''" for k
    using that by (cases inv) (simp_all add: out)
  show "targets_set rt ?out" using m targets_set_other [of rt ?out m] by (simp add: cfg has)
  show bi: "map_has ''bidirectional'' ?out" by (cases inv) (simp_all add: out)
  have getc: "obj_get ?out ''cardinality'' = VStr c" by (cases inv) (simp_all add: out put_default_def)
  then have card: "CfgString rt ?out ''cardinality'' = c" using c by (auto simp: CfgString_def)
  with c show "CfgString rt ?out ''cardinality'' \<in> {''one'', ''many''}" by simp
  show "CfgString rt ?out ''link_column_id'' = CfgString rt m ''link_column_id''"
    "CfgString rt ?out ''target_column_id'' = CfgString rt m ''target_column_id''"
    by (simp_all add: cfg)
  have c': "(if to_lower c = ''one'' then ''one'' else ''many'') = c" using c by auto
  have o1: "map_put ''cardinality'' (VStr (if to_lower (CfgString rt ?out ''cardinality'') = ''one''
      then ''one'' else ''many'')) ?out = ?out"
    unfolding card c' using getc by (simp add: map_put_get)
  show "link_ref_config rt ?out = ?out"
  proof (cases inv)
    case None
    have "CfgString rt ?out ''inverse_cardinality'' = CfgString rt m ''inverse_cardinality''"
      using None by (simp add: out)
    with none None show ?thesis
      unfolding link_ref_config_def [of rt ?out] Let_def o1 put_default_has [OF bi] by simp
  next
    case (Some i)
    have get: "obj_get ?out ''inverse_cardinality'' = VStr i" using Some by (simp add: out)
    have i: "to_lower (CfgString rt ?out ''inverse_cardinality'') = i" "i = ''one'' \<or> i = ''many''"
      using some Some get by (auto simp: CfgString_def)
    show ?thesis
      unfolding link_ref_config_def [of rt ?out] Let_def o1 put_default_has [OF bi] i(1)
      using i(2) get by (auto simp: map_put_get)
  qed
qed

text \<open>The branches for a foreign key column, \<open>keep\<close> being the column that is set.\<close>

definition fk_config :: "string \<Rightarrow> string \<Rightarrow> goobj \<Rightarrow> goobj" where
  "fk_config c other m =
     put_default ''bidirectional'' (VBool False) (map_del other (map_put ''cardinality'' (VStr c) m))"

lemma fk_config_facts:
  assumes m: "targets_set rt m" and c: "c \<in> {''one'', ''many''}"
    and other: "other = ''link_column_id'' \<or> other = ''target_column_id''"
  shows "targets_set rt (fk_config c other m)" "map_has ''bidirectional'' (fk_config c other m)"
    "CfgString rt (fk_config c other m) ''cardinality'' = c"
    "CfgString rt (fk_config c other m) other = []"
    "k \<noteq> other \<Longrightarrow> k = ''link_column_id'' \<or> k = ''target_column_id'' \<Longrightarrow>
       CfgString rt (fk_config c other m) k = CfgString rt m k"
    "fk_config c other (fk_config c other m) = fk_config c other m"
proof -
  let ?out = "fk_config c other m"
  have cfg: "CfgString rt ?out k = CfgString rt m k"
    if "k \<noteq> ''cardinality''" "k \<noteq> other" "k \<noteq> ''bidirectional''" for k
    using that by (simp add: fk_config_def)
  have has: "map_has k ?out = map_has k m"
    if "k \<noteq> ''cardinality''" "k \<noteq> other" "k \<noteq> ''bidirectional''" for k
    using that by (simp add: fk_config_def)
  show "targets_set rt ?out"
  proof -
    have "''target_table_name'' \<noteq> other \<and> ''to_table_name'' \<noteq> other \<and>
        ''_skip_inverse'' \<noteq> other \<and> ''_skip_inverse_delete'' \<noteq> other"
      using other by (elim disjE) simp_all
    then show ?thesis using m targets_set_other [of rt ?out m] by (simp add: cfg has)
  qed
  show bi: "map_has ''bidirectional'' ?out" by (simp add: fk_config_def)
  have getc: "obj_get ?out ''cardinality'' = VStr c" using other by (auto simp: fk_config_def put_default_def)
  then show "CfgString rt ?out ''cardinality'' = c" using c by (auto simp: CfgString_def)
  show "CfgString rt ?out other = []" using other by (auto simp: fk_config_def)
  show "k \<noteq> other \<Longrightarrow> k = ''link_column_id'' \<or> k = ''target_column_id'' \<Longrightarrow> CfgString rt ?out k = CfgString rt m k"
    by (auto simp: cfg)
  have "\<not> map_has other ?out" using other by (auto simp: fk_config_def)
  then show "fk_config c other ?out = ?out"
    unfolding fk_config_def [of c other ?out] using getc bi
    by (simp add: map_put_get map_del_absent put_default_has)
qed

lemma Normalize_targets_set:
  assumes "targets_set rt m"
  shows "NormalizeRelationshipConfig rt m =
    (let linkID = CfgString rt m ''link_column_id''; targetColID = CfgString rt m ''target_column_id'';
         c = to_lower (CfgString rt m ''cardinality'')
     in if linkID = [] \<and> targetColID = [] then Inr (link_ref_config rt m)
        else if linkID \<noteq> [] \<and> targetColID \<noteq> []
        then Inl ''relationship config: set only one of link_column_id (many) or target_column_id (one), not both''
        else if linkID \<noteq> [] then
          (if c = ''one'' then Inl ''relationship cardinality one requires target_column_id, not link_column_id''
           else Inr (fk_config ''many'' ''target_column_id'' m))
        else if c = ''many'' then Inl ''relationship cardinality many requires link_column_id''
        else Inr (fk_config ''one'' ''link_column_id'' m))"
  using assms unfolding NormalizeRelationshipConfig_def link_targets_id [OF assms] fk_config_def
  by (simp add: targets_set_def Let_def)

section \<open>Calls in an expression\<close>

lemma has_call_iff:
  "has_call prev s needle \<longleftrightarrow>
     (\<exists>pre post. s = pre @ needle @ post \<and> s \<noteq> pre \<and>
        (case pre of [] \<Rightarrow> (case prev of None \<Rightarrow> True | Some b \<Rightarrow> \<not> isIdentChar b) | _ \<Rightarrow> \<not> isIdentChar (last pre)))"
  if "needle \<noteq> []"
proof (induction prev s needle rule: has_call.induct)
  case (1 prev needle)
  show ?case by auto
next
  case (2 prev c s needle)
  let ?ok = "\<lambda>prev pre. case pre of [] \<Rightarrow> (case prev of None \<Rightarrow> True | Some b \<Rightarrow> \<not> isIdentChar b)
    | _ \<Rightarrow> \<not> isIdentChar (last pre)"
  have shift: "?ok prev (c # pre) = ?ok (Some c) pre" for pre by (cases pre) auto
  have "(\<exists>pre post. c # s = pre @ needle @ post \<and> c # s \<noteq> pre \<and> ?ok prev pre) \<longleftrightarrow>
      (\<exists>post. c # s = needle @ post \<and> ?ok prev []) \<or>
      (\<exists>pre post. s = pre @ needle @ post \<and> s \<noteq> pre \<and> ?ok (Some c) pre)" (is "?L \<longleftrightarrow> ?R")
  proof
    assume ?L
    then obtain pre post where p: "c # s = pre @ needle @ post" "c # s \<noteq> pre" "?ok prev pre" by blast
    show ?R
    proof (cases pre)
      case Nil
      with p show ?thesis by auto
    next
      case (Cons d pre')
      with p have "s = pre' @ needle @ post" "s \<noteq> pre'" "?ok (Some c) pre'" using shift [of pre'] by auto
      then show ?thesis by blast
    qed
  next
    assume ?R
    then show ?L
    proof
      assume "\<exists>post. c # s = needle @ post \<and> ?ok prev []"
      then show ?L by (metis append_Nil list.simps(3))
    next
      assume "\<exists>pre post. s = pre @ needle @ post \<and> s \<noteq> pre \<and> ?ok (Some c) pre"
      then obtain pre post where "s = pre @ needle @ post" "s \<noteq> pre" "?ok (Some c) pre" by blast
      then have "c # s = (c # pre) @ needle @ post" "c # s \<noteq> c # pre" "?ok prev (c # pre)"
        using shift [of pre] by auto
      then show ?L by blast
    qed
  qed
  moreover have "has_prefix (c # s) needle \<longleftrightarrow> (\<exists>post. c # s = needle @ post)" by (rule has_prefix_iff)
  ultimately show ?case using 2 by auto
qed

section \<open>Properties\<close>



text \<open>
  C21. \<open>hasCall\<close> finds exactly the places where the function name stands as a whole word before
  an opening parenthesis: at the start of the text or after a character that cannot belong to
  a name. An occurrence inside a longer name never hides a later proper one.
\<close>

theorem hasCall_exact:
  "hasCall u name \<longleftrightarrow>
     (\<exists>before after. u = before @ name @ ''('' @ after \<and> (if before = [] then True else \<not> isIdentChar (last before)))"
proof -
  let ?n = "name @ ''(''"
  have ne: "?n \<noteq> []" by simp
  have "(u = pre @ ?n @ post \<and> u \<noteq> pre \<and>
        (case pre of [] \<Rightarrow> (case None of None \<Rightarrow> True | Some b \<Rightarrow> \<not> isIdentChar b) | _ \<Rightarrow> \<not> isIdentChar (last pre))) =
      (u = pre @ name @ ''('' @ post \<and> (if pre = [] then True else \<not> isIdentChar (last pre)))" for pre post
    by (cases pre) auto
  then show ?thesis unfolding hasCall_def has_call_iff [OF ne] by (simp only:)
qed

lemma InferFormulaResultTypeId_range:
  "InferFormulaResultTypeId e \<in> {''number'', ''boolean'', ''text'', ''datetime''}"
  unfolding InferFormulaResultTypeId_def Let_def by (intro if_mem insertI1 insertI2)

text \<open>
  The type guessed for a formula is always one that the validation of result types accepts,
  and a formula column without an explicit type gets one of four storage types.
\<close>

lemma inferred_type_valid:
  "ValidateResultTypeID (InferFormulaResultTypeId e) = Inr () \<and>
   ResultTypeIDToPgType (InferFormulaResultTypeId e) \<in> {''numeric'', ''boolean'', ''text'', ''timestamptz''}"
proof -
  have "\<forall>t \<in> set [''number'', ''boolean'', ''text'', ''datetime'']. ValidateResultTypeID t = Inr () \<and>
      ResultTypeIDToPgType t \<in> {''numeric'', ''boolean'', ''text'', ''timestamptz''}" by code_simp
  moreover have "InferFormulaResultTypeId e \<in> set [''number'', ''boolean'', ''text'', ''datetime'']"
    using InferFormulaResultTypeId_range [of e] by simp
  ultimately show ?thesis by (rule bspec)
qed

text \<open>
  The guess looks only at which functions occur: a formula that joins a text with a length
  is typed \<open>number\<close> although it always evaluates to a text.
\<close>

lemma inferred_type_wrong:
  "InferFormulaResultTypeId (''CONCAT({a}, LEN({a}))'') = ''number'' \<and>
   Eval example_rt [(''a'', VStr ''x'')] (CallNode ''CONCAT'' [RefNode ''a'', CallNode ''LEN'' [RefNode ''a'']]) =
     Inr (VStr ''x1'')"
  by code_simp

end
