(* ===== verification/Calc_DB.thy ===== *)
theory Calc_DB
  imports Shared_Config Filter_DSL
begin

text \<open>
  The data store behind the calculation of virtual columns (\<open>internal/service/calc\<close>): the tables
  \<open>calc_queue\<close>, \<open>calc_dead_letter\<close>, \<open>link_ref\<close> and \<open>record\<close> as lists of rows, and every SQL
  statement of \<open>queue.go\<close>, \<open>link.go\<close> and \<open>store.go\<close> as a function on them.

  A Go function that talks to the database is a \<open>db_op\<close>: it takes the store and returns its
  result, or an error, with the store it leaves. Any statement may fail; which ones do is
  decided by the schedule \<open>faults\<close> of the store, one entry per statement, a failing entry carrying
  the driver's message. A failing statement changes nothing, and a failing transaction is rolled
  back. Times are whole seconds. The pools are present, as they are in the running server.
\<close>

section \<open>The tables\<close>

text \<open>\<open>calc_queue\<close>; the field list is empty for \<open>NULL\<close>, since no empty array is ever stored.\<close>

record task_row =
  q_id :: int
  q_tenant :: string
  q_table :: string
  q_record :: string
  q_fields :: "string list"
  q_status :: int
  q_retry :: int
  q_max :: int
  q_next :: int
  q_error :: string

record dead_row =
  d_id :: int
  d_queue :: int
  d_tenant :: string
  d_table :: string
  d_record :: string
  d_fields :: "string list"
  d_retry :: int
  d_error :: string
  d_failed :: int

record link_row =
  l_id :: int
  l_tenant :: string
  l_from_table :: string
  l_from_record :: string
  l_from_field :: string
  l_to_table :: string
  l_to_record :: string

record rec_row =
  r_vt :: string
  r_tenant :: string
  r_record :: string
  r_data :: goobj
  r_version :: int

record calc_db =
  clock :: int
  faults :: "string option list"
  aborted :: bool \<comment> \<open>a statement of the current transaction has failed\<close>
  locked :: "int list" \<comment> \<open>queue rows locked by other transactions\<close>
  queue :: "task_row list"
  queue_seq :: int
  dead :: "dead_row list"
  dead_seq :: int
  links :: "link_row list"
  link_seq :: int
  recs :: "rec_row list"

definition StatusPending :: int where "StatusPending = 0"
definition StatusProcessing :: int where "StatusProcessing = 1"
definition StatusCompleted :: int where "StatusCompleted = 2"
definition StatusFailed :: int where "StatusFailed = 3"

lemmas status_defs = StatusPending_def StatusProcessing_def StatusCompleted_def StatusFailed_def

text \<open>The column defaults of \<open>calc_queue\<close>.\<close>

definition default_max_retry :: int where "default_max_retry = 8"

section \<open>Operations\<close>

datatype cerr =
    DbFault string
  | TxAborted
  | NoRows
  | ErrVersionConflict
  | LoadTable string cerr
  | ErrSort serr
  | ErrFormula perr
  | ErrMarshal string
  | NegativeShift
  | CalcPanic gopanic
  | CalcErr string

type_synonym 'a db_op = "calc_db \<Rightarrow> (cerr + 'a) \<times> calc_db"

definition ret :: "'a \<Rightarrow> 'a db_op" where
  "ret x db = (Inr x, db)"

definition fail :: "cerr \<Rightarrow> 'a db_op" where
  "fail e db = (Inl e, db)"

text \<open>\<open>x, err := m(); if err != nil { return err }\<close> followed by the rest of the body.\<close>

definition dbind :: "'a db_op \<Rightarrow> ('a \<Rightarrow> 'b db_op) \<Rightarrow> 'b db_op" where
  "dbind m f db = (case m db of (Inl e, db') \<Rightarrow> (Inl e, db') | (Inr x, db') \<Rightarrow> f x db')"

text \<open>One statement: the schedule says whether it fails.\<close>

definition dexec :: "(calc_db \<Rightarrow> 'a \<times> calc_db) \<Rightarrow> 'a db_op" where
  "dexec f db =
     (case faults db of
        Some msg # fs \<Rightarrow> (Inl (DbFault msg), db\<lparr>faults := fs\<rparr>)
      | _ \<Rightarrow> map_prod Inr id (f (db\<lparr>faults := tl (faults db)\<rparr>)))"

definition dquery :: "(calc_db \<Rightarrow> 'a) \<Rightarrow> 'a db_op" where
  "dquery f = dexec (\<lambda>db. (f db, db))"

text \<open>
  A statement inside a transaction: after a failed one the server refuses the others, even if
  the program ignores the error.
\<close>

definition texec :: "(calc_db \<Rightarrow> 'a \<times> calc_db) \<Rightarrow> 'a db_op" where
  "texec f db =
     (if aborted db then (Inl TxAborted, db)
      else (case dexec f db of (Inl e, db') \<Rightarrow> (Inl e, db'\<lparr>aborted := True\<rparr>) | r \<Rightarrow> r))"

definition tquery :: "(calc_db \<Rightarrow> 'a) \<Rightarrow> 'a db_op" where
  "tquery f = texec (\<lambda>db. (f db, db))"

text \<open>
  A transaction: begin, the body, commit; \<open>defer tx.Rollback(ctx)\<close> restores the store when the
  body or the commit returns an error.
\<close>

definition in_tx :: "'a db_op \<Rightarrow> 'a db_op" where
  "in_tx m db =
     (case dbind (dquery (\<lambda>_. ())) (\<lambda>_. dbind m (\<lambda>x. dbind (tquery (\<lambda>_. ())) (\<lambda>_. ret x))) (db\<lparr>aborted := False\<rparr>) of
        (Inl e, db') \<Rightarrow> (Inl e, db\<lparr>faults := faults db', aborted := False\<rparr>)
      | (Inr x, db') \<Rightarrow> (Inr x, db'\<lparr>aborted := False\<rparr>))"

text \<open>A loop over a list that stops at the first error.\<close>

fun dloop :: "('a \<Rightarrow> unit db_op) \<Rightarrow> 'a list \<Rightarrow> unit db_op" where
  "dloop f [] = ret ()"
| "dloop f (x # xs) = dbind (f x) (\<lambda>_. dloop f xs)"

section \<open>Statements on the queue\<close>

definition pending :: "calc_db \<Rightarrow> string \<Rightarrow> string \<Rightarrow> bool" where
  "pending db tenant rid =
     list_ex (\<lambda>r. q_tenant r = tenant \<and> q_record r = rid \<and> q_status r = StatusPending) (queue db)"

definition new_task :: "calc_db \<Rightarrow> int \<Rightarrow> string \<Rightarrow> string \<Rightarrow> string \<Rightarrow> string list \<Rightarrow> task_row" where
  "new_task db i tenant tbl rid ids =
     \<lparr>q_id = i, q_tenant = tenant, q_table = tbl, q_record = rid, q_fields = ids,
      q_status = StatusPending, q_retry = 0, q_max = default_max_retry, q_next = clock db, q_error = []\<rparr>"

text \<open>\<open>INSERT ... SELECT ... WHERE NOT EXISTS\<close> of \<open>Enqueue\<close>.\<close>

definition st_enqueue :: "string \<Rightarrow> string \<Rightarrow> string \<Rightarrow> string list \<Rightarrow> calc_db \<Rightarrow> unit \<times> calc_db" where
  "st_enqueue tenant tbl rid ids db =
     ((), if pending db tenant rid then db
          else db\<lparr>queue := queue db @ [new_task db (queue_seq db) tenant tbl rid ids],
                  queue_seq := queue_seq db + 1\<rparr>)"

text \<open>The two statements of \<open>EnqueueTable\<close>.\<close>

definition st_widen :: "string \<Rightarrow> string \<Rightarrow> calc_db \<Rightarrow> unit \<times> calc_db" where
  "st_widen tenant tbl db =
     ((), db\<lparr>queue := map (\<lambda>r. if q_tenant r = tenant \<and> q_table r = tbl \<and> q_status r = StatusPending
                           then r\<lparr>q_fields := []\<rparr> else r) (queue db)\<rparr>)"

fun number_tasks :: "calc_db \<Rightarrow> int \<Rightarrow> string \<Rightarrow> string \<Rightarrow> string list \<Rightarrow> string list \<Rightarrow> task_row list" where
  "number_tasks db i tenant tbl ids [] = []"
| "number_tasks db i tenant tbl ids (r # rs) =
     new_task db i tenant tbl r ids # number_tasks db (i + 1) tenant tbl ids rs"

definition st_enqueue_table :: "string \<Rightarrow> string \<Rightarrow> string \<Rightarrow> string list \<Rightarrow> calc_db \<Rightarrow> unit \<times> calc_db" where
  "st_enqueue_table tenant tbl vt ids db =
     (let rs = map r_record (filter (\<lambda>r. r_tenant r = tenant \<and> r_vt r = vt \<and> \<not> pending db tenant (r_record r)) (recs db))
      in ((), db\<lparr>queue := queue db @ number_tasks db (queue_seq db) tenant tbl ids rs,
                 queue_seq := queue_seq db + int (length rs)\<rparr>))"

text \<open>
  The query of \<open>ClaimFair\<close>: the first \<open>4 * batch\<close> due rows that are not locked, of these the
  first \<open>perTenant\<close> of each tenant, of these the first \<open>batch\<close>.
\<close>

definition due_rows :: "calc_db \<Rightarrow> task_row list" where
  "due_rows db =
     sort_key q_id (filter (\<lambda>r. q_status r = StatusPending \<and> q_next r \<le> clock db \<and> q_id r \<notin> set (locked db)) (queue db))"

definition row_number :: "task_row list \<Rightarrow> task_row \<Rightarrow> nat" where
  "row_number due r = length (filter (\<lambda>r'. q_tenant r' = q_tenant r \<and> q_id r' \<le> q_id r) due)"

definition claim_rows :: "int \<Rightarrow> int \<Rightarrow> calc_db \<Rightarrow> task_row list" where
  "claim_rows batch perTenant db =
     (let due = take (nat (batch * 4)) (due_rows db)
      in take (nat batch) (filter (\<lambda>r. int (row_number due r) \<le> perTenant) due))"

definition st_mark :: "int list \<Rightarrow> calc_db \<Rightarrow> unit \<times> calc_db" where
  "st_mark ids db =
     ((), db\<lparr>queue := map (\<lambda>r. if q_id r \<in> set ids then r\<lparr>q_status := StatusProcessing\<rparr> else r) (queue db)\<rparr>)"

definition st_delete_task :: "int \<Rightarrow> calc_db \<Rightarrow> unit \<times> calc_db" where
  "st_delete_task i db = ((), db\<lparr>queue := filter (\<lambda>r. q_id r \<noteq> i) (queue db)\<rparr>)"

text \<open>The statements of \<open>MarkRetry\<close>.\<close>

fun number_dead :: "calc_db \<Rightarrow> int \<Rightarrow> int \<Rightarrow> string \<Rightarrow> task_row list \<Rightarrow> dead_row list" where
  "number_dead db i n msg [] = []"
| "number_dead db i n msg (r # rs) =
     \<lparr>d_id = i, d_queue = q_id r, d_tenant = q_tenant r, d_table = q_table r, d_record = q_record r,
      d_fields = q_fields r, d_retry = n, d_error = msg, d_failed = clock db\<rparr> # number_dead db (i + 1) n msg rs"

definition st_bury :: "int \<Rightarrow> int \<Rightarrow> string \<Rightarrow> calc_db \<Rightarrow> unit \<times> calc_db" where
  "st_bury i n msg db =
     (let rs = filter (\<lambda>r. q_id r = i) (queue db)
      in ((), db\<lparr>dead := dead db @ number_dead db (dead_seq db) n msg rs, dead_seq := dead_seq db + int (length rs)\<rparr>))"

definition st_requeue :: "int \<Rightarrow> int \<Rightarrow> int \<Rightarrow> string \<Rightarrow> calc_db \<Rightarrow> unit \<times> calc_db" where
  "st_requeue i n secs msg db =
     ((), db\<lparr>queue := map (\<lambda>r. if q_id r = i
         then r\<lparr>q_status := StatusPending, q_retry := n, q_next := clock db + secs, q_error := msg\<rparr> else r) (queue db)\<rparr>)"

definition st_purge :: "calc_db \<Rightarrow> unit \<times> calc_db" where
  "st_purge db = ((), db\<lparr>queue := filter (\<lambda>r. q_status r \<notin> {StatusCompleted, StatusFailed}) (queue db)\<rparr>)"

definition st_delete_dead :: "int \<Rightarrow> calc_db \<Rightarrow> unit \<times> calc_db" where
  "st_delete_dead i db = ((), db\<lparr>dead := filter (\<lambda>r. d_id r \<noteq> i) (dead db)\<rparr>)"

section \<open>Statements on links\<close>

definition st_delete_field_links :: "string \<Rightarrow> string \<Rightarrow> string \<Rightarrow> calc_db \<Rightarrow> unit \<times> calc_db" where
  "st_delete_field_links tenant rid fld db =
     ((), db\<lparr>links := filter (\<lambda>l. \<not> (l_tenant l = tenant \<and> l_from_record l = rid \<and> l_from_field l = fld)) (links db)\<rparr>)"

text \<open>
  \<open>INSERT ... ON CONFLICT (from_record_id, from_field_id, to_record_id) DO NOTHING\<close>: the sequence
  advances in both cases.
\<close>

definition st_insert_link ::
    "string \<Rightarrow> string \<Rightarrow> string \<Rightarrow> string \<Rightarrow> string \<Rightarrow> string \<Rightarrow> calc_db \<Rightarrow> unit \<times> calc_db" where
  "st_insert_link tenant ft fr ff tt tr db =
     (let db' = db\<lparr>link_seq := link_seq db + 1\<rparr> in
      ((), if list_ex (\<lambda>l. l_from_record l = fr \<and> l_from_field l = ff \<and> l_to_record l = tr) (links db) then db'
           else db'\<lparr>links := links db @
             [\<lparr>l_id = link_seq db, l_tenant = tenant, l_from_table = ft, l_from_record = fr, l_from_field = ff,
               l_to_table = tt, l_to_record = tr\<rparr>]\<rparr>))"

definition st_delete_edge :: "string \<Rightarrow> string \<Rightarrow> string \<Rightarrow> string \<Rightarrow> calc_db \<Rightarrow> unit \<times> calc_db" where
  "st_delete_edge tenant fr ff tr db =
     ((), db\<lparr>links := filter (\<lambda>l. \<not> (l_tenant l = tenant \<and> l_from_record l = fr \<and> l_from_field l = ff \<and>
        l_to_record l = tr)) (links db)\<rparr>)"

definition st_delete_inverse :: "string \<Rightarrow> string \<Rightarrow> string list \<Rightarrow> string \<Rightarrow> calc_db \<Rightarrow> unit \<times> calc_db" where
  "st_delete_inverse tenant ff frs tr db =
     ((), db\<lparr>links := filter (\<lambda>l. \<not> (l_tenant l = tenant \<and> l_from_field l = ff \<and> l_from_record l \<in> set frs \<and>
        l_to_record l = tr)) (links db)\<rparr>)"

section \<open>Statements on records\<close>

text \<open>The conditional update of \<open>PatchCalcFields\<close>, with the number of rows it changed.\<close>

definition st_patch :: "string \<Rightarrow> string \<Rightarrow> string \<Rightarrow> int \<Rightarrow> goobj \<Rightarrow> calc_db \<Rightarrow> nat \<times> calc_db" where
  "st_patch vt tenant rid ver doc db =
     (let hit = (\<lambda>r. r_vt r = vt \<and> r_tenant r = tenant \<and> r_record r = rid \<and> r_version r = ver)
      in (length (filter hit (recs db)),
          db\<lparr>recs := map (\<lambda>r. if hit r then r\<lparr>r_data := doc, r_version := r_version r + 1\<rparr> else r) (recs db)\<rparr>))"

section \<open>Reasoning about operations\<close>

lemma ret_simp [simp]: "ret x db = (Inr x, db)"
  by (simp add: ret_def)

lemma fail_simp [simp]: "fail e db = (Inl e, db)"
  by (simp add: fail_def)

text \<open>A successful statement ran on the store with the rest of the schedule.\<close>

lemma dexec_cases:
  obtains (failed) msg fs where "faults db = Some msg # fs" "dexec f db = (Inl (DbFault msg), db\<lparr>faults := fs\<rparr>)"
    | (ran) x db' where "f (db\<lparr>faults := tl (faults db)\<rparr>) = (x, db')" "dexec f db = (Inr x, db')"
proof (cases "\<exists>msg fs. faults db = Some msg # fs")
  case True
  then show ?thesis using failed by (auto simp: dexec_def)
next
  case False
  obtain x db' where f: "f (db\<lparr>faults := tl (faults db)\<rparr>) = (x, db')" by fastforce
  with False have "dexec f db = (Inr x, db')"
    by (auto simp: dexec_def split: list.splits option.splits)
  with f show ?thesis by (rule ran)
qed

lemma dexec_ok [simp]: "faults db = [] \<Longrightarrow> dexec f db = map_prod Inr id (f (db\<lparr>faults := []\<rparr>))"
  by (simp add: dexec_def)

lemma no_faults [simp]: "faults db = [] \<Longrightarrow> db\<lparr>faults := []\<rparr> = db"
  by (cases db) simp

lemma dexec_Inr:
  assumes "dexec f db = (Inr x, db')"
  shows "f (db\<lparr>faults := tl (faults db)\<rparr>) = (x, db')"
  using assms by (cases rule: dexec_cases [of db f]) auto

lemma dexec_Inl:
  assumes "dexec f db = (Inl e, db')"
  obtains msg fs where "faults db = Some msg # fs" "e = DbFault msg" "db' = db\<lparr>faults := fs\<rparr>"
  using assms by (cases rule: dexec_cases [of db f]) auto

lemma dquery_Inr:
  assumes "dquery f db = (Inr x, db')"
  shows "x = f (db\<lparr>faults := tl (faults db)\<rparr>) \<and> db' = db\<lparr>faults := tl (faults db)\<rparr>"
  using dexec_Inr [OF assms [unfolded dquery_def]] by auto

lemma dbind_Inr:
  assumes "dbind m f db = (Inr y, db')"
  obtains x db1 where "m db = (Inr x, db1)" "f x db1 = (Inr y, db')"
  using assms by (auto simp: dbind_def split: prod.splits sum.splits)

lemma dbind_Inl:
  assumes "dbind m f db = (Inl e, db')"
  obtains (first) "m db = (Inl e, db')" | (later) x db1 where "m db = (Inr x, db1)" "f x db1 = (Inl e, db')"
  using assms by (auto simp: dbind_def split: prod.splits sum.splits)

lemma texec_Inr:
  assumes "texec f db = (Inr x, db')"
  shows "f (db\<lparr>faults := tl (faults db)\<rparr>) = (x, db') \<and> \<not> aborted db"
  using assms by (auto simp: texec_def dest!: dexec_Inr split: if_splits prod.splits sum.splits)

lemma tquery_Inr:
  assumes "tquery f db = (Inr x, db')"
  shows "x = f (db\<lparr>faults := tl (faults db)\<rparr>) \<and> db' = db\<lparr>faults := tl (faults db)\<rparr> \<and> \<not> aborted db"
  using texec_Inr [OF assms [unfolded tquery_def]] by auto

text \<open>A transaction that succeeds ran its body; one that fails leaves the store as it was.\<close>

lemma in_tx_Inr:
  assumes "in_tx m db = (Inr x, db')"
  obtains db1 where "m (db\<lparr>aborted := False, faults := tl (faults db)\<rparr>) = (Inr x, db1)" "\<not> aborted db1"
    "db' = db1\<lparr>faults := tl (faults db1), aborted := False\<rparr>"
  using assms by (auto simp: in_tx_def split: prod.splits sum.splits elim!: dbind_Inr dest!: dquery_Inr tquery_Inr)

lemma in_tx_Inl: "in_tx m db = (Inl e, db') \<Longrightarrow> db' = db\<lparr>faults := faults db', aborted := False\<rparr>"
  by (auto simp: in_tx_def split: prod.splits sum.splits)

section \<open>Invariants of the store\<close>

named_theorems keep_rules \<open>operations keep the invariants of the store\<close>

text \<open>An operation keeps a property of the store, whether it succeeds or fails.\<close>

definition keeps :: "(calc_db \<Rightarrow> bool) \<Rightarrow> 'a db_op \<Rightarrow> bool" where
  "keeps I m \<longleftrightarrow> (\<forall>db. I db \<longrightarrow> I (snd (m db)))"

lemma keepsD: "keeps I m \<Longrightarrow> m db = (r, db') \<Longrightarrow> I db \<Longrightarrow> I db'"
  unfolding keeps_def by (metis snd_conv)

lemma keeps_ret [keep_rules]: "keeps I (ret x)"
  by (simp add: keeps_def)

lemma keeps_fail [keep_rules]: "keeps I (fail e)"
  by (simp add: keeps_def)

lemma keeps_bind [keep_rules]: "keeps I m \<Longrightarrow> (\<And>x. keeps I (f x)) \<Longrightarrow> keeps I (dbind m f)"
  unfolding keeps_def dbind_def by (auto split: prod.splits sum.splits)

lemma keeps_loop [keep_rules]: "(\<And>x. keeps I (f x)) \<Longrightarrow> keeps I (dloop f xs)"
  by (induction xs) (auto intro: keep_rules)

lemma keeps_if [keep_rules]: "keeps I a \<Longrightarrow> keeps I b \<Longrightarrow> keeps I (if c then a else b)"
  by simp

text \<open>
  The interface between statements and handlers: a property of the store that does not look at
  the schedule is kept by every query; one that every statement keeps is kept by everything
  composed of statements. \<open>db_read\<close> is the part that operations which only read rely on.
\<close>

locale db_read =
  fixes I :: "calc_db \<Rightarrow> bool"
  assumes inv_step: "I db \<Longrightarrow> I (db\<lparr>faults := tl (faults db)\<rparr>)"
begin

lemma read_query [keep_rules]: "keeps I (dquery f)"
  unfolding keeps_def
proof (intro allI impI)
  fix db assume "I db"
  then show "I (snd (dquery f db))"
    using inv_step [of db] unfolding dquery_def by (cases rule: dexec_cases [of db "\<lambda>db. (f db, db)"]) auto
qed

end

locale db_frame =
  fixes I :: "calc_db \<Rightarrow> bool"
  assumes inv_faults: "I (db\<lparr>faults := fs\<rparr>) = I db"
    and inv_aborted: "I (db\<lparr>aborted := a\<rparr>) = I db"
begin

lemma keeps_exec:
  assumes "\<And>db. I db \<Longrightarrow> I (snd (f db))"
  shows "keeps I (dexec f)"
  unfolding keeps_def
proof (intro allI impI)
  fix db assume "I db"
  then show "I (snd (dexec f db))"
    using assms [of "db\<lparr>faults := tl (faults db)\<rparr>"]
    by (cases rule: dexec_cases [of db f]) (simp_all add: inv_faults)
qed

lemma keeps_texec: "keeps I (dexec f) \<Longrightarrow> keeps I (texec f)"
  unfolding keeps_def texec_def by (auto simp: inv_aborted split: prod.splits sum.splits)

lemma keeps_query [keep_rules]: "keeps I (dquery f)"
  unfolding dquery_def by (rule keeps_exec) simp

lemma keeps_tquery [keep_rules]: "keeps I (tquery f)"
  unfolding tquery_def by (intro keeps_texec keeps_exec) simp

lemma keeps_in_tx [keep_rules]: "keeps I m \<Longrightarrow> keeps I (in_tx m)"
proof -
  assume m: "keeps I m"
  have "keeps I (dbind (dquery (\<lambda>_. ())) (\<lambda>_. dbind m (\<lambda>x. dbind (tquery (\<lambda>_. ())) (\<lambda>_. ret x))))"
    by (intro keep_rules m)
  then show ?thesis
    unfolding keeps_def [of I "in_tx m"] in_tx_def
    by (auto simp: inv_faults inv_aborted split: prod.split sum.split dest: keepsD)
qed

end

sublocale db_frame \<subseteq> db_read I
  by unfold_locales (simp add: inv_faults)

text \<open>Kept also when the engine writes a record.\<close>

locale db_patch = db_frame +
  assumes inv_patch: "I db \<Longrightarrow> I (snd (st_patch vt tenant rid ver doc db))"
begin

lemma keeps_patch [keep_rules]: "keeps I (dexec (st_patch vt tenant rid ver doc))"
  by (auto intro!: keeps_exec intro: inv_patch)

end

text \<open>Kept by every statement on the queue and on links.\<close>

locale db_side = db_frame +
  assumes inv_enqueue: "I db \<Longrightarrow> I (snd (st_enqueue tenant tbl rid ids db))"
    and inv_widen: "I db \<Longrightarrow> I (snd (st_widen tenant tbl db))"
    and inv_enqueue_table: "I db \<Longrightarrow> I (snd (st_enqueue_table tenant tbl vt ids db))"
    and inv_mark: "I db \<Longrightarrow> I (snd (st_mark qs db))"
    and inv_delete_task: "I db \<Longrightarrow> I (snd (st_delete_task i db))"
    and inv_bury: "I db \<Longrightarrow> I (snd (st_bury i n msg db))"
    and inv_requeue: "0 \<le> n \<Longrightarrow> I db \<Longrightarrow> I (snd (st_requeue i n secs msg db))"
    and inv_purge: "I db \<Longrightarrow> I (snd (st_purge db))"
    and inv_delete_dead: "I db \<Longrightarrow> I (snd (st_delete_dead i db))"
    and inv_delete_field_links: "I db \<Longrightarrow> I (snd (st_delete_field_links tenant rid fld db))"
    and inv_insert_link: "I db \<Longrightarrow> I (snd (st_insert_link tenant ft fr ff tt tr db))"
    and inv_delete_edge: "I db \<Longrightarrow> I (snd (st_delete_edge tenant fr ff tr db))"
    and inv_delete_inverse: "I db \<Longrightarrow> I (snd (st_delete_inverse tenant ff frs tr db))"
begin

lemma keeps_statements [keep_rules]:
  "keeps I (dexec (st_enqueue tenant tbl rid ids))"
  "keeps I (dexec (st_widen tenant tbl))"
  "keeps I (dexec (st_enqueue_table tenant tbl vt ids))"
  "keeps I (dexec (st_mark qs))"
  "keeps I (dexec (st_delete_task i))"
  "keeps I (dexec (st_bury i n msg))"
  "keeps I (dexec (st_purge))"
  "keeps I (dexec (st_delete_dead i))"
  "keeps I (dexec (st_delete_field_links tenant rid fld))"
  "keeps I (dexec (st_insert_link tenant ft fr ff tt tr))"
  "keeps I (dexec (st_delete_edge tenant fr ff tr))"
  "keeps I (dexec (st_delete_inverse tenant ff frs tr))"
  by (auto intro!: keeps_exec intro: inv_enqueue inv_widen inv_enqueue_table inv_mark inv_delete_task
      inv_bury inv_purge inv_delete_dead inv_delete_field_links inv_insert_link inv_delete_edge inv_delete_inverse)

lemma keeps_tx_statements [keep_rules]:
  "keeps I (texec (st_mark qs))"
  "keeps I (texec (st_delete_field_links tenant rid fld))"
  "keeps I (texec (st_insert_link tenant ft fr ff tt tr))"
  "keeps I (texec (st_delete_edge tenant fr ff tr))"
  "keeps I (texec (st_delete_inverse tenant ff frs tr))"
  by (auto intro!: keeps_texec keeps_statements)

lemma keeps_requeue: "0 \<le> n \<Longrightarrow> keeps I (dexec (st_requeue i n secs msg))"
  by (auto intro!: keeps_exec intro: inv_requeue)

end

text \<open>Kept by every statement of the calculation service.\<close>

locale db_inv = db_patch + db_side

end
