(* ===== verification/Tenant_Store.thy ===== *)
theory Tenant_Store
  imports Calc_DB "HOL-Library.Word"
begin

text \<open>
  Where a tenant's records live (\<open>pkg/infra/postgres\<close>: \<open>record_store.go\<close>, the name part of
  \<open>virtual_records.go\<close>, and the tenant profile of \<open>tenant_pool.go\<close> and \<open>shard_pool.go\<close>): the
  names of the physical relations of the shared and the dedicated store, the profile of a
  tenant, the choice of a read replica, and the resolution of tenant, base and table.

  The rows of the tables \<open>tenants\<close> and \<open>lc_bases\<close> are a value; every query of them is a
  statement of the schedule and may fail.
\<close>

section \<open>Names of the physical relations\<close>

definition RecordStoreShared :: string where "RecordStoreShared = ''shared''"
definition RecordStoreDedicated :: string where "RecordStoreDedicated = ''dedicated''"

record data_tables =
  dt_Mode :: string
  dt_TenantID :: string
  dt_Record :: string
  dt_LinkRef :: string
  dt_CalcQueue :: string
  dt_CalcDLQ :: string

definition SharedDataTables :: data_tables where
  "SharedDataTables =
     \<lparr>dt_Mode = RecordStoreShared, dt_TenantID = [], dt_Record = ''record'', dt_LinkRef = ''link_ref'',
      dt_CalcQueue = ''calc_queue'', dt_CalcDLQ = ''calc_dead_letter''\<rparr>"

definition quoted :: "string \<Rightarrow> string" where
  "quoted s = [CHR 0x22] @ s @ [CHR 0x22]"

definition ParseRecordStore :: "string \<Rightarrow> string + string" where
  "ParseRecordStore raw =
     (let m = to_lower (trim_space raw) in
      if m \<in> {[], RecordStoreShared, ''shared_table''} then Inr RecordStoreShared
      else if m \<in> {RecordStoreDedicated, ''dedicated_table'', ''exclusive''} then Inr RecordStoreDedicated
      else Inl (''recordStore must be '' @ quoted RecordStoreShared @ '' or '' @ quoted RecordStoreDedicated))"

text \<open>The pattern \<open>[^a-zA-Z0-9_]+\<close> replaced by one underscore.\<close>

definition store_ident_char :: "char \<Rightarrow> bool" where
  "store_ident_char c =
     (char_in CHR ''a'' CHR ''z'' c \<or> char_in CHR ''A'' CHR ''Z'' c \<or> char_in CHR ''0'' CHR ''9'' c \<or> c = CHR ''_'')"

function nonIdent :: "string \<Rightarrow> string" where
  "nonIdent [] = []"
| "nonIdent (c # s) =
     (if store_ident_char c then c # nonIdent s else CHR ''_'' # nonIdent (dropWhile (\<lambda>c. \<not> store_ident_char c) s))"
  by pat_completeness auto

termination nonIdent
  by (relation "measure length") (auto simp: le_imp_less_Suc length_dropWhile_le)

definition trim_underscores :: "string \<Rightarrow> string" where
  "trim_underscores s = rev (dropWhile (\<lambda>c. c = CHR ''_'') (rev (dropWhile (\<lambda>c. c = CHR ''_'') s)))"

definition maxPrefix :: nat where "maxPrefix = 63 - length ''_calc_dead_letter''"

definition dedicatedPrefix :: "string \<Rightarrow> string" where
  "dedicatedPrefix tenantID =
     (let s0 = trim_underscores (nonIdent (to_lower (trim_space tenantID)));
          s1 = (if s0 = [] then ''t'' else s0);
          s2 = (if char_in CHR ''0'' CHR ''9'' (hd s1) then ''t_'' @ s1 else s1)
      in if length s2 > maxPrefix then trim_underscores (take maxPrefix s2) else s2)"

definition ResolveDataTables :: "string \<Rightarrow> string \<Rightarrow> data_tables" where
  "ResolveDataTables tenantID0 mode0 =
     (let mode = (case ParseRecordStore mode0 of Inl _ \<Rightarrow> RecordStoreShared | Inr m \<Rightarrow> m);
          tenantID = trim_space tenantID0; p = dedicatedPrefix tenantID in
      if mode \<noteq> RecordStoreDedicated \<or> tenantID = [] then SharedDataTables\<lparr>dt_TenantID := tenantID\<rparr>
      else \<lparr>dt_Mode = RecordStoreDedicated, dt_TenantID = tenantID, dt_Record = p @ ''_record'', dt_LinkRef = p @ ''_link_ref'',
            dt_CalcQueue = p @ ''_calc_queue'', dt_CalcDLQ = p @ ''_calc_dead_letter''\<rparr>)"

definition dt_Shared :: "data_tables \<Rightarrow> bool" where
  "dt_Shared t = (dt_Mode t \<noteq> RecordStoreDedicated)"

text \<open>Names of indexes and of the function and trigger that clean up links.\<close>

definition indexRelName :: "string \<Rightarrow> string \<Rightarrow> string" where
  "indexRelName name sfx = take 63 (''idx_'' @ name @ ''_'' @ sfx)"

definition clean_function :: "data_tables \<Rightarrow> string" where
  "clean_function t =
     (if dt_Shared t then ''fn_clean_link_ref_on_record_delete''
      else take 63 (''fn_clean_link_ref_'' @ dedicatedPrefix (dt_TenantID t)))"

definition clean_trigger :: "data_tables \<Rightarrow> string" where
  "clean_trigger t =
     (if dt_Shared t then ''trg_record_del_link_ref''
      else take 63 (''trg_'' @ dedicatedPrefix (dt_TenantID t) @ ''_del_link_ref''))"

section \<open>Tenants and bases\<close>

record tenant_row =
  tn_id :: string
  tn_dsn :: string
  tn_dsn_write :: "string option"
  tn_reads :: "string list option"
  tn_max_conns :: int
  tn_store :: "string option"

record base_row =
  bs_id :: string
  bs_tenant :: string
  bs_created :: int

record tenant_db =
  td_tenants :: "tenant_row list"
  td_bases :: "base_row list"

text \<open>The headers \<open>X-Tenant-Id\<close> and \<open>X-Base-Id\<close> of a request.\<close>

record request_ctx =
  rq_Tenant :: string
  rq_Base :: string

record tenant_profile =
  tp_writeDSN :: string
  tp_readDSNs :: "string list"
  tp_maxConns :: int
  tp_recordStore :: string

text \<open>An operation whose error the caller looks at.\<close>

definition attempt :: "'a db_op \<Rightarrow> (cerr + 'a) db_op" where
  "attempt m db = (case m db of (r, db') \<Rightarrow> (Inr r, db'))"

definition find_tenant :: "tenant_db \<Rightarrow> string \<Rightarrow> tenant_row option" where
  "find_tenant td i = find (\<lambda>t. tn_id t = i) (td_tenants td)"

text \<open>\<open>COALESCE(NULLIF(x, ''), d)\<close>.\<close>

definition coalesce_empty :: "string option \<Rightarrow> string \<Rightarrow> string" where
  "coalesce_empty x d = (case x of None \<Rightarrow> d | Some s \<Rightarrow> if s = [] then d else s)"

fun normalizeReadDSNs :: "string \<Rightarrow> string set \<Rightarrow> string list \<Rightarrow> string list" where
  "normalizeReadDSNs w seen [] = []"
| "normalizeReadDSNs w seen (d0 # ds) =
     (let d = trim_space d0 in
      if d = [] \<or> d = w \<or> d \<in> seen then normalizeReadDSNs w seen ds
      else d # normalizeReadDSNs w (insert d seen) ds)"

definition profile_of :: "tenant_row \<Rightarrow> string \<Rightarrow> tenant_profile" where
  "profile_of t store =
     (let w0 = trim_space (coalesce_empty (tn_dsn_write t) (tn_dsn t));
          w = (if w0 = [] then trim_space (tn_dsn t) else w0)
      in \<lparr>tp_writeDSN = w, tp_readDSNs = normalizeReadDSNs w {} (case tn_reads t of None \<Rightarrow> [] | Some ds \<Rightarrow> ds),
          tp_maxConns = tn_max_conns t,
          tp_recordStore = (case ParseRecordStore store of Inl _ \<Rightarrow> [] | Inr m \<Rightarrow> m)\<rparr>)"

definition loadProfile :: "tenant_db \<Rightarrow> string \<Rightarrow> tenant_profile db_op" where
  "loadProfile td tenantID0 =
     (let tenantID = trim_space tenantID0; row = dquery (\<lambda>_. find_tenant td tenantID) in
      if tenantID = [] then fail (CalcErr ''tenant id is required'')
      else dbind (attempt row) (\<lambda>first.
        case first of
          Inr (Some t) \<Rightarrow> ret (profile_of t (coalesce_empty (tn_store t) RecordStoreShared))
        | _ \<Rightarrow> dbind (attempt row) (\<lambda>second.
            case second of
              Inr (Some t) \<Rightarrow> ret (profile_of t RecordStoreShared)
            | _ \<Rightarrow> fail (CalcErr (''unknown tenant '' @ quoted tenantID)))))"

text \<open>The next replica in turn; the counter is a \<open>uint64\<close>.\<close>

definition pickReadDSN :: "string \<Rightarrow> string list \<Rightarrow> 64 word \<Rightarrow> bool \<Rightarrow> string \<times> 64 word" where
  "pickReadDSN w reads rr forcePrimary =
     (if forcePrimary \<or> reads = [] then (w, rr)
      else (reads ! unat (rr mod of_nat (length reads)), rr + 1))"

definition ResolveTenantID :: "tenant_db \<Rightarrow> request_ctx \<Rightarrow> string db_op" where
  "ResolveTenantID td rq =
     (if rq_Tenant rq = [] then fail (CalcErr ''X-Tenant-Id is required'')
      else dbind (dquery (\<lambda>_. find_tenant td (rq_Tenant rq))) (\<lambda>t.
        case t of None \<Rightarrow> fail (CalcErr (''unknown tenant '' @ quoted (rq_Tenant rq))) | Some r \<Rightarrow> ret (tn_id r)))"

definition ResolveBaseID :: "tenant_db \<Rightarrow> request_ctx \<Rightarrow> string \<Rightarrow> string db_op" where
  "ResolveBaseID td rq tenantID =
     (let b = trim_space (rq_Base rq) in
      if b \<noteq> [] then
        dbind (dquery (\<lambda>_. find (\<lambda>r. bs_id r = b \<and> bs_tenant r = tenantID) (td_bases td))) (\<lambda>r.
          case r of
            None \<Rightarrow> fail (CalcErr (''unknown base '' @ quoted b @ '' for tenant '' @ quoted tenantID))
          | Some r \<Rightarrow> ret (bs_id r))
      else
        dbind (dquery (\<lambda>_. sort_key bs_created (filter (\<lambda>r. bs_tenant r = tenantID) (td_bases td)))) (\<lambda>rs.
          case rs of
            [] \<Rightarrow> fail (CalcErr (''tenant '' @ quoted tenantID @ '' has no bases''))
          | r # _ \<Rightarrow> ret (bs_id r)))"

definition DataTables :: "tenant_db \<Rightarrow> request_ctx \<Rightarrow> data_tables db_op" where
  "DataTables td rq =
     dbind (ResolveTenantID td rq) (\<lambda>tenantID.
     dbind (loadProfile td tenantID) (\<lambda>p. ret (ResolveDataTables tenantID (tp_recordStore p))))"

section \<open>Names fit\<close>

lemma to_lower_not_upper: "\<not> char_in CHR ''A'' CHR ''Z'' (to_lower_char c)"
  by (auto simp: char_in_def to_lower_char_def Let_def less_eq_char_def)

lemma ident_lower: "store_ident_char (to_lower_char c) \<Longrightarrow> name_char (to_lower_char c)"
  using to_lower_not_upper [of c] by (auto simp: store_ident_char_def name_char_def lower_char_def char_in_def)

lemma set_nonIdent: "set (nonIdent s) \<subseteq> insert CHR ''_'' {c \<in> set s. store_ident_char c}"
  by (induction s rule: nonIdent.induct) (auto dest: set_dropWhileD)

lemma set_trim_underscores: "set (trim_underscores s) \<subseteq> set s"
proof
  fix c assume "c \<in> set (trim_underscores s)"
  then show "c \<in> set s" unfolding trim_underscores_def set_rev by (metis set_dropWhileD set_rev)
qed

lemma trim_underscores_id:
  assumes "s \<noteq> []" "hd s \<noteq> CHR ''_''"
  shows "trim_underscores s \<noteq> [] \<and> hd (trim_underscores s) = hd s \<and> last (trim_underscores s) \<noteq> CHR ''_'' \<and>
    length (trim_underscores s) \<le> length s"
proof -
  let ?u = "dropWhile (\<lambda>c. c = CHR ''_'') (rev s)"
  have 1: "trim_underscores s = rev ?u" using assms by (cases s) (simp_all add: trim_underscores_def)
  have "hd s \<in> set (rev s)" using assms(1) by simp
  with assms(2) have u: "?u \<noteq> []" by (simp add: dropWhile_eq_Nil_conv) blast
  obtain t where t: "rev s = t @ ?u" by (metis takeWhile_dropWhile_id)
  have "last ?u = last (rev s)" using t u by (metis last_appendR)
  then have "hd (rev ?u) = hd s" using assms(1) by (simp add: hd_rev last_rev)
  moreover have "last (rev ?u) \<noteq> CHR ''_''" using hd_dropWhile [OF u] by (simp add: last_rev)
  moreover have "length ?u \<le> length s" using length_dropWhile_le [of _ "rev s"] by simp
  ultimately show ?thesis using 1 u by simp
qed

lemma trim_underscores_hd: "trim_underscores s \<noteq> [] \<Longrightarrow> hd (trim_underscores s) \<noteq> CHR ''_''"
proof -
  let ?v = "dropWhile (\<lambda>c. c = CHR ''_'') s"
  assume n: "trim_underscores s \<noteq> []"
  then have v: "?v \<noteq> []" unfolding trim_underscores_def by (metis dropWhile.simps(1) rev.simps(1))
  have hv: "hd ?v \<noteq> CHR ''_''" using hd_dropWhile [OF v] by simp
  have "trim_underscores s = trim_underscores ?v" unfolding trim_underscores_def dropWhile_idem ..
  then show ?thesis using trim_underscores_id [OF v hv] hv by simp
qed

text \<open>The prefix of a dedicated store: a lower case identifier that leaves room for every suffix.\<close>

lemma dedicatedPrefix_ident:
  "dedicatedPrefix t \<noteq> [] \<and> lower_char (hd (dedicatedPrefix t)) \<and> list_all name_char (dedicatedPrefix t) \<and>
   length (dedicatedPrefix t) \<le> maxPrefix"
proof -
  define s0 where "s0 = trim_underscores (nonIdent (to_lower (trim_space t)))"
  define s1 where "s1 = (if s0 = [] then ''t'' else s0)"
  define s2 where "s2 = (if char_in CHR ''0'' CHR ''9'' (hd s1) then ''t_'' @ s1 else s1)"
  have n0: "c \<in> set s0 \<Longrightarrow> name_char c" for c
    using set_trim_underscores [of "nonIdent (to_lower (trim_space t))"] set_nonIdent [of "to_lower (trim_space t)"] ident_lower
    by (auto simp: s0_def to_lower_def name_char_def lower_char_def)
  have "lower_char CHR ''t''" "name_char CHR ''t''" "name_char CHR ''_''" by (simp_all add: lower_char_def name_char_def)
  then have n2: "c \<in> set s2 \<Longrightarrow> name_char c" for c using n0 by (auto simp: s2_def s1_def split: if_splits)
  have h1: "name_char (hd s1)" "hd s1 \<noteq> CHR ''_''" "s1 \<noteq> []"
    using n0 trim_underscores_hd [of "nonIdent (to_lower (trim_space t))"] \<open>name_char CHR ''t''\<close>
    by (auto simp: s1_def s0_def)
  have h2: "lower_char (hd s2)" "s2 \<noteq> []"
    using h1 \<open>lower_char CHR ''t''\<close> by (auto simp: s2_def name_char_def char_in_def)
  have u2: "hd s2 \<noteq> CHR ''_''" using h2(1) by (auto simp: lower_char_def)
  have k: "0 < maxPrefix" by (simp add: maxPrefix_def)
  have tk: "take maxPrefix s2 \<noteq> []" "hd (take maxPrefix s2) = hd s2" using h2(2) k by (simp_all add: hd_conv_nth)
  note tr = trim_underscores_id [OF tk(1), unfolded tk(2), OF u2]
  have d: "dedicatedPrefix t = (if length s2 > maxPrefix then trim_underscores (take maxPrefix s2) else s2)"
    by (simp add: dedicatedPrefix_def s0_def s1_def s2_def Let_def)
  have "c \<in> set (trim_underscores (take maxPrefix s2)) \<Longrightarrow> name_char c" for c
    using set_trim_underscores [of "take maxPrefix s2"] n2 by (meson in_set_takeD subsetD)
  then show ?thesis using tr h2 n2 unfolding d by (auto simp: list_all_iff)
qed

definition relations :: "data_tables \<Rightarrow> string list" where
  "relations t = [dt_Record t, dt_LinkRef t, dt_CalcQueue t, dt_CalcDLQ t]"

text \<open>
  C35. The relations of a tenant always have names that PostgreSQL keeps as they are: at most 63
  characters, a lower case letter followed by lower case letters, digits and underscores. The
  four names are different, and no relation of a dedicated store has the name of one of the
  shared store, for every tenant id and every store mode.
\<close>

theorem tenant_relations_fit:
  "list_all type_name_ok (relations (ResolveDataTables tenantID mode)) \<and>
   distinct (relations (ResolveDataTables tenantID mode)) \<and>
   (dt_Shared (ResolveDataTables tenantID mode) \<or>
    set (relations (ResolveDataTables tenantID mode)) \<inter> set (relations SharedDataTables) = {})"
proof -
  let ?p = "dedicatedPrefix (trim_space tenantID)"
  have p: "?p \<noteq> []" "lower_char (hd ?p)" "list_all name_char ?p" "length ?p \<le> 46"
    using dedicatedPrefix_ident [of "trim_space tenantID"] by (simp_all add: maxPrefix_def)
  have suffixes: "list_all name_char ''_record''" "list_all name_char ''_link_ref''" "list_all name_char ''_calc_queue''"
    "list_all name_char ''_calc_dead_letter''" by code_simp+
  have ok: "type_name_ok (?p @ sfx)" if "list_all name_char sfx" "length sfx \<le> 17" for sfx
    using p that by (cases ?p) (auto simp: type_name_ok_def)
  have shared: "list_all type_name_ok (relations SharedDataTables)" "distinct (relations SharedDataTables)" by code_simp+
  show ?thesis
  proof (cases "dt_Shared (ResolveDataTables tenantID mode)")
    case True
    then have "relations (ResolveDataTables tenantID mode) = relations SharedDataTables"
      by (auto simp: ResolveDataTables_def Let_def dt_Shared_def relations_def split: if_splits)
    with shared True show ?thesis by simp
  next
    case False
    then have r: "relations (ResolveDataTables tenantID mode) =
        [?p @ ''_record'', ?p @ ''_link_ref'', ?p @ ''_calc_queue'', ?p @ ''_calc_dead_letter'']"
      by (auto simp: ResolveDataTables_def Let_def dt_Shared_def relations_def SharedDataTables_def
          RecordStoreShared_def RecordStoreDedicated_def split: if_splits)
    have "set (relations (ResolveDataTables tenantID mode)) \<inter> set (relations SharedDataTables) = {}"
      using p(1) unfolding r by (auto simp: relations_def SharedDataTables_def append_eq_conv_conj)
    moreover have "list_all type_name_ok (relations (ResolveDataTables tenantID mode))"
      unfolding r using ok [OF suffixes(1)] ok [OF suffixes(2)] ok [OF suffixes(3)] ok [OF suffixes(4)] by simp
    ultimately show ?thesis unfolding r by simp
  qed
qed

section \<open>Replicas\<close>

text \<open>\<open>n\<close> reads in a row.\<close>

fun picks :: "nat \<Rightarrow> string \<Rightarrow> string list \<Rightarrow> 64 word \<Rightarrow> string list" where
  "picks 0 w reads rr = []"
| "picks (Suc n) w reads rr = (case pickReadDSN w reads rr False of (d, rr') \<Rightarrow> d # picks n w reads rr')"

lemma picks_nth:
  assumes "reads \<noteq> []" "length reads < 2 ^ 64" "unat rr + n < 2 ^ 64"
  shows "picks n w reads rr = map (\<lambda>k. reads ! ((unat rr + k) mod length reads)) [0..<n]"
  using assms(3)
proof (induction n arbitrary: rr)
  case (Suc n)
  have u: "unat (rr + 1) = unat rr + 1" using Suc.prems by (subst unat_plus_simple [THEN iffD1]) (auto simp: word_le_nat_alt unat_word_ariths)
  have m: "unat (rr mod of_nat (length reads)) = unat rr mod length reads"
    using assms(2) by (simp add: unat_mod unat_of_nat)
  have "picks (Suc n) w reads rr = reads ! (unat rr mod length reads) # picks n w reads (rr + 1)"
    using assms(1) by (simp add: pickReadDSN_def m)
  also have "\<dots> = reads ! (unat rr mod length reads) # map (\<lambda>k. reads ! ((unat rr + Suc k) mod length reads)) [0..<n]"
    using Suc.IH [of "rr + 1"] Suc.prems u by simp
  also have "\<dots> = map (\<lambda>k. reads ! ((unat rr + k) mod length reads)) [0..<Suc n]"
    by (simp add: upt_conv_Cons map_Suc_upt [symmetric] del: upt_Suc)
  finally show ?case .
qed simp

text \<open>Of any run of as many reads as there are replicas every replica serves one.\<close>

lemma picks_round:
  assumes "reads \<noteq> []" "unat rr + length reads < 2 ^ 64"
  shows "mset (picks (length reads) w reads rr) = mset reads"
proof -
  have l: "length reads < 2 ^ 64" using assms(2) by simp
  have p: "picks (length reads) w reads rr = map (\<lambda>k. reads ! ((unat rr + k) mod length reads)) [0..<length reads]"
    by (rule picks_nth [OF assms(1) l assms(2)])
  have "rotate (unat rr mod length reads) reads = map (\<lambda>k. reads ! ((unat rr + k) mod length reads)) [0..<length reads]"
    by (rule nth_equalityI) (simp_all add: nth_rotate mod_add_left_eq del: rotate_conv_mod)
  then have "picks (length reads) w reads rr = rotate (unat rr mod length reads) reads" using p by simp
  then show ?thesis by (metis append_take_drop_id mset_append rotate_drop_take union_commute)
qed

section \<open>Defects\<close>

text \<open>Two tenants with a dedicated store each can have the same relations.\<close>

lemma dedicated_store_shared:
  "''a-b'' \<noteq> ''a_b'' \<and>
   relations (ResolveDataTables ''a-b'' RecordStoreDedicated) = relations (ResolveDataTables ''a_b'' RecordStoreDedicated)"
  by code_simp

text \<open>
  Two tenants with different relations can have the same cleaning function: the second tenant
  replaces the function of the first one, whose trigger then cleans the wrong relation.
\<close>

definition long_tenant :: "char \<Rightarrow> string" where
  "long_tenant c = replicate 45 CHR ''x'' @ [c]"

lemma clean_function_clash:
  "dt_LinkRef (ResolveDataTables (long_tenant CHR ''a'') RecordStoreDedicated) \<noteq>
     dt_LinkRef (ResolveDataTables (long_tenant CHR ''b'') RecordStoreDedicated) \<and>
   clean_function (ResolveDataTables (long_tenant CHR ''a'') RecordStoreDedicated) =
     clean_function (ResolveDataTables (long_tenant CHR ''b'') RecordStoreDedicated)"
  by code_simp

text \<open>
  A transient error of the first query sends a tenant with a dedicated store to the shared
  relations.
\<close>

definition dedicated_tenant :: tenant_db where
  "dedicated_tenant =
     \<lparr>td_tenants = [\<lparr>tn_id = ''t1'', tn_dsn = ''db'', tn_dsn_write = None, tn_reads = None, tn_max_conns = 4,
        tn_store = Some RecordStoreDedicated\<rparr>], td_bases = []\<rparr>"

lemma transient_error_shares_store:
  assumes "faults db = []"
  shows "map_sum id dt_Record (fst (DataTables dedicated_tenant \<lparr>rq_Tenant = ''t1'', rq_Base = []\<rparr> db)) = Inr ''t1_record'' \<and>
    map_sum id dt_Record (fst (DataTables dedicated_tenant \<lparr>rq_Tenant = ''t1'', rq_Base = []\<rparr> (db\<lparr>faults := [None, Some msg]\<rparr>))) =
      Inr ''record''"
proof -
  have "dedicatedPrefix (trim_space ''t1'') = ''t1''" "trim_space ''t1'' = ''t1''" by code_simp+
  then show ?thesis
    using assms
    by (simp add: DataTables_def ResolveTenantID_def loadProfile_def dbind_def dquery_def dexec_def attempt_def
        find_tenant_def dedicated_tenant_def profile_of_def coalesce_empty_def Let_def ResolveDataTables_def ParseRecordStore_def
        RecordStoreShared_def RecordStoreDedicated_def SharedDataTables_def to_lower_def to_lower_char_def trim_space_def trim_left_def is_space_def)
qed

end
