(* ===== verification/Calc_Queue.thy ===== *)
theory Calc_Queue
  imports Calc_DB
begin

text \<open>
  The task queue of the calculation engine (\<open>internal/service/calc/queue.go\<close>): adding tasks,
  claiming a batch with a share per tenant, completing, retrying with growing delays, and the
  dead letters.
\<close>

section \<open>Tasks\<close>

record task =
  t_ID :: int
  t_TenantID :: string
  t_TableName :: string
  t_RecordID :: string
  t_TargetFieldIDs :: "string list"
  t_Status :: int
  t_RetryCount :: int
  t_MaxRetry :: int

text \<open>The columns \<open>ClaimFair\<close> scans.\<close>

definition scan_task :: "task_row \<Rightarrow> task" where
  "scan_task r =
     \<lparr>t_ID = q_id r, t_TenantID = q_tenant r, t_TableName = q_table r, t_RecordID = q_record r,
      t_TargetFieldIDs = q_fields r, t_Status = q_status r, t_RetryCount = q_retry r, t_MaxRetry = q_max r\<rparr>"

section \<open>Operations\<close>

definition Enqueue :: "string \<Rightarrow> string \<Rightarrow> string \<Rightarrow> string list \<Rightarrow> unit db_op" where
  "Enqueue tenantID tableName recordID targetFieldIDs =
     (if tenantID = [] \<or> recordID = [] then ret ()
      else dexec (st_enqueue tenantID tableName recordID targetFieldIDs))"

definition EnqueueTable :: "string \<Rightarrow> string \<Rightarrow> string \<Rightarrow> string list \<Rightarrow> unit db_op" where
  "EnqueueTable tenantID tableName vtID fieldIDs =
     (if tenantID = [] \<or> tableName = [] \<or> vtID = [] then ret ()
      else dbind (dexec (st_widen tenantID tableName))
        (\<lambda>_. dexec (st_enqueue_table tenantID tableName vtID fieldIDs)))"

definition EnqueueMany :: "task list \<Rightarrow> unit db_op" where
  "EnqueueMany jobs =
     dloop (\<lambda>j. Enqueue (t_TenantID j) (t_TableName j) (t_RecordID j) (t_TargetFieldIDs j)) jobs"

text \<open>\<open>ClaimFair\<close>: one transaction. \<open>or_default\<close> is \<open>if x <= 0 { x = d }\<close>.\<close>

definition or_default :: "int \<Rightarrow> int \<Rightarrow> int" where
  "or_default x d = (if x \<le> 0 then d else x)"

definition ClaimFair :: "int \<Rightarrow> int \<Rightarrow> task list db_op" where
  "ClaimFair batch0 perTenant0 =
     (let batch = or_default batch0 16; perTenant = or_default perTenant0 batch in
      in_tx (dbind (tquery (\<lambda>db. map scan_task (claim_rows batch perTenant db))) (\<lambda>out.
        if out = [] then ret [] else dbind (texec (st_mark (map t_ID out))) (\<lambda>_. ret out))))"

definition Claim :: "int \<Rightarrow> task list db_op" where
  "Claim batch = ClaimFair batch 0"

definition MarkCompleted :: "int \<Rightarrow> unit db_op" where
  "MarkCompleted i = dexec (st_delete_task i)"

text \<open>
  \<open>MarkRetry\<close>. The delay is \<open>1 << min(next, 8)\<close> seconds, cut at five minutes; a negative shift
  count panics. \<open>cause\<close> is the text of the error, empty for nil.
\<close>

definition backoff :: "int \<Rightarrow> cerr + int" where
  "backoff next =
     (if min next 8 < 0 then Inl NegativeShift
      else let b = 2 ^ nat (min next 8) in Inr (if b > 5 * 60 then 5 * 60 else b))"

definition MarkRetry :: "task \<Rightarrow> string \<Rightarrow> unit db_op" where
  "MarkRetry t cause =
     (let next = t_RetryCount t + 1; msg = take 2000 cause in
      if next \<ge> t_MaxRetry t \<and> t_MaxRetry t > 0
      then dbind (dexec (st_bury (t_ID t) next msg)) (\<lambda>_. dexec (st_delete_task (t_ID t)))
      else (case backoff next of
          Inl e \<Rightarrow> fail e
        | Inr secs \<Rightarrow> dexec (st_requeue (t_ID t) next secs msg)))"

definition PendingRecordIDs :: "string list \<Rightarrow> (string \<times> bool) list db_op" where
  "PendingRecordIDs recordIDs =
     (if recordIDs = [] then ret []
      else dquery (\<lambda>db. map (\<lambda>i. (i, True))
        (remdups (map q_record (filter (\<lambda>r. q_record r \<in> set recordIDs \<and> q_status r = StatusPending) (queue db))))))"

definition HasPending :: "string \<Rightarrow> bool db_op" where
  "HasPending recordID =
     dquery (\<lambda>db. length (filter (\<lambda>r. q_record r = recordID \<and> q_status r = StatusPending) (queue db)) > 0)"

definition PurgeFinished :: "unit db_op" where
  "PurgeFinished = dexec st_purge"

text \<open>
  \<open>ReplayDeadLetters\<close> returns the number of letters replayed also with an error. Letters that
  failed at the same second are taken in the order of their rows.
\<close>

fun replay :: "int \<Rightarrow> dead_row list \<Rightarrow> calc_db \<Rightarrow> (int \<times> cerr option) \<times> calc_db" where
  "replay n [] db = ((n, None), db)"
| "replay n (r # rs) db =
     (case Enqueue (d_tenant r) (d_table r) (d_record r) (d_fields r) db of
        (Inl e, db') \<Rightarrow> ((n, Some e), db')
      | (Inr _, db') \<Rightarrow>
          (case dexec (st_delete_dead (d_id r)) db' of
             (Inl e, db'') \<Rightarrow> ((n, Some e), db'')
           | (Inr _, db'') \<Rightarrow> replay (n + 1) rs db''))"

definition ReplayDeadLetters :: "string \<Rightarrow> int \<Rightarrow> calc_db \<Rightarrow> (int \<times> cerr option) \<times> calc_db" where
  "ReplayDeadLetters tenantID limit0 db =
     (let limit = or_default limit0 100 in
      case dquery (\<lambda>db. take (nat limit) (sort_key d_failed
          (filter (\<lambda>r. tenantID = [] \<or> d_tenant r = tenantID) (dead db)))) db of
        (Inl e, db') \<Rightarrow> ((0, Some e), db')
      | (Inr rs, db') \<Rightarrow> replay 0 rs db')"

record queue_snapshot =
  s_Pending :: int
  s_Processing :: int
  s_Completed :: int
  s_Failed :: int
  s_DeadLetters :: int
  s_ByTenant :: "(string \<times> int) list"
  s_Alert :: bool

definition count_status :: "int \<Rightarrow> calc_db \<Rightarrow> int" where
  "count_status st db = int (length (filter (\<lambda>r. q_status r = st) (queue db)))"

definition pending_by_tenant :: "calc_db \<Rightarrow> (string \<times> int) list" where
  "pending_by_tenant db =
     (let ts = map q_tenant (filter (\<lambda>r. q_status r = StatusPending) (queue db))
      in map (\<lambda>t. (t, int (count_list ts t))) (remdups ts))"

text \<open>\<open>Snapshot\<close>; a failing count of the dead letters is ignored and leaves zero.\<close>

definition Snapshot :: "int \<Rightarrow> queue_snapshot db_op" where
  "Snapshot alertLen =
     dbind (dquery (\<lambda>db. map (\<lambda>st. count_status st db)
         [StatusPending, StatusProcessing, StatusCompleted, StatusFailed])) (\<lambda>cs.
     dbind (\<lambda>db. case dquery (\<lambda>db. int (length (dead db))) db of
         (Inl e, db') \<Rightarrow> (Inr 0, db') | (Inr n, db') \<Rightarrow> (Inr n, db')) (\<lambda>n.
     dbind (dquery pending_by_tenant) (\<lambda>bt.
       ret \<lparr>s_Pending = cs ! 0, s_Processing = cs ! 1, s_Completed = cs ! 2, s_Failed = cs ! 3,
            s_DeadLetters = n, s_ByTenant = bt, s_Alert = (alertLen > 0 \<and> cs ! 0 \<ge> alertLen)\<rparr>)))"

section \<open>Handlers keep the invariants\<close>

context db_side
begin

lemma keeps_Enqueue [keep_rules]: "keeps I (Enqueue t tb r ids)"
  unfolding Enqueue_def by (intro keep_rules)

lemma keeps_EnqueueTable [keep_rules]: "keeps I (EnqueueTable t tb vt ids)"
  unfolding EnqueueTable_def by (intro keep_rules)

lemma keeps_EnqueueMany [keep_rules]: "keeps I (EnqueueMany jobs)"
  unfolding EnqueueMany_def by (intro keep_rules)

lemma keeps_ClaimFair [keep_rules]: "keeps I (ClaimFair batch perTenant)"
  unfolding ClaimFair_def Let_def by (intro keep_rules)

lemma keeps_MarkCompleted [keep_rules]: "keeps I (MarkCompleted i)"
  unfolding MarkCompleted_def by (intro keep_rules)

lemma keeps_MarkRetry [keep_rules]: "keeps I (MarkRetry t cause)"
proof -
  have "0 \<le> t_RetryCount t + 1" if "backoff (t_RetryCount t + 1) = Inr secs" for secs
    using that by (auto simp: backoff_def Let_def split: if_splits)
  then show ?thesis
    unfolding MarkRetry_def Let_def by (auto intro: keep_rules keeps_requeue split: sum.split)
qed

lemma keeps_PurgeFinished [keep_rules]: "keeps I PurgeFinished"
  unfolding PurgeFinished_def by (intro keep_rules)

lemma keeps_HasPending [keep_rules]: "keeps I (HasPending r)"
  unfolding HasPending_def by (intro keep_rules)

lemma keeps_Snapshot [keep_rules]: "keeps I (Snapshot n)"
proof -
  have "keeps I (\<lambda>db. case dquery (\<lambda>db. int (length (dead db))) db of
         (Inl e, db') \<Rightarrow> (Inr 0, db') | (Inr n, db') \<Rightarrow> (Inr n, db'))"
    unfolding keeps_def
    by (auto split: prod.split sum.split dest: keepsD [OF keeps_query])
  then show ?thesis unfolding Snapshot_def by (intro keep_rules)
qed

lemma replay_inv: "I db \<Longrightarrow> I (snd (replay n rs db))"
proof (induction n rs db rule: replay.induct)
  case (2 n r rs db)
  obtain res db1 where e: "Enqueue (d_tenant r) (d_table r) (d_record r) (d_fields r) db = (res, db1)" by fastforce
  obtain res' db2 where d: "dexec (st_delete_dead (d_id r)) db1 = (res', db2)" by fastforce
  have 1: "I db1" by (rule keepsD [OF keeps_Enqueue e "2.prems"])
  have 2: "I db2" by (rule keepsD [OF keeps_statements(8) d 1])
  show ?case using "2.IH" e d 1 2 by (auto split: sum.splits)
qed simp

lemma Replay_inv: "I db \<Longrightarrow> I (snd (ReplayDeadLetters tenant limit db))"
  unfolding ReplayDeadLetters_def Let_def
  by (auto split: prod.splits sum.splits dest: keepsD [OF keeps_query] replay_inv)

end

section \<open>Well-formed queues\<close>

definition queue_wf :: "calc_db \<Rightarrow> bool" where
  "queue_wf db \<longleftrightarrow>
     sorted_wrt (<) (map q_id (queue db)) \<and>
     (\<forall>r \<in> set (queue db). q_id r < queue_seq db \<and> q_status r \<in> {0, 1, 2, 3} \<and>
        0 \<le> q_retry r \<and> q_max r = default_max_retry) \<and>
     sorted_wrt (<) (map d_id (dead db)) \<and> (\<forall>r \<in> set (dead db). d_id r < dead_seq db)"

lemma sorted_map_filter: "sorted_wrt R (map f xs) \<Longrightarrow> sorted_wrt R (map f (filter P xs))"
  unfolding sorted_wrt_map by (rule sorted_wrt_filter)

lemma sorted_map_update:
  assumes "\<And>r. f (g r) = f r"
  shows "sorted_wrt R (map f (map g xs)) = sorted_wrt R (map f xs)"
  using assms by (simp add: sorted_wrt_map)

lemma number_tasks_sorted:
  "sorted_wrt (<) (map q_id (number_tasks db i tenant tbl ids rs)) \<and>
   (\<forall>r \<in> set (number_tasks db i tenant tbl ids rs). i \<le> q_id r \<and> q_id r < i + int (length rs) \<and>
      q_status r = StatusPending \<and> q_retry r = 0 \<and> q_max r = default_max_retry)"
  by (induction rs arbitrary: i) (fastforce simp: new_task_def)+

lemma number_dead_sorted:
  "sorted_wrt (<) (map d_id (number_dead db i n msg rs)) \<and>
   (\<forall>r \<in> set (number_dead db i n msg rs). i \<le> d_id r \<and> d_id r < i + int (length rs))"
  by (induction rs arbitrary: i) fastforce+

lemmas statement_defs = st_enqueue_def st_widen_def st_enqueue_table_def st_mark_def st_delete_task_def
  st_bury_def st_requeue_def st_purge_def st_delete_dead_def st_delete_field_links_def st_insert_link_def
  st_delete_edge_def st_delete_inverse_def st_patch_def

lemma queue_wf_other [simp]:
  "queue_wf (db\<lparr>faults := fs\<rparr>) = queue_wf db"
  "queue_wf (db\<lparr>aborted := a\<rparr>) = queue_wf db"
  "queue_wf (db\<lparr>links := ls\<rparr>) = queue_wf db"
  "queue_wf (db\<lparr>link_seq := n\<rparr>) = queue_wf db"
  "queue_wf (db\<lparr>recs := rs\<rparr>) = queue_wf db"
  by (simp_all add: queue_wf_def)

lemma queue_wf_update:
  assumes "queue_wf db" and "\<And>r. q_id (g r) = q_id r"
    and "\<And>r. r \<in> set (queue db) \<Longrightarrow> q_status (g r) \<in> {0, 1, 2, 3} \<and> 0 \<le> q_retry (g r) \<and> q_max (g r) = q_max r"
  shows "queue_wf (db\<lparr>queue := map g (queue db)\<rparr>)"
  using assms by (auto simp: queue_wf_def sorted_wrt_map)

lemma queue_wf_filter: "queue_wf db \<Longrightarrow> queue_wf (db\<lparr>queue := filter P (queue db)\<rparr>)"
  by (auto simp: queue_wf_def intro: sorted_map_filter)

lemma queue_wf_append:
  assumes "queue_wf db" "sorted_wrt (<) (map q_id rs)" "0 \<le> n"
    and "\<forall>r \<in> set rs. queue_seq db \<le> q_id r \<and> q_id r < queue_seq db + n \<and> q_status r = StatusPending \<and>
      q_retry r = 0 \<and> q_max r = default_max_retry"
  shows "queue_wf (db\<lparr>queue := queue db @ rs, queue_seq := queue_seq db + n\<rparr>)"
  using assms by (fastforce simp: queue_wf_def sorted_wrt_append status_defs)

interpretation queue_inv: db_inv queue_wf
proof unfold_locales
  fix db tenant tbl rid ids assume "queue_wf db"
  then show "queue_wf (snd (st_enqueue tenant tbl rid ids db))"
    using queue_wf_append [of db "[new_task db (queue_seq db) tenant tbl rid ids]" 1]
    by (simp add: st_enqueue_def new_task_def)
next
  fix db tenant tbl vt ids assume "queue_wf db"
  then show "queue_wf (snd (st_enqueue_table tenant tbl vt ids db))"
    unfolding st_enqueue_table_def Let_def snd_conv
    by (rule queue_wf_append [OF _ conjunct1 [OF number_tasks_sorted] _ conjunct2 [OF number_tasks_sorted]]) simp_all
next
  fix db i n msg assume "queue_wf db"
  then show "queue_wf (snd (st_bury i n msg db))"
    using number_dead_sorted [of db "dead_seq db" n msg "filter (\<lambda>r. q_id r = i) (queue db)"]
    by (fastforce simp: st_bury_def Let_def queue_wf_def sorted_wrt_append)
next
  fix db i assume "queue_wf db"
  then show "queue_wf (snd (st_delete_dead i db))"
    by (auto simp: st_delete_dead_def queue_wf_def intro: sorted_map_filter)
next
  fix db tenant tbl assume "queue_wf db"
  then show "queue_wf (snd (st_widen tenant tbl db))"
    unfolding st_widen_def snd_conv by (intro queue_wf_update) (auto simp: queue_wf_def)
next
  fix db qs assume "queue_wf db"
  then show "queue_wf (snd (st_mark qs db))"
    unfolding st_mark_def snd_conv by (intro queue_wf_update) (auto simp: queue_wf_def status_defs)
next
  fix db i n secs msg assume "0 \<le> (n :: int)" "queue_wf db"
  then show "queue_wf (snd (st_requeue i n secs msg db))"
    unfolding st_requeue_def snd_conv by (intro queue_wf_update) (auto simp: queue_wf_def status_defs)
qed (simp_all add: statement_defs queue_wf_filter Let_def)

section \<open>Claiming\<close>

lemma due_rows_wf:
  "queue_wf db \<Longrightarrow> due_rows db =
     filter (\<lambda>r. q_status r = StatusPending \<and> q_next r \<le> clock db \<and> q_id r \<notin> set (locked db)) (queue db)"
  unfolding due_rows_def queue_wf_def
  by (intro sort_key_id_if_sorted strict_sorted_imp_sorted sorted_map_filter) (simp add: strict_sorted_iff)

text \<open>The window function keeps the first \<open>p\<close> rows of each tenant.\<close>

lemma rank_take:
  "sorted_wrt (<) (map f ys) \<Longrightarrow>
     filter (\<lambda>r. length (filter (\<lambda>r'. f r' \<le> f r) ys) \<le> p) ys = take p ys" for f :: "'a \<Rightarrow> int"
proof (induction ys arbitrary: p)
  case (Cons y ys)
  have first: "filter (\<lambda>r'. f r' \<le> f y) ys = []" using Cons.prems by (auto simp: filter_empty_conv)
  have rest: "filter (\<lambda>r. length (filter (\<lambda>r'. f r' \<le> f r) (y # ys)) \<le> p) ys =
      filter (\<lambda>r. Suc (length (filter (\<lambda>r'. f r' \<le> f r) ys)) \<le> p) ys"
    using Cons.prems by (intro filter_cong) auto
  show ?case
  proof (cases p)
    case 0
    then show ?thesis using rest first by simp
  next
    case (Suc q)
    then show ?thesis using rest first Cons.IH [of q] Cons.prems by simp
  qed
qed simp

definition tenant_rows :: "string \<Rightarrow> task_row list \<Rightarrow> task_row list" where
  "tenant_rows t = filter (\<lambda>r. q_tenant r = t)"

lemma ranked_tenant:
  assumes "sorted_wrt (<) (map q_id due)"
  shows "tenant_rows t (filter (\<lambda>r. int (row_number due r) \<le> p) due) = take (nat p) (tenant_rows t due)"
proof -
  have s: "sorted_wrt (<) (map q_id (tenant_rows t due))"
    unfolding tenant_rows_def by (rule sorted_map_filter [OF assms])
  have "tenant_rows t (filter (\<lambda>r. int (row_number due r) \<le> p) due) =
      filter (\<lambda>r. int (length (filter (\<lambda>r'. q_id r' \<le> q_id r) (tenant_rows t due))) \<le> p) (tenant_rows t due)"
    unfolding tenant_rows_def row_number_def filter_filter by (rule filter_cong) (auto simp: conj_commute)
  also have "\<dots> = take (nat p) (tenant_rows t due)"
  proof (cases "0 \<le> p")
    case True
    then show ?thesis using rank_take [OF s, of "nat p"] by (simp add: le_nat_iff)
  next
    case False
    then have "\<not> int n \<le> p" for n by simp
    with False show ?thesis by simp
  qed
  finally show ?thesis .
qed

lemma due_sorted: "queue_wf db \<Longrightarrow> sorted_wrt (<) (map q_id (take n (due_rows db)))"
  unfolding take_map [symmetric]
  by (rule sorted_wrt_take) (simp add: due_rows_wf, simp add: queue_wf_def sorted_map_filter)

lemma claim_rows_sub: "set (claim_rows b p db) \<subseteq> set (due_rows db)"
  unfolding claim_rows_def Let_def by (auto dest!: in_set_takeD)

lemma claim_rows_sorted: "queue_wf db \<Longrightarrow> sorted_wrt (<) (map q_id (claim_rows b p db))"
  unfolding claim_rows_def Let_def take_map [symmetric]
  by (intro sorted_wrt_take sorted_map_filter due_sorted)

lemma claim_rows_length: "length (claim_rows b p db) \<le> nat b"
  by (simp add: claim_rows_def Let_def)

lemma length_tenant_take: "length (tenant_rows t (take n xs)) \<le> length (tenant_rows t xs)"
proof -
  have "length (tenant_rows t xs) = length (tenant_rows t (take n xs)) + length (tenant_rows t (drop n xs))"
    unfolding tenant_rows_def by (metis append_take_drop_id filter_append length_append)
  then show ?thesis by simp
qed

lemma claim_rows_share: "queue_wf db \<Longrightarrow> length (tenant_rows t (claim_rows b p db)) \<le> nat p"
  unfolding claim_rows_def Let_def
  using length_tenant_take ranked_tenant [OF due_sorted] by (metis length_take min.bounded_iff)

text \<open>The oldest due row is always among the claimed ones.\<close>

lemma claim_rows_first:
  assumes "0 < b" "0 < p" "due_rows db = r # rs" "queue_wf db"
  shows "\<exists>rs'. claim_rows b p db = r # rs'"
proof -
  obtain n where n: "nat (b * 4) = Suc n" using assms(1) by (cases "nat (b * 4)") auto
  obtain m where m: "nat b = Suc m" using assms(1) by (cases "nat b") auto
  let ?due = "take (nat (b * 4)) (due_rows db)"
  have due: "?due = r # take n rs" using assms(3) n by simp
  have "\<forall>r' \<in> set (take n rs). q_id r < q_id r'"
    using due_sorted [OF assms(4), of "nat (b * 4)"] by (simp add: due)
  then have "filter (\<lambda>r'. q_tenant r' = q_tenant r \<and> q_id r' \<le> q_id r) (take n rs) = []"
    by (auto simp: filter_empty_conv)
  then have "row_number ?due r = 1" by (simp add: row_number_def due)
  then show ?thesis using assms(2) m by (simp add: claim_rows_def Let_def due)
qed

text \<open>When the backlog fits and the batch is not full, every tenant gets its whole share.\<close>

lemma claim_rows_fair:
  assumes "queue_wf db" "length (due_rows db) \<le> nat (b * 4)" "length (claim_rows b p db) < nat b"
  shows "tenant_rows t (claim_rows b p db) = take (nat p) (tenant_rows t (due_rows db))"
proof -
  have "take (nat (b * 4)) (due_rows db) = due_rows db" using assms(2) by simp
  moreover from this have "claim_rows b p db = filter (\<lambda>r. int (row_number (due_rows db) r) \<le> p) (due_rows db)"
    using assms(3) by (simp add: claim_rows_def Let_def)
  ultimately show ?thesis using ranked_tenant [OF due_sorted [OF assms(1), of "nat (b * 4)"]] by simp
qed

lemma claim_rows_faults [simp]:
  "claim_rows b p (db\<lparr>faults := fs\<rparr>) = claim_rows b p db"
  "claim_rows b p (db\<lparr>aborted := a\<rparr>) = claim_rows b p db"
  by (simp_all add: claim_rows_def due_rows_def)

lemma ClaimFair_Inr:
  assumes "ClaimFair b p db = (Inr ts, db')"
  defines "batch \<equiv> or_default b 16" and "share \<equiv> or_default p (or_default b 16)"
  shows "ts = map scan_task (claim_rows batch share db)"
    and "db' = db\<lparr>queue := map (\<lambda>r. if q_id r \<in> t_ID ` set ts then r\<lparr>q_status := StatusProcessing\<rparr> else r)
           (queue db), faults := faults db', aborted := False\<rparr>"
proof -
  from assms(1) show "ts = map scan_task (claim_rows batch share db)"
    unfolding ClaimFair_def Let_def batch_def share_def
    by (auto elim!: in_tx_Inr dbind_Inr dest!: tquery_Inr texec_Inr split: if_splits)
  from assms(1) show "db' = db\<lparr>queue := map (\<lambda>r. if q_id r \<in> t_ID ` set ts
      then r\<lparr>q_status := StatusProcessing\<rparr> else r) (queue db), faults := faults db', aborted := False\<rparr>"
    unfolding ClaimFair_def Let_def batch_def share_def
    by (auto elim!: in_tx_Inr dbind_Inr dest!: tquery_Inr texec_Inr simp: st_mark_def image_image split: if_splits)
qed

section \<open>Adding tasks\<close>

lemma pending_faults [simp]: "pending (db\<lparr>faults := fs\<rparr>) = pending db"
  by (simp add: pending_def fun_eq_iff)

lemma Enqueue_Inr:
  assumes "Enqueue tenant tbl rid ids db = (Inr (), db')" "tenant \<noteq> []" "rid \<noteq> []"
  shows "pending db tenant rid \<Longrightarrow> db' = db\<lparr>faults := tl (faults db)\<rparr>"
    and "\<not> pending db tenant rid \<Longrightarrow> db' = db\<lparr>queue := queue db @ [new_task db (queue_seq db) tenant tbl rid ids],
      queue_seq := queue_seq db + 1, faults := tl (faults db)\<rparr>"
  using assms by (auto simp: Enqueue_def st_enqueue_def new_task_def dest!: dexec_Inr)

text \<open>At most one pending task per record of a tenant.\<close>

definition one_pending :: "calc_db \<Rightarrow> bool" where
  "one_pending db \<longleftrightarrow>
     distinct (map (\<lambda>r. (q_tenant r, q_record r)) (filter (\<lambda>r. q_status r = StatusPending) (queue db)))"

lemma one_pending_add:
  "one_pending db \<Longrightarrow> \<not> pending db tenant rid \<Longrightarrow>
     one_pending (db\<lparr>queue := queue db @ [new_task db i tenant tbl rid ids], queue_seq := n, faults := fs\<rparr>)"
  by (auto simp: one_pending_def pending_def new_task_def list_ex_iff)

text \<open>
  Records keep their tasks through a store operation: a row that disappears from the queue is a
  dead letter.
\<close>

definition kept :: "int \<Rightarrow> string \<Rightarrow> string \<Rightarrow> calc_db \<Rightarrow> bool" where
  "kept i tenant rid db \<longleftrightarrow>
     (\<exists>r \<in> set (queue db). q_id r = i \<and> q_tenant r = tenant \<and> q_record r = rid) \<or>
     (\<exists>d \<in> set (dead db). d_queue d = i \<and> d_tenant d = tenant \<and> d_record d = rid)"

lemma number_dead_mem:
  "r \<in> set rs \<Longrightarrow> \<exists>d \<in> set (number_dead db i n msg rs). d_queue d = q_id r \<and> d_tenant d = q_tenant r \<and>
     d_table d = q_table r \<and> d_record d = q_record r \<and> d_fields d = q_fields r \<and> d_retry d = n \<and> d_error d = msg"
  by (induction rs arbitrary: i) auto

lemma kept_bury:
  "r \<in> set (queue db) \<Longrightarrow> \<exists>d \<in> set (dead (snd (st_bury (q_id r) n msg db))). d_queue d = q_id r \<and>
     d_tenant d = q_tenant r \<and> d_table d = q_table r \<and> d_record d = q_record r \<and> d_fields d = q_fields r \<and>
     d_retry d = n \<and> d_error d = msg"
  using number_dead_mem [of r "filter (\<lambda>r'. q_id r' = q_id r) (queue db)" db "dead_seq db" n msg]
  by (fastforce simp: st_bury_def Let_def)

lemma backoff_bounds: "backoff n = Inr s \<Longrightarrow> s = 2 ^ nat (min n 8) \<and> 1 \<le> s \<and> s \<le> 256"
proof -
  assume b: "backoff n = Inr s"
  then have n: "0 \<le> min n 8" by (auto simp: backoff_def split: if_splits)
  have "(2::int) ^ nat (min n 8) \<le> 2 ^ 8" by (rule power_increasing) auto
  then show ?thesis using b n by (auto simp: backoff_def Let_def split: if_splits)
qed

lemma backoff_total: "0 \<le> n \<Longrightarrow> \<exists>s. backoff n = Inr s"
  by (simp add: backoff_def Let_def)

section \<open>Properties\<close>

text \<open>A store with the given queue at time zero, for examples.\<close>

definition store_of :: "task_row list \<Rightarrow> calc_db" where
  "store_of q = \<lparr>clock = 0, faults = [], aborted = False, locked = [], queue = q, queue_seq = 100, dead = [], dead_seq = 1,
     links = [], link_seq = 1, recs = []\<rparr>"

definition row_of :: "int \<Rightarrow> string \<Rightarrow> string \<Rightarrow> string list \<Rightarrow> int \<Rightarrow> task_row" where
  "row_of i tenant rid ids st = \<lparr>q_id = i, q_tenant = tenant, q_table = ''t'', q_record = rid, q_fields = ids,
     q_status = st, q_retry = 0, q_max = 8, q_next = 0, q_error = []\<rparr>"

text \<open>
  C22. \<open>ClaimFair\<close> returns at most \<open>batch\<close> tasks and at most \<open>perTenant\<close> of each tenant, in the
  order of their ids and without repetition; each is a row that was pending, due and not locked;
  exactly the returned rows become \<open>processing\<close> and nothing else changes in the queue. If any
  row is due, the oldest one is claimed.
\<close>

theorem ClaimFair_correct:
  assumes "queue_wf db" "ClaimFair b p db = (Inr ts, db')"
  shows "int (length ts) \<le> or_default b 16 \<and>
    (\<forall>tenant. int (length (filter (\<lambda>t. t_TenantID t = tenant) ts)) \<le> or_default p (or_default b 16)) \<and>
    sorted_wrt (<) (map t_ID ts) \<and>
    (\<forall>t \<in> set ts. \<exists>r \<in> set (queue db). t = scan_task r \<and> q_status r = StatusPending \<and>
       q_next r \<le> clock db \<and> q_id r \<notin> set (locked db)) \<and>
    queue db' = map (\<lambda>r. if q_id r \<in> t_ID ` set ts then r\<lparr>q_status := StatusProcessing\<rparr> else r) (queue db) \<and>
    (due_rows db \<noteq> [] \<longrightarrow> ts \<noteq> [] \<and> t_ID (hd ts) = q_id (hd (due_rows db)))"
proof -
  define batch share where "batch = or_default b 16" and "share = or_default p (or_default b 16)"
  have pos: "0 < batch" "0 < share" by (auto simp: batch_def share_def or_default_def)
  let ?rs = "claim_rows batch share db"
  note res = ClaimFair_Inr [OF assms(2), folded batch_def share_def]
  have len: "int (length ts) \<le> batch" using claim_rows_length [of batch share db] pos res(1) by simp
  have share: "int (length (filter (\<lambda>t. t_TenantID t = tenant) ts)) \<le> share" for tenant
  proof -
    have "filter (\<lambda>t. t_TenantID t = tenant) ts = map scan_task (tenant_rows tenant ?rs)"
      unfolding res(1) tenant_rows_def filter_map by (simp add: scan_task_def comp_def)
    then show ?thesis using claim_rows_share [OF assms(1), of tenant batch share] pos by simp
  qed
  have ids: "map t_ID ts = map q_id ?rs" by (simp add: res(1) scan_task_def)
  have mem: "\<exists>r \<in> set (queue db). t = scan_task r \<and> q_status r = StatusPending \<and> q_next r \<le> clock db \<and>
      q_id r \<notin> set (locked db)" if "t \<in> set ts" for t
    using that claim_rows_sub [of batch share db] unfolding res(1) due_rows_def by fastforce
  have first: "ts \<noteq> [] \<and> t_ID (hd ts) = q_id (hd (due_rows db))" if "due_rows db \<noteq> []"
    using that claim_rows_first [OF pos, of db] assms(1) res(1) by (cases "due_rows db") (auto simp: scan_task_def)
  have "queue db' = map (\<lambda>r. if q_id r \<in> t_ID ` set ts then r\<lparr>q_status := StatusProcessing\<rparr> else r) (queue db)"
    by (subst res(2)) simp
  then show ?thesis
    using len share mem first claim_rows_sorted [OF assms(1), of batch share] ids batch_def share_def by simp
qed

theorem ClaimFair_correct_witness:
  "map t_ID (the (case fst (ClaimFair 3 1 (store_of [row_of 1 ''a'' ''x'' [] 0, row_of 2 ''a'' ''y'' [] 0, row_of 3 ''b'' ''z'' [] 0]))
     of Inr ts \<Rightarrow> Some ts | _ \<Rightarrow> None)) = [1, 3]"
proof -
  let ?db = "store_of [row_of 1 ''a'' ''x'' [] 0, row_of 2 ''a'' ''y'' [] 0, row_of 3 ''b'' ''z'' [] 0]"
  let ?ts = "[scan_task (row_of 1 ''a'' ''x'' [] 0), scan_task (row_of 3 ''b'' ''z'' [] 0)]"
  obtain db' where c: "ClaimFair 3 1 ?db = (Inr ?ts, db')"
  proof
    show "ClaimFair 3 1 ?db = (Inr ?ts, snd (ClaimFair 3 1 ?db))" by code_simp
  qed
  have "queue_wf ?db" by (simp add: queue_wf_def store_of_def row_of_def default_max_retry_def)
  from ClaimFair_correct [OF this c] have "sorted_wrt (<) (map t_ID ?ts)" by blast
  with c show ?thesis by (simp add: scan_task_def row_of_def)
qed

text \<open>
  C27. The share is fair while the backlog is short: if at most \<open>4 * batch\<close> rows are due and the
  batch is not full, every tenant gets its oldest due tasks up to \<open>perTenant\<close>.
\<close>

theorem ClaimFair_fair:
  assumes "queue_wf db" "ClaimFair b p db = (Inr ts, db')"
    and "int (length (due_rows db)) \<le> or_default b 16 * 4" "int (length ts) < or_default b 16"
  shows "filter (\<lambda>t. t_TenantID t = tenant) ts =
    map scan_task (take (nat (or_default p (or_default b 16))) (tenant_rows tenant (due_rows db)))"
proof -
  define batch share where "batch = or_default b 16" and "share = or_default p (or_default b 16)"
  have ts: "ts = map scan_task (claim_rows batch share db)"
    using ClaimFair_Inr(1) [OF assms(2)] by (simp add: batch_def share_def)
  have "tenant_rows tenant (claim_rows batch share db) = take (nat share) (tenant_rows tenant (due_rows db))"
    using assms(3,4) ts batch_def by (intro claim_rows_fair [OF assms(1)]) auto
  moreover have "filter (\<lambda>t. t_TenantID t = tenant) ts = map scan_task (tenant_rows tenant (claim_rows batch share db))"
    unfolding ts tenant_rows_def filter_map by (simp add: scan_task_def comp_def)
  ultimately show ?thesis by (simp add: share_def)
qed

theorem ClaimFair_fair_witness:
  "filter (\<lambda>t. t_TenantID t = ''b'') [scan_task (row_of 1 ''a'' ''x'' [] 0), scan_task (row_of 3 ''b'' ''z'' [] 0)] =
     map scan_task (take 1 (tenant_rows ''b'' (due_rows (store_of
       [row_of 1 ''a'' ''x'' [] 0, row_of 2 ''a'' ''y'' [] 0, row_of 3 ''b'' ''z'' [] 0]))))"
proof -
  let ?db = "store_of [row_of 1 ''a'' ''x'' [] 0, row_of 2 ''a'' ''y'' [] 0, row_of 3 ''b'' ''z'' [] 0]"
  let ?ts = "[scan_task (row_of 1 ''a'' ''x'' [] 0), scan_task (row_of 3 ''b'' ''z'' [] 0)]"
  have c: "ClaimFair 3 1 ?db = (Inr ?ts, snd (ClaimFair 3 1 ?db))" by code_simp
  have "queue_wf ?db" by (simp add: queue_wf_def store_of_def row_of_def default_max_retry_def)
  moreover have "int (length (due_rows ?db)) \<le> or_default 3 16 * 4" by code_simp
  moreover have "int (length ?ts) < or_default 3 16" by code_simp
  ultimately show ?thesis using ClaimFair_fair [OF _ c, of "''b''"] by (simp add: or_default_def)
qed

text \<open>
  With a longer backlog the share per tenant does not protect the others: the limit is
  taken before the ranking, so a tenant with eight old due tasks hides another one's, although
  the batch of two has a free place.
\<close>

lemma ClaimFair_hides_tenant:
  "map t_TenantID (the (case fst (ClaimFair 2 1 (store_of
      (map (\<lambda>i. row_of i ''a'' ''x'' [] 0) [1, 2, 3, 4, 5, 6, 7, 8] @ [row_of 9 ''b'' ''z'' [] 0])))
     of Inr ts \<Rightarrow> Some ts | _ \<Rightarrow> None)) = [''a'']"
  by code_simp

text \<open>
  C25. A successful \<open>Enqueue\<close> leaves the record with a pending task, keeps all rows of the
  queue, adds at most one, and keeps at most one pending task per record.
\<close>

theorem Enqueue_pending:
  assumes "Enqueue tenant tbl rid ids db = (Inr (), db')" "tenant \<noteq> []" "rid \<noteq> []"
  shows "pending db' tenant rid \<and>
    (\<exists>new. queue db' = queue db @ new \<and> length new \<le> 1 \<and> (pending db tenant rid \<longleftrightarrow> new = []) \<and>
       (\<forall>r \<in> set new. q_tenant r = tenant \<and> q_table r = tbl \<and> q_record r = rid \<and> q_fields r = ids \<and>
          q_next r = clock db)) \<and>
    (one_pending db \<longrightarrow> one_pending db')"
proof (cases "pending db tenant rid")
  case True
  then show ?thesis using Enqueue_Inr(1) [OF assms] by (auto simp: one_pending_def)
next
  case False
  note db' = Enqueue_Inr(2) [OF assms False]
  have "pending db' tenant rid" by (simp add: db' pending_def new_task_def)
  moreover have "one_pending db \<Longrightarrow> one_pending db'" unfolding db' by (rule one_pending_add [OF _ False])
  ultimately show ?thesis using False by (auto simp: db' new_task_def)
qed

theorem Enqueue_pending_witness:
  "pending (snd (Enqueue ''a'' ''t'' ''y'' [''f''] (store_of [row_of 1 ''a'' ''x'' [] 0]))) ''a'' ''y''"
proof -
  let ?db = "store_of [row_of 1 ''a'' ''x'' [] 0]"
  have "Enqueue ''a'' ''t'' ''y'' [''f''] ?db = (Inr (), snd (Enqueue ''a'' ''t'' ''y'' [''f''] ?db))" by code_simp
  from Enqueue_pending [OF this] show ?thesis by simp
qed

text \<open>
  A request to recalculate all fields (an empty field list) is dropped when a task for one
  field is already pending: the queue stays as it is and only that field will be recalculated.
  \<open>EnqueueTable\<close> widens the pending tasks first and does not lose the request.
\<close>

lemma Enqueue_loses_wider_request:
  "queue (snd (Enqueue ''a'' ''t'' ''x'' [] (store_of [row_of 1 ''a'' ''x'' [''f''] 0]))) = [row_of 1 ''a'' ''x'' [''f''] 0] \<and>
   queue (snd (EnqueueTable ''a'' ''t'' ''v'' [''g''] (store_of [row_of 1 ''a'' ''x'' [''f''] 0]))) = [row_of 1 ''a'' ''x'' [] 0]"
  by code_simp

lemma kept_faults [simp]: "kept i tenant rid (db\<lparr>faults := fs\<rparr>) = kept i tenant rid db"
  by (simp add: kept_def)

lemma queue_mem_id: "queue_wf db \<Longrightarrow> r \<in> set (queue db) \<Longrightarrow> r' \<in> set (queue db) \<Longrightarrow> q_id r' = q_id r \<Longrightarrow> r' = r"
  unfolding queue_wf_def strict_sorted_iff distinct_map by (auto dest: inj_onD)

lemma MarkRetry_again:
  assumes "queue_wf db" "r \<in> set (queue db)" "MarkRetry (scan_task r) msg db = (res, db')" "q_retry r + 1 < q_max r"
  shows "kept (q_id r) (q_tenant r) (q_record r) db' \<and>
    (res = Inr () \<longrightarrow> (\<exists>r' \<in> set (queue db'). q_id r' = q_id r \<and> q_record r' = q_record r \<and>
       q_fields r' = q_fields r \<and> q_status r' = StatusPending \<and> q_retry r' = q_retry r + 1 \<and>
       q_next r' = clock db + 2 ^ nat (q_retry r + 1) \<and> q_next r' \<le> clock db + 256 \<and> dead db' = dead db))"
proof -
  have retry: "0 \<le> q_retry r" "q_max r = 8" using assms(1,2) by (auto simp: queue_wf_def default_max_retry_def)
  obtain s where s: "backoff (q_retry r + 1) = Inr s" using backoff_total [of "q_retry r + 1"] retry by auto
  have s': "s = 2 ^ nat (q_retry r + 1)" "s \<le> 256" using backoff_bounds [OF s] assms(4) retry by (simp_all add: min_def)
  let ?st = "st_requeue (q_id r) (q_retry r + 1) s (take 2000 msg)"
  from assms(3,4) have m: "dexec ?st db = (res, db')" using s by (simp add: MarkRetry_def Let_def scan_task_def)
  show ?thesis
  proof (cases rule: dexec_cases [of db ?st])
    case (failed e fs)
    then show ?thesis using m assms(2) by (auto simp: kept_def)
  next
    case (ran x db1)
    then have db': "res = Inr ()" "db' = snd (?st (db\<lparr>faults := tl (faults db)\<rparr>))" using m by (auto simp: st_requeue_def)
    let ?r' = "r\<lparr>q_status := StatusPending, q_retry := q_retry r + 1, q_next := clock db + s, q_error := take 2000 msg\<rparr>"
    have "?r' \<in> set (queue db')" using assms(2) by (force simp: db' st_requeue_def)
    moreover have "dead db' = dead db" by (simp add: db' st_requeue_def)
    ultimately show ?thesis using s' by (auto simp: kept_def intro!: bexI [of _ ?r'])
  qed
qed

lemma MarkRetry_bury:
  assumes "queue_wf db" "r \<in> set (queue db)" "MarkRetry (scan_task r) msg db = (res, db')" "\<not> q_retry r + 1 < q_max r"
  shows "kept (q_id r) (q_tenant r) (q_record r) db' \<and>
    (res = Inr () \<longrightarrow> q_id r \<notin> q_id ` set (queue db') \<and>
       (\<exists>d \<in> set (dead db'). d_queue d = q_id r \<and> d_tenant d = q_tenant r \<and> d_table d = q_table r \<and>
          d_record d = q_record r \<and> d_fields d = q_fields r \<and> d_retry d = q_retry r + 1))"
proof -
  let ?bury = "st_bury (q_id r) (q_retry r + 1) (take 2000 msg)"
  have "q_max r = 8" using assms(1,2) by (auto simp: queue_wf_def default_max_retry_def)
  with assms(3,4) have m: "dbind (dexec ?bury) (\<lambda>_. dexec (st_delete_task (q_id r))) db = (res, db')"
    by (simp add: MarkRetry_def Let_def scan_task_def)
  show ?thesis
  proof (cases rule: dexec_cases [of db ?bury])
    case (failed e fs)
    then show ?thesis using m assms(2) by (auto simp: dbind_def kept_def)
  next
    case (ran x db1)
    obtain d where d: "d \<in> set (dead db1)" "d_queue d = q_id r \<and> d_tenant d = q_tenant r \<and> d_table d = q_table r \<and>
        d_record d = q_record r \<and> d_fields d = q_fields r \<and> d_retry d = q_retry r + 1"
      using kept_bury [of r "db\<lparr>faults := tl (faults db)\<rparr>" "q_retry r + 1" "take 2000 msg"] assms(2) ran(1) by auto
    from ran m have m': "dexec (st_delete_task (q_id r)) db1 = (res, db')" by (simp add: dbind_def)
    then have "dead db' = dead db1 \<and> (res = Inr () \<longrightarrow> q_id r \<notin> q_id ` set (queue db'))"
      by (cases rule: dexec_cases [of db1 "st_delete_task (q_id r)"]) (auto simp: st_delete_task_def)
    then show ?thesis using d by (auto simp: kept_def)
  qed
qed

text \<open>
  C24. \<open>MarkRetry\<close> never loses a task: under every fault the row is still in the queue or among
  the dead letters. When it succeeds, a task with attempts left is pending again with its
  counter increased, due in \<open>2 ^ (retry + 1)\<close> seconds, at most 256; a task without attempts
  left is gone from the queue and its dead letter carries its record and fields.
\<close>

theorem MarkRetry_outcome:
  assumes "queue_wf db" "r \<in> set (queue db)" "MarkRetry (scan_task r) msg db = (res, db')"
  shows "kept (q_id r) (q_tenant r) (q_record r) db' \<and>
    (res = Inr () \<longrightarrow>
       (if q_retry r + 1 < q_max r
        then \<exists>r' \<in> set (queue db'). q_id r' = q_id r \<and> q_record r' = q_record r \<and> q_fields r' = q_fields r \<and>
          q_status r' = StatusPending \<and> q_retry r' = q_retry r + 1 \<and>
          q_next r' = clock db + 2 ^ nat (q_retry r + 1) \<and> q_next r' \<le> clock db + 256 \<and> dead db' = dead db
        else q_id r \<notin> q_id ` set (queue db') \<and>
          (\<exists>d \<in> set (dead db'). d_queue d = q_id r \<and> d_tenant d = q_tenant r \<and> d_table d = q_table r \<and>
             d_record d = q_record r \<and> d_fields d = q_fields r \<and> d_retry d = q_retry r + 1)))"
  using MarkRetry_again [OF assms] MarkRetry_bury [OF assms] by (cases "q_retry r + 1 < q_max r") simp_all

theorem MarkRetry_outcome_witness:
  "let db' = snd (MarkRetry (scan_task (row_of 1 ''a'' ''x'' [] 1)) ''boom'' (store_of [row_of 1 ''a'' ''x'' [] 1]))
   in \<exists>r \<in> set (queue db'). q_retry r = 1 \<and> q_next r = 2"
proof -
  let ?r = "row_of 1 ''a'' ''x'' [] 1"
  let ?db = "store_of [?r]"
  have "queue_wf ?db" by (simp add: queue_wf_def store_of_def row_of_def default_max_retry_def)
  moreover have "?r \<in> set (queue ?db)" by (simp add: store_of_def)
  moreover have "MarkRetry (scan_task ?r) ''boom'' ?db = (Inr (), snd (MarkRetry (scan_task ?r) ''boom'' ?db))" by code_simp
  ultimately show ?thesis using MarkRetry_outcome [of ?db ?r] by (force simp: row_of_def store_of_def Let_def)
qed

text \<open>
  A retry can give a record two pending tasks: while a task is processed, a new one is
  enqueued for the same record, and then the first fails and becomes pending again.
\<close>

lemma retry_duplicates_pending:
  "let db = store_of [row_of 1 ''a'' ''x'' [] 1]; db1 = snd (Enqueue ''a'' ''t'' ''x'' [] db);
       db2 = snd (MarkRetry (scan_task (row_of 1 ''a'' ''x'' [] 1)) ''boom'' db1)
   in one_pending db \<and> one_pending db1 \<and> \<not> one_pending db2"
  by code_simp

text \<open>Replaying without faults: every letter of the list is deleted and its record is pending.\<close>

lemma pending_mono: "pending db t r \<Longrightarrow> pending (snd (Enqueue tenant tbl rid ids db)) t r"
  by (cases rule: dexec_cases [of db "st_enqueue tenant tbl rid ids"])
    (auto simp: Enqueue_def st_enqueue_def pending_def split: if_splits)

lemma replay_ok:
  assumes "faults db = []" "\<forall>r \<in> set rs. d_tenant r \<noteq> [] \<and> d_record r \<noteq> []"
  shows "fst (replay n rs db) = (n + int (length rs), None) \<and>
    dead (snd (replay n rs db)) = filter (\<lambda>d. d_id d \<notin> d_id ` set rs) (dead db) \<and>
    (\<forall>t r. pending db t r \<longrightarrow> pending (snd (replay n rs db)) t r) \<and>
    (\<forall>r \<in> set rs. pending (snd (replay n rs db)) (d_tenant r) (d_record r))"
  using assms
proof (induction rs arbitrary: n db)
  case (Cons d rs)
  let ?e = "snd (st_enqueue (d_tenant d) (d_table d) (d_record d) (d_fields d) db)"
  let ?db = "snd (st_delete_dead (d_id d) ?e)"
  have nf: "faults ?e = []" "faults ?db = []" "db\<lparr>faults := []\<rparr> = db"
    using Cons.prems(1) by (simp_all add: st_enqueue_def st_delete_dead_def)
  have nfe: "?e\<lparr>faults := []\<rparr> = ?e" using nf(1) by simp
  have e: "Enqueue (d_tenant d) (d_table d) (d_record d) (d_fields d) db = (Inr (), ?e)"
    using Cons.prems by (simp add: Enqueue_def dexec_ok [OF Cons.prems(1)] nf(3) prod_eq_iff del: dexec_ok)
  have del: "dexec (st_delete_dead (d_id d)) ?e = (Inr (), ?db)" using nf nfe by (simp add: st_delete_dead_def)
  have step: "replay n (d # rs) db = replay (n + 1) rs ?db" by (simp add: e del)
  have dd: "dead ?db = filter (\<lambda>x. d_id x \<noteq> d_id d) (dead db)" by (simp add: st_delete_dead_def st_enqueue_def)
  have pm: "pending ?db t r" if "pending db t r" for t r
    using that by (auto simp: st_delete_dead_def st_enqueue_def pending_def)
  have pd: "pending ?db (d_tenant d) (d_record d)"
    by (auto simp: st_delete_dead_def st_enqueue_def pending_def new_task_def)
  note ih = Cons.IH [OF nf(2), of "n + 1"]
  show ?case unfolding step using ih Cons.prems(2) dd pm pd by (auto intro: filter_cong)
qed simp



end
