(* ===== verification/Calc_Link.thy ===== *)
theory Calc_Link
  imports Calc_Queue
begin

text \<open>
  Links between records: the table \<open>link_ref\<close> (\<open>internal/service/calc/link.go\<close>) and the writing
  of link cells with their inverse direction (\<open>internal/service/data/link_write.go\<close>).
\<close>

section \<open>Reading and writing edges\<close>

record link_edge =
  le_FromTableName :: string
  le_FromRecordID :: string
  le_FromFieldID :: string
  le_ToTableName :: string
  le_ToRecordID :: string

definition scan_edge :: "link_row \<Rightarrow> link_edge" where
  "scan_edge l = \<lparr>le_FromTableName = l_from_table l, le_FromRecordID = l_from_record l,
     le_FromFieldID = l_from_field l, le_ToTableName = l_to_table l, le_ToRecordID = l_to_record l\<rparr>"

text \<open>\<open>ListToIDs\<close> runs on the pool or inside a transaction: \<open>query\<close> is one of the two.\<close>

definition to_ids :: "string \<Rightarrow> string \<Rightarrow> string \<Rightarrow> calc_db \<Rightarrow> string list" where
  "to_ids tenantID fromRecordID fromFieldID db =
     map l_to_record (sort_key l_id (filter (\<lambda>l. l_tenant l = tenantID \<and> l_from_record l = fromRecordID \<and>
       l_from_field l = fromFieldID) (links db)))"

definition ListToIDs ::
    "((calc_db \<Rightarrow> string list) \<Rightarrow> string list db_op) \<Rightarrow> string \<Rightarrow> string \<Rightarrow> string \<Rightarrow> string list db_op" where
  "ListToIDs query tenantID fromRecordID fromFieldID = query (to_ids tenantID fromRecordID fromFieldID)"

definition ListOutgoing :: "string \<Rightarrow> string \<Rightarrow> link_edge list db_op" where
  "ListOutgoing tenantID fromRecordID =
     dquery (\<lambda>db. map scan_edge (filter (\<lambda>l. l_tenant l = tenantID \<and> l_from_record l = fromRecordID) (links db)))"

definition ListIncoming :: "string \<Rightarrow> string \<Rightarrow> link_edge list db_op" where
  "ListIncoming tenantID toRecordID =
     dquery (\<lambda>db. map scan_edge (filter (\<lambda>l. l_tenant l = tenantID \<and> l_to_record l = toRecordID) (links db)))"

definition trimID :: "string \<Rightarrow> string" where
  "trimID s = (if s = ''<nil>'' then [] else s)"

definition ReplaceLinks :: "string \<Rightarrow> string \<Rightarrow> string \<Rightarrow> string \<Rightarrow> string \<Rightarrow> string list \<Rightarrow> unit db_op" where
  "ReplaceLinks tenantID fromTableName fromRecordID fromFieldID toTableName toIDs =
     dbind (texec (st_delete_field_links tenantID fromRecordID fromFieldID)) (\<lambda>_.
       dloop (\<lambda>i. let toID = trimID i in
           if toID = [] then ret ()
           else texec (st_insert_link tenantID fromTableName fromRecordID fromFieldID toTableName toID)) toIDs)"

definition InsertInverse :: "string \<Rightarrow> string \<Rightarrow> string \<Rightarrow> string \<Rightarrow> string \<Rightarrow> string \<Rightarrow> unit db_op" where
  "InsertInverse tenantID fromTableName fromRecordID inverseFieldID toTableName toRecordID =
     (if inverseFieldID = [] \<or> toRecordID = [] then ret ()
      else texec (st_insert_link tenantID toTableName toRecordID inverseFieldID fromTableName fromRecordID))"

definition DeleteEdge :: "string \<Rightarrow> string \<Rightarrow> string \<Rightarrow> string \<Rightarrow> unit db_op" where
  "DeleteEdge tenantID fromRecordID fromFieldID toRecordID =
     (if fromRecordID = [] \<or> fromFieldID = [] \<or> toRecordID = [] then ret ()
      else texec (st_delete_edge tenantID fromRecordID fromFieldID toRecordID))"

definition DeleteInverseForField :: "string \<Rightarrow> string \<Rightarrow> string list \<Rightarrow> string \<Rightarrow> unit db_op" where
  "DeleteInverseForField tenantID inverseFieldID toIDs fromRecordID =
     (if inverseFieldID = [] \<or> toIDs = [] then ret ()
      else texec (st_delete_inverse tenantID inverseFieldID toIDs fromRecordID))"

text \<open>\<open>LinksByRecords\<close>: the targets grouped by record and field.\<close>

definition add_target ::
    "(string \<times> (string \<times> string list) list) list \<Rightarrow> link_row \<Rightarrow> (string \<times> (string \<times> string list) list) list" where
  "add_target out l =
     (let m = (case map_of out (l_from_record l) of None \<Rightarrow> [] | Some m \<Rightarrow> m);
          ids = (case map_of m (l_from_field l) of None \<Rightarrow> [] | Some ids \<Rightarrow> ids)
      in map_put (l_from_record l) (map_put (l_from_field l) (ids @ [l_to_record l]) m) out)"

definition LinksByRecords :: "string \<Rightarrow> string list \<Rightarrow> (string \<times> (string \<times> string list) list) list db_op" where
  "LinksByRecords tenantID fromRecordIDs =
     (if fromRecordIDs = [] then ret []
      else dquery (\<lambda>db. foldl add_target [] (sort_key l_id
        (filter (\<lambda>l. l_tenant l = tenantID \<and> l_from_record l \<in> set fromRecordIDs) (links db)))))"

section \<open>Writing link cells\<close>

definition calc_IsLinkType :: "string \<Rightarrow> bool" where
  "calc_IsLinkType typeID = (to_lower (trim_space typeID) = ''link'')"

definition linkFieldMeta :: "full_column_meta list \<Rightarrow> string \<Rightarrow> full_column_meta option" where
  "linkFieldMeta cols ref =
     find (\<lambda>c. (calc_IsLinkType (fc_TypeId c) \<or> calc_IsLinkType (fc_Kind c)) \<and> (fc_Name c = ref \<or> fc_Id c = ref)) cols"

definition linkCardinality :: "runtime \<Rightarrow> full_column_meta \<Rightarrow> string" where
  "linkCardinality rt c =
     EffectiveRelationshipCardinality rt (fc_Config c)
       (CfgString rt (fc_Config c) ''link_column_id'') (CfgString rt (fc_Config c) ''target_column_id'')"

definition stringsToCard :: "string \<Rightarrow> string" where
  "stringsToCard s = (if s = ''one'' \<or> s = ''many'' then s else [])"

definition trimLinkID :: "string \<Rightarrow> string" where
  "trimLinkID s = (if s = ''<nil>'' then [] else s)"

record link_peer =
  lp_TableName :: string
  lp_RecordID :: string

text \<open>The closure \<open>addPeer\<close>; \<open>seen\<close> holds the keys of the peers collected so far.\<close>

definition peer_key :: "link_peer \<Rightarrow> string" where
  "peer_key p = lp_TableName p @ [CHR 0x00] @ lp_RecordID p"

definition addPeer :: "string \<Rightarrow> string \<Rightarrow> string \<Rightarrow> string \<Rightarrow> link_peer list \<Rightarrow> link_peer list" where
  "addPeer tableName recordID tbl i0 peers =
     (let i = trimLinkID i0; p = \<lparr>lp_TableName = tbl, lp_RecordID = i\<rparr> in
      if tbl = [] \<or> i = [] then peers
      else if i = recordID \<and> tbl = tableName then peers
      else if peer_key p \<in> set (map peer_key peers) then peers
      else peers @ [p])"

text \<open>\<open>xs, _ := f()\<close>: an error is dropped and leaves nil.\<close>

definition or_nil :: "'a list db_op \<Rightarrow> 'a list db_op" where
  "or_nil m db = (case m db of (Inl _, db') \<Rightarrow> (Inr [], db') | r \<Rightarrow> r)"

text \<open>The inner loop over the new targets, writing the inverse direction.\<close>

fun inverse_loop ::
    "string \<Rightarrow> string \<Rightarrow> string \<Rightarrow> string \<Rightarrow> string \<Rightarrow> string \<Rightarrow> string \<Rightarrow> string list \<Rightarrow> link_peer list \<Rightarrow> link_peer list db_op" where
  "inverse_loop tenantID tableName recordID fieldKey toTable invF invCard [] peers = ret peers"
| "inverse_loop tenantID tableName recordID fieldKey toTable invF invCard (i # is) peers =
     (let toID = trimLinkID i in
      if toID = [] then inverse_loop tenantID tableName recordID fieldKey toTable invF invCard is peers
      else if invCard = ''one'' then
        dbind (or_nil (ListToIDs tquery tenantID toID invF)) (\<lambda>oldParents.
        dbind (ReplaceLinks tenantID toTable toID invF tableName [recordID]) (\<lambda>_.
        dbind (dloop (\<lambda>p. if p = recordID then ret () else DeleteEdge tenantID p fieldKey toID) oldParents) (\<lambda>_.
          inverse_loop tenantID tableName recordID fieldKey toTable invF invCard is
            (foldl (\<lambda>ps p. addPeer tableName recordID tableName p ps) peers oldParents))))
      else
        dbind (InsertInverse tenantID tableName recordID invF toTable toID) (\<lambda>_.
          inverse_loop tenantID tableName recordID fieldKey toTable invF invCard is peers))"

text \<open>One iteration of \<open>persistLinksTx\<close>: the link cell of one column.\<close>

definition link_targets_of :: "runtime \<Rightarrow> full_column_meta \<Rightarrow> string" where
  "link_targets_of rt col =
     (let t = CfgString rt (fc_Config col) ''to_table_name'' in
      if t = [] then CfgString rt (fc_Config col) ''target_table_name'' else t)"

definition inverse_card :: "runtime \<Rightarrow> full_column_meta \<Rightarrow> string" where
  "inverse_card rt col =
     (let c = stringsToCard (CfgString rt (fc_Config col) ''inverse_cardinality'') in
      if c = [] then InverseLinkCardinality (CfgString rt (fc_Config col) ''cardinality'') else c)"

definition persist_field ::
    "runtime \<Rightarrow> string \<Rightarrow> string \<Rightarrow> string \<Rightarrow> full_column_meta \<Rightarrow> string list \<Rightarrow> link_peer list \<Rightarrow> link_peer list db_op" where
  "persist_field rt tenantID tableName recordID col ids0 peers =
     (let toTable = link_targets_of rt col; fieldKey = fc_Name col in
      dbind (or_nil (ListToIDs tquery tenantID recordID fieldKey)) (\<lambda>oldIDs.
      let ids = (if linkCardinality rt col = ''one'' \<and> length ids0 > 1 then take 1 ids0 else ids0);
          add = foldl (\<lambda>ps i. addPeer tableName recordID toTable i ps);
          peers' = add (add peers oldIDs) ids;
          invF = LinkInverseFieldKey rt (fc_Config col)
      in dbind (ReplaceLinks tenantID tableName recordID fieldKey toTable ids) (\<lambda>_.
           if \<not> CfgBool (fc_Config col) ''bidirectional'' then ret peers'
           else if invF = [] then ret peers'
           else dbind (DeleteInverseForField tenantID invF oldIDs recordID) (\<lambda>_.
             inverse_loop tenantID tableName recordID fieldKey toTable invF (inverse_card rt col) ids peers'))))"

fun persist_loop ::
    "runtime \<Rightarrow> string \<Rightarrow> string \<Rightarrow> string \<Rightarrow> full_column_meta list \<Rightarrow> (string \<times> string list) list \<Rightarrow> link_peer list \<Rightarrow>
      link_peer list db_op" where
  "persist_loop rt tenantID tableName recordID cols [] peers = ret peers"
| "persist_loop rt tenantID tableName recordID cols ((ref, ids) # ls) peers =
     (case linkFieldMeta cols ref of
        None \<Rightarrow> persist_loop rt tenantID tableName recordID cols ls peers
      | Some col \<Rightarrow> dbind (persist_field rt tenantID tableName recordID col ids peers)
          (persist_loop rt tenantID tableName recordID cols ls))"

definition persistLinksTx ::
    "runtime \<Rightarrow> string \<Rightarrow> string \<Rightarrow> string \<Rightarrow> full_column_meta list \<Rightarrow> (string \<times> string list) list \<Rightarrow> link_peer list db_op" where
  "persistLinksTx rt tenantID tableName recordID cols ls = persist_loop rt tenantID tableName recordID cols ls []"

definition persistLinks ::
    "runtime \<Rightarrow> string \<Rightarrow> string \<Rightarrow> string \<Rightarrow> full_column_meta list \<Rightarrow> (string \<times> string list) list \<Rightarrow> link_peer list db_op" where
  "persistLinks rt tenantID tableName recordID cols ls =
     (if ls = [] then ret [] else in_tx (persistLinksTx rt tenantID tableName recordID cols ls))"

text \<open>\<open>enqueueLinkPeers\<close> ignores errors.\<close>

fun enqueueLinkPeers :: "string \<Rightarrow> string \<Rightarrow> string \<Rightarrow> link_peer list \<Rightarrow> calc_db \<Rightarrow> calc_db" where
  "enqueueLinkPeers tenantID selfTable selfID [] db = db"
| "enqueueLinkPeers tenantID selfTable selfID (p # ps) db =
     (if lp_TableName p = [] \<or> lp_RecordID p = [] then enqueueLinkPeers tenantID selfTable selfID ps db
      else if lp_TableName p = selfTable \<and> lp_RecordID p = selfID then enqueueLinkPeers tenantID selfTable selfID ps db
      else enqueueLinkPeers tenantID selfTable selfID ps (snd (Enqueue tenantID (lp_TableName p) (lp_RecordID p) [] db)))"

section \<open>Handlers keep the invariants\<close>

context db_read
begin

lemma keeps_or_nil [keep_rules]: "keeps I m \<Longrightarrow> keeps I (or_nil m)"
  unfolding keeps_def or_nil_def by (auto split: prod.splits sum.splits)

lemma keeps_ListToIDs [keep_rules]: "keeps I (ListToIDs dquery t r f)"
  unfolding ListToIDs_def by (intro keep_rules)

lemma keeps_ListIncoming [keep_rules]: "keeps I (ListIncoming t r)"
  unfolding ListIncoming_def by (intro keep_rules)

end

context db_frame
begin

lemma keeps_ListToIDs_tx [keep_rules]: "keeps I (ListToIDs tquery t r f)"
  unfolding ListToIDs_def by (intro keep_rules)

end

context db_side
begin

lemma keeps_ReplaceLinks [keep_rules]: "keeps I (ReplaceLinks t ft fr ff tt ids)"
  unfolding ReplaceLinks_def Let_def by (intro keep_rules)

lemma keeps_InsertInverse [keep_rules]: "keeps I (InsertInverse t ft fr ff tt tr)"
  unfolding InsertInverse_def by (intro keep_rules)

lemma keeps_DeleteEdge [keep_rules]: "keeps I (DeleteEdge t fr ff tr)"
  unfolding DeleteEdge_def by (intro keep_rules)

lemma keeps_DeleteInverseForField [keep_rules]: "keeps I (DeleteInverseForField t ff ids fr)"
  unfolding DeleteInverseForField_def by (intro keep_rules)

lemma keeps_inverse_loop [keep_rules]: "keeps I (inverse_loop t tn r f tt invF c is peers)"
  by (induction "is" arbitrary: peers) (auto simp: Let_def intro!: keep_rules)

lemma keeps_persist_field [keep_rules]: "keeps I (persist_field rt t tn r col ids peers)"
  unfolding persist_field_def Let_def by (intro keep_rules)

lemma keeps_persist_loop: "keeps I (persist_loop rt t tn r cols ls peers)"
proof (induction ls arbitrary: peers)
  case (Cons l ls)
  then show ?case by (cases l) (auto intro!: keep_rules split: option.split)
qed (auto intro: keep_rules)

lemma keeps_persistLinks [keep_rules]: "keeps I (persistLinks rt t tn r cols ls)"
  unfolding persistLinks_def persistLinksTx_def by (intro keep_rules keeps_persist_loop)

lemma enqueueLinkPeers_inv: "I db \<Longrightarrow> I (enqueueLinkPeers t tn r ps db)"
proof (induction ps arbitrary: db)
  case (Cons p ps)
  have "I (snd (Enqueue t (lp_TableName p) (lp_RecordID p) [] db))"
    using keeps_Enqueue Cons.prems unfolding keeps_def by blast
  with Cons show ?case by simp
qed simp

end

section \<open>Well-formed links\<close>

definition edge_of :: "link_row \<Rightarrow> string \<times> string \<times> string" where
  "edge_of l = (l_from_record l, l_from_field l, l_to_record l)"

text \<open>The unique constraint of \<open>link_ref\<close>, and ids in the order of insertion.\<close>

definition link_wf :: "calc_db \<Rightarrow> bool" where
  "link_wf db \<longleftrightarrow>
     sorted_wrt (<) (map l_id (links db)) \<and> (\<forall>l \<in> set (links db). l_id l < link_seq db) \<and>
     distinct (map edge_of (links db))"

lemma link_wf_other [simp]:
  "link_wf (db\<lparr>faults := fs\<rparr>) = link_wf db"
  "link_wf (db\<lparr>aborted := a\<rparr>) = link_wf db"
  "link_wf (db\<lparr>queue := q\<rparr>) = link_wf db"
  "link_wf (db\<lparr>queue_seq := n\<rparr>) = link_wf db"
  "link_wf (db\<lparr>dead := d\<rparr>) = link_wf db"
  "link_wf (db\<lparr>dead_seq := n\<rparr>) = link_wf db"
  "link_wf (db\<lparr>recs := rs\<rparr>) = link_wf db"
  by (simp_all add: link_wf_def)

lemma link_wf_filter: "link_wf db \<Longrightarrow> link_wf (db\<lparr>links := filter P (links db)\<rparr>)"
  by (auto simp: link_wf_def distinct_map_filter intro: sorted_map_filter)

lemma link_wf_insert: "link_wf db \<Longrightarrow> link_wf (snd (st_insert_link t ft fr ff tt tr db))"
  by (force simp: st_insert_link_def link_wf_def Let_def sorted_wrt_append edge_of_def list_ex_iff)

interpretation link_inv: db_inv link_wf
  by unfold_locales (simp_all add: link_wf_insert link_wf_filter st_enqueue_def st_widen_def st_enqueue_table_def
      st_mark_def st_delete_task_def st_bury_def st_requeue_def st_purge_def st_delete_dead_def
      st_delete_field_links_def st_delete_edge_def st_delete_inverse_def st_patch_def Let_def)

section \<open>The edges of a tenant\<close>

definition edges :: "string \<Rightarrow> calc_db \<Rightarrow> (string \<times> string \<times> string) set" where
  "edges t db = edge_of ` {l \<in> set (links db). l_tenant l = t}"

text \<open>Rows of other tenants; they may block an insertion because the constraint ignores the tenant.\<close>

definition foreign :: "string \<Rightarrow> calc_db \<Rightarrow> link_row list" where
  "foreign t db = filter (\<lambda>l. l_tenant l \<noteq> t) (links db)"

lemma edges_frame [simp]:
  "edges t (db\<lparr>faults := fs\<rparr>) = edges t db" "edges t (db\<lparr>aborted := a\<rparr>) = edges t db"
  "foreign t (db\<lparr>faults := fs\<rparr>) = foreign t db" "foreign t (db\<lparr>aborted := a\<rparr>) = foreign t db"
  "to_ids t r f (db\<lparr>faults := fs\<rparr>) = to_ids t r f db"
  by (simp_all add: edges_def foreign_def to_ids_def)

lemma set_to_ids: "set (to_ids t r f db) = {b. (r, f, b) \<in> edges t db}"
  by (force simp: to_ids_def edges_def edge_of_def)

text \<open>What each statement does to the edges of its tenant.\<close>

lemma edges_delete:
  "edges t (snd (st_delete_field_links t r f db)) = {e \<in> edges t db. \<not> (fst e = r \<and> fst (snd e) = f)}"
  "edges t (snd (st_delete_edge t r f b db)) = edges t db - {(r, f, b)}"
  "edges t (snd (st_delete_inverse t f bs a db)) = {e \<in> edges t db. \<not> (fst e \<in> set bs \<and> fst (snd e) = f \<and> snd (snd e) = a)}"
  by (auto simp: edges_def edge_of_def st_delete_field_links_def st_delete_edge_def st_delete_inverse_def)

lemma edges_insert:
  assumes "\<forall>l \<in> set (foreign t db). l_from_record l \<noteq> r"
  shows "edges t (snd (st_insert_link t ft r f tt b db)) = insert (r, f, b) (edges t db)"
proof (cases "list_ex (\<lambda>l. l_from_record l = r \<and> l_from_field l = f \<and> l_to_record l = b) (links db)")
  case True
  then have "(r, f, b) \<in> edges t db" using assms by (force simp: list_ex_iff edges_def edge_of_def foreign_def)
  with True show ?thesis by (auto simp: st_insert_link_def Let_def edges_def)
next
  case False
  let ?new = "\<lparr>l_id = link_seq db, l_tenant = t, l_from_table = ft, l_from_record = r, l_from_field = f,
    l_to_table = tt, l_to_record = b\<rparr>"
  from False have "links (snd (st_insert_link t ft r f tt b db)) = links db @ [?new]"
    by (simp add: st_insert_link_def Let_def)
  moreover have "{l \<in> set (links db @ [?new]). l_tenant l = t} = insert ?new {l \<in> set (links db). l_tenant l = t}" by auto
  ultimately show ?thesis by (simp add: edges_def edge_of_def)
qed

lemma foreign_statements [simp]:
  "foreign t (snd (st_delete_field_links t r f db)) = foreign t db"
  "foreign t (snd (st_delete_edge t r f b db)) = foreign t db"
  "foreign t (snd (st_delete_inverse t f bs a db)) = foreign t db"
  "foreign t (snd (st_insert_link t ft r f tt b db)) = foreign t db"
  by (auto simp: foreign_def st_delete_field_links_def st_delete_edge_def st_delete_inverse_def
      st_insert_link_def Let_def intro: filter_cong)

lemma texec_links:
  assumes "texec f db = (Inr x, db')"
  shows "\<not> aborted db \<and> db' = snd (f (db\<lparr>faults := tl (faults db)\<rparr>))"
  using texec_Inr [OF assms] by (metis snd_conv)

definition wanted :: "string list \<Rightarrow> string set" where
  "wanted ids = trimID ` set ids - {[]}"

lemma insert_loop_edges:
  assumes "dloop (\<lambda>i. let toID = trimID i in if toID = [] then ret ()
      else texec (st_insert_link t ft r f tt toID)) ids db = (Inr (), db')"
    and "\<forall>l \<in> set (foreign t db). l_from_record l \<noteq> r"
  shows "edges t db' = edges t db \<union> {(r, f, b) |b. b \<in> wanted ids} \<and> foreign t db' = foreign t db"
  using assms
proof (induction ids arbitrary: db)
  case (Cons i ids)
  show ?case
  proof (cases "trimID i = []")
    case True
    with Cons.prems have "dloop (\<lambda>i. let toID = trimID i in if toID = [] then ret ()
      else texec (st_insert_link t ft r f tt toID)) ids db = (Inr (), db')" by (simp add: dbind_def)
    from Cons.IH [OF this Cons.prems(2)] True show ?thesis by (simp add: wanted_def)
  next
    case False
    with Cons.prems(1) obtain db1 where 1: "texec (st_insert_link t ft r f tt (trimID i)) db = (Inr (), db1)"
      and 2: "dloop (\<lambda>i. let toID = trimID i in if toID = [] then ret ()
        else texec (st_insert_link t ft r f tt toID)) ids db1 = (Inr (), db')" by (auto elim!: dbind_Inr)
    from texec_links [OF 1] Cons.prems(2) have e: "edges t db1 = insert (r, f, trimID i) (edges t db)" "foreign t db1 = foreign t db"
      by (simp_all add: edges_insert)
    from Cons.IH [OF 2] e Cons.prems(2) False show ?thesis by (auto simp: wanted_def)
  qed
qed (simp add: wanted_def)

lemma ReplaceLinks_edges:
  assumes "ReplaceLinks t ft r f tt ids db = (Inr (), db')" "\<forall>l \<in> set (foreign t db). l_from_record l \<noteq> r"
  shows "\<not> aborted db \<and> foreign t db' = foreign t db \<and>
    edges t db' = {e \<in> edges t db. \<not> (fst e = r \<and> fst (snd e) = f)} \<union> {(r, f, b) |b. b \<in> wanted ids}"
proof -
  from assms(1) obtain db1 where 1: "texec (st_delete_field_links t r f) db = (Inr (), db1)"
    and 2: "dloop (\<lambda>i. let toID = trimID i in if toID = [] then ret ()
      else texec (st_insert_link t ft r f tt toID)) ids db1 = (Inr (), db')"
    unfolding ReplaceLinks_def by (elim dbind_Inr) auto
  from texec_links [OF 1] have "\<not> aborted db" "foreign t db1 = foreign t db"
    "edges t db1 = {e \<in> edges t db. \<not> (fst e = r \<and> fst (snd e) = f)}" by (simp_all add: edges_delete)
  then show ?thesis using insert_loop_edges [OF 2] assms(2) by simp
qed

section \<open>Two-way links\<close>

text \<open>
  Field \<open>f\<close> and its inverse \<open>g\<close> mirror each other; \<open>half\<close> is the state in the middle of a write,
  when the inverse edges from \<open>R\<close> back to \<open>a\<close> are still missing.
\<close>

definition mirrored :: "string \<Rightarrow> string \<Rightarrow> (string \<times> string \<times> string) set \<Rightarrow> bool" where
  "mirrored f g E \<longleftrightarrow> (\<forall>x y. (x, f, y) \<in> E \<longleftrightarrow> (y, g, x) \<in> E)"

definition half :: "string \<Rightarrow> string \<Rightarrow> string \<Rightarrow> string set \<Rightarrow> (string \<times> string \<times> string) set \<Rightarrow> bool" where
  "half f g a R E \<longleftrightarrow> (\<forall>x y. (x, f, y) \<in> E \<longleftrightarrow> (y, g, x) \<in> E \<or> (x = a \<and> y \<in> R))"

definition proper :: "(string \<times> string \<times> string) set \<Rightarrow> bool" where
  "proper E \<longleftrightarrow> (\<forall>(x, h, y) \<in> E. trimID x \<noteq> [] \<and> h \<noteq> [] \<and> trimID y \<noteq> [])"

definition moved :: "(string \<times> string \<times> string) set \<Rightarrow> (string \<times> string \<times> string) set \<Rightarrow> (string \<times> string \<times> string) set" where
  "moved E E' = (E - E') \<union> (E' - E)"

definition ends_in :: "string set \<Rightarrow> (string \<times> string \<times> string) set \<Rightarrow> bool" where
  "ends_in N X \<longleftrightarrow> (\<forall>(x, h, y) \<in> X. x \<in> N \<and> y \<in> N)"

lemma half_empty: "half f g a {} E = mirrored f g E"
  by (simp add: half_def mirrored_def)

lemma half_start:
  assumes "mirrored f g E" "f \<noteq> g"
  shows "half f g a B ({e \<in> {e \<in> E. \<not> (fst e = a \<and> fst (snd e) = f)} \<union> {(a, f, b) |b. b \<in> B}.
    \<not> (fst e \<in> {b. (a, f, b) \<in> E} \<and> fst (snd e) = g \<and> snd (snd e) = a)})"
  using assms by (auto simp: half_def mirrored_def)

lemma half_many: "half f g a (insert b R) E \<Longrightarrow> f \<noteq> g \<Longrightarrow> half f g a R (insert (b, g, a) E)"
  by (auto simp: half_def)

lemma half_one:
  assumes "half f g a (insert b R) E" "f \<noteq> g"
  shows "half f g a R (({e \<in> E. \<not> (fst e = b \<and> fst (snd e) = g)} \<union> {(b, g, a)}) -
    {(p, f, b) |p. (b, g, p) \<in> E \<and> p \<noteq> a})"
  using assms by (auto simp: half_def)

lemma ends_in_moved_trans: "ends_in N (moved E E') \<Longrightarrow> ends_in N (moved E' E'') \<Longrightarrow> ends_in N (moved E E'')"
  by (force simp: ends_in_def moved_def)

lemma ends_in_mono: "ends_in N X \<Longrightarrow> N \<subseteq> N' \<Longrightarrow> ends_in N' X"
  by (auto simp: ends_in_def)

section \<open>Peers\<close>

lemma trimLinkID_eq [simp]: "trimLinkID = trimID"
  by (simp add: fun_eq_iff trimLinkID_def trimID_def)

lemma trimID_idem [simp]: "trimID (trimID i) = trimID i" and trimID_id: "trimID i \<noteq> [] \<Longrightarrow> trimID i = i"
  by (auto simp: trimID_def)

definition plain :: "string \<Rightarrow> bool" where
  "plain s \<longleftrightarrow> CHR 0x00 \<notin> set s"

definition peers_ok :: "link_peer list \<Rightarrow> bool" where
  "peers_ok ps \<longleftrightarrow> (\<forall>p \<in> set ps. plain (lp_TableName p))"

definition peer_ids :: "string \<Rightarrow> link_peer list \<Rightarrow> string set" where
  "peer_ids a ps = insert a (lp_RecordID ` set ps)"

lemma peer_key_inj:
  "plain (lp_TableName p) \<Longrightarrow> plain (lp_TableName q) \<Longrightarrow> peer_key p = peer_key q \<Longrightarrow> lp_RecordID p = lp_RecordID q"
proof -
  have "tl (dropWhile (\<lambda>c. c \<noteq> CHR 0x00) (peer_key p)) = lp_RecordID p" if "plain (lp_TableName p)" for p
  proof -
    have "\<And>c. c \<in> set (lp_TableName p) \<Longrightarrow> c \<noteq> CHR 0x00" using that by (auto simp: plain_def)
    then show ?thesis by (simp add: peer_key_def dropWhile_append2)
  qed
  then show "plain (lp_TableName p) \<Longrightarrow> plain (lp_TableName q) \<Longrightarrow> peer_key p = peer_key q \<Longrightarrow>
      lp_RecordID p = lp_RecordID q" by metis
qed

lemma addPeer_mono: "set ps \<subseteq> set (addPeer tn a tbl i ps)"
  by (auto simp: addPeer_def Let_def)

lemma addPeer_ok: "peers_ok ps \<Longrightarrow> plain tbl \<Longrightarrow> peers_ok (addPeer tn a tbl i ps)"
  by (auto simp: addPeer_def Let_def peers_ok_def)

lemma addPeer_mem:
  assumes "peers_ok ps" "plain tbl" "tbl \<noteq> []" "trimID i \<noteq> []"
  shows "trimID i \<in> peer_ids a (addPeer tn a tbl i ps)"
proof (cases "peer_key \<lparr>lp_TableName = tbl, lp_RecordID = trimID i\<rparr> \<in> set (map peer_key ps)")
  case True
  then obtain q where "q \<in> set ps" "peer_key \<lparr>lp_TableName = tbl, lp_RecordID = trimID i\<rparr> = peer_key q" by auto
  with peer_key_inj [of "\<lparr>lp_TableName = tbl, lp_RecordID = trimID i\<rparr>" q] assms(1,2)
  have "trimID i \<in> lp_RecordID ` set ps" by (auto simp: peers_ok_def)
  then show ?thesis using addPeer_mono [of ps tn a tbl i] by (auto simp: peer_ids_def)
qed (use assms in \<open>auto simp: addPeer_def Let_def peer_ids_def\<close>)

definition add_peers :: "string \<Rightarrow> string \<Rightarrow> string \<Rightarrow> link_peer list \<Rightarrow> string list \<Rightarrow> link_peer list" where
  "add_peers tn a tbl = foldl (\<lambda>ps i. addPeer tn a tbl i ps)"

lemma add_peers_facts:
  assumes "peers_ok ps" "plain tbl" "tbl \<noteq> []"
  shows "peers_ok (add_peers tn a tbl ps is) \<and> set ps \<subseteq> set (add_peers tn a tbl ps is) \<and>
    wanted is \<subseteq> peer_ids a (add_peers tn a tbl ps is)"
  using assms(1)
proof (induction "is" arbitrary: ps)
  case (Cons i "is")
  let ?ps = "addPeer tn a tbl i ps"
  note ih = Cons.IH [OF addPeer_ok [OF Cons.prems assms(2), of tn a i]]
  have step: "add_peers tn a tbl ps (i # is) = add_peers tn a tbl ?ps is" by (simp add: add_peers_def)
  have "trimID i \<in> peer_ids a ?ps" if "trimID i \<noteq> []" by (rule addPeer_mem [OF Cons.prems assms(2,3) that])
  moreover have "peer_ids a ?ps \<subseteq> peer_ids a (add_peers tn a tbl ?ps is)" using ih by (auto simp: peer_ids_def)
  moreover have "wanted (i # is) \<subseteq> insert (trimID i) (wanted is)" "trimID i = [] \<Longrightarrow> wanted (i # is) = wanted is"
    by (auto simp: wanted_def)
  ultimately show ?case unfolding step using ih addPeer_mono [of ps tn a tbl i] by blast
qed (simp add: wanted_def add_peers_def)

section \<open>Writing both directions\<close>

lemma or_nil_links:
  assumes "or_nil (ListToIDs tquery t r f) db = (Inr xs, db1)" "\<not> aborted db1"
  shows "xs = to_ids t r f db \<and> edges t db1 = edges t db \<and> foreign t db1 = foreign t db"
proof (cases "tquery (to_ids t r f) db")
  case (Pair res db2)
  show ?thesis
  proof (cases res)
    case (Inl e)
    then have "aborted db2" using Pair by (auto simp: tquery_def texec_def split: if_splits prod.splits sum.splits)
    then show ?thesis using assms Pair Inl by (simp add: or_nil_def ListToIDs_def)
  next
    case (Inr ys)
    with Pair tquery_Inr [of "to_ids t r f" db ys db2] assms show ?thesis by (auto simp: or_nil_def ListToIDs_def)
  qed
qed

lemma delete_loop_edges:
  assumes "dloop (\<lambda>p. if p = a then ret () else DeleteEdge t p f b) ps db = (Inr (), db')"
    and "\<forall>p \<in> set ps. p \<noteq> []" "f \<noteq> []" "b \<noteq> []"
  shows "edges t db' = edges t db - {(p, f, b) |p. p \<in> set ps \<and> p \<noteq> a} \<and> foreign t db' = foreign t db"
  using assms(1,2)
proof (induction ps arbitrary: db)
  case (Cons p ps)
  then obtain db1 where 1: "(if p = a then ret () else DeleteEdge t p f b) db = (Inr (), db1)"
    and 2: "dloop (\<lambda>p. if p = a then ret () else DeleteEdge t p f b) ps db1 = (Inr (), db')" by (auto elim!: dbind_Inr)
  have e: "edges t db1 = edges t db - (if p = a then {} else {(p, f, b)}) \<and> foreign t db1 = foreign t db"
  proof (cases "p = a")
    case False
    with 1 Cons.prems(2) assms(3,4) have "texec (st_delete_edge t p f b) db = (Inr (), db1)" by (simp add: DeleteEdge_def)
    from texec_links [OF this] False show ?thesis by (simp add: edges_delete)
  qed (use 1 in simp)
  from Cons.IH [OF 2] Cons.prems(2) e show ?case by auto
qed simp

text \<open>What a write may change: the edges of \<open>f\<close> and \<open>g\<close>, between the records of \<open>N\<close>.\<close>

definition link_step ::
    "string set \<Rightarrow> string \<Rightarrow> string \<Rightarrow> (string \<times> string \<times> string) set \<Rightarrow> (string \<times> string \<times> string) set \<Rightarrow> bool" where
  "link_step N f g E E' \<longleftrightarrow>
     (\<forall>x h y. h \<noteq> f \<and> h \<noteq> g \<longrightarrow> ((x, h, y) \<in> E' \<longleftrightarrow> (x, h, y) \<in> E)) \<and> ends_in N (moved E E') \<and> (proper E \<longrightarrow> proper E')"

lemma link_step_refl: "link_step N f g E E"
  by (simp add: link_step_def moved_def ends_in_def)

lemma link_step_trans: "link_step N f g E E' \<Longrightarrow> link_step N f g E' E'' \<Longrightarrow> link_step N f g E E''"
  unfolding link_step_def by (blast intro: ends_in_moved_trans)

lemma link_step_mono: "link_step N f g E E' \<Longrightarrow> N \<subseteq> N' \<Longrightarrow> link_step N' f g E E'"
  unfolding link_step_def by (blast intro: ends_in_mono)

lemma inverse_step_many:
  assumes "InsertInverse t tn a g tt b db = (Inr (), db')" "\<forall>l \<in> set (foreign t db). l_from_record l \<noteq> b"
    and "g \<noteq> []" "trimID b \<noteq> []" "trimID a \<noteq> []" "a \<in> N" "b \<in> N"
  shows "edges t db' = insert (b, g, a) (edges t db) \<and> foreign t db' = foreign t db \<and>
    link_step N f g (edges t db) (edges t db')"
proof -
  have "b \<noteq> []" using assms(4) by (auto simp: trimID_def)
  then have "texec (st_insert_link t tt b g tn a) db = (Inr (), db')" using assms by (simp add: InsertInverse_def)
  from texec_links [OF this] assms show ?thesis
    by (auto simp: edges_insert link_step_def moved_def ends_in_def proper_def)
qed

lemma inverse_step_one:
  assumes "ReplaceLinks t tt b g tn [a] db = (Inr (), db1)"
    and "dloop (\<lambda>p. if p = a then ret () else DeleteEdge t p f b) ps db1 = (Inr (), db')"
    and "set ps = {p. (b, g, p) \<in> edges t db}" "proper (edges t db)" "\<forall>l \<in> set (foreign t db). l_from_record l \<noteq> b"
    and "f \<noteq> []" "g \<noteq> []" "trimID b \<noteq> []" "trimID a \<noteq> []" "{a, b} \<union> set ps \<subseteq> N"
  shows "edges t db' = ({e \<in> edges t db. \<not> (fst e = b \<and> fst (snd e) = g)} \<union> {(b, g, a)}) -
      {(p, f, b) |p. (b, g, p) \<in> edges t db \<and> p \<noteq> a} \<and>
    foreign t db' = foreign t db \<and> link_step N f g (edges t db) (edges t db')"
proof -
  have w: "wanted [a] = {a}" using trimID_id [OF assms(9)] assms(9) by (auto simp: wanted_def)
  have b: "b \<noteq> []" using assms(8) by (auto simp: trimID_def)
  have ne: "\<forall>p \<in> set ps. p \<noteq> []" using assms(3,4) by (auto simp: proper_def trimID_def)
  note 1 = ReplaceLinks_edges [OF assms(1,5), unfolded w]
  note 2 = delete_loop_edges [OF assms(2) ne assms(6) b]
  have eq: "edges t db' = ({e \<in> edges t db. \<not> (fst e = b \<and> fst (snd e) = g)} \<union> {(b, g, a)}) -
      {(p, f, b) |p. (b, g, p) \<in> edges t db \<and> p \<noteq> a}" using 1 2 assms(3) by auto
  have "link_step N f g (edges t db) (edges t db')"
    unfolding eq link_step_def using assms(3,7-10) by (auto simp: moved_def ends_in_def proper_def)
  with eq 1 2 show ?thesis by simp
qed

lemma peer_ids_add:
  assumes "peers_ok peers" "plain tn" "tn \<noteq> []" "\<forall>p \<in> set ps. trimID p \<noteq> []"
  shows "set ps \<subseteq> peer_ids a (add_peers tn a tn peers ps)"
proof -
  have "set ps \<subseteq> wanted ps" using assms(4) trimID_id by (force simp: wanted_def)
  with add_peers_facts [OF assms(1-3), of tn a ps] show ?thesis by blast
qed

lemma peer_ids_mono: "set ps \<subseteq> set qs \<Longrightarrow> peer_ids a ps \<subseteq> peer_ids a qs"
  by (auto simp: peer_ids_def)

text \<open>Before and after the inner loop, which leaves the edges of \<open>a\<close> itself alone.\<close>

definition same_out :: "string \<Rightarrow> string \<Rightarrow> (string \<times> string \<times> string) set \<Rightarrow> (string \<times> string \<times> string) set \<Rightarrow> bool" where
  "same_out a f E E' \<longleftrightarrow> (\<forall>y. (a, f, y) \<in> E' \<longleftrightarrow> (a, f, y) \<in> E)"

definition ready :: "string \<Rightarrow> string \<Rightarrow> string \<Rightarrow> string \<Rightarrow> string list \<Rightarrow> link_peer list \<Rightarrow> calc_db \<Rightarrow> bool" where
  "ready t f g a is peers db \<longleftrightarrow>
     half f g a (wanted is) (edges t db) \<and> proper (edges t db) \<and> peers_ok peers \<and>
     (\<forall>l \<in> set (foreign t db). l_from_record l \<notin> wanted is) \<and> wanted is \<subseteq> peer_ids a peers"

definition written ::
    "string \<Rightarrow> string \<Rightarrow> string \<Rightarrow> string \<Rightarrow> link_peer list \<Rightarrow> calc_db \<Rightarrow> link_peer list \<Rightarrow> calc_db \<Rightarrow> bool" where
  "written t f g a peers db peers' db' \<longleftrightarrow>
     foreign t db' = foreign t db \<and> peers_ok peers' \<and> set peers \<subseteq> set peers' \<and>
     link_step (peer_ids a peers') f g (edges t db) (edges t db')"

lemma written_trans:
  assumes "written t f g a peers db qs db1" "written t f g a qs db1 peers' db'"
  shows "written t f g a peers db peers' db'"
proof -
  have "peer_ids a qs \<subseteq> peer_ids a peers'" using assms(2) by (intro peer_ids_mono) (simp add: written_def)
  then have "link_step (peer_ids a peers') f g (edges t db) (edges t db1)"
    using assms(1) link_step_mono [of "peer_ids a qs"] unfolding written_def by blast
  with assms show ?thesis by (auto simp: written_def intro: link_step_trans)
qed

lemma wanted_Cons: "trimID i \<noteq> [] \<Longrightarrow> wanted (i # is) = insert (trimID i) (wanted is)"
  by (auto simp: wanted_def)

lemma loop_step_many:
  assumes "ready t f g a (i # is) peers db" "InsertInverse t tn a g tt (trimID i) db = (Inr (), db1)"
    and par: "f \<noteq> g" "g \<noteq> []" "trimID a \<noteq> []" "trimID i \<noteq> []"
  shows "ready t f g a is peers db1 \<and> written t f g a peers db peers db1 \<and> same_out a f (edges t db) (edges t db1)"
proof -
  note w = wanted_Cons [OF par(4), of "is"]
  have fb: "\<forall>l \<in> set (foreign t db). l_from_record l \<noteq> trimID i" using assms(1) by (auto simp: ready_def w)
  have N: "a \<in> peer_ids a peers" "trimID i \<in> peer_ids a peers" using assms(1) by (auto simp: ready_def w peer_ids_def)
  have b: "trimID (trimID i) \<noteq> []" using par(4) by simp
  note s = inverse_step_many [OF assms(2) fb par(2) b par(3) N, of f]
  have "half f g a (wanted is) (edges t db1)"
    using assms(1) s half_many [OF _ par(1), of a "trimID i" "wanted is" "edges t db"] by (simp add: ready_def w)
  moreover have "same_out a f (edges t db) (edges t db1)" using s par(1) by (auto simp: same_out_def)
  ultimately show ?thesis using assms(1) s by (auto simp: ready_def written_def link_step_def w)
qed

lemma loop_step_one:
  assumes "ready t f g a (i # is) peers db" "or_nil (ListToIDs tquery t (trimID i) g) db = (Inr ps, db1)"
    and "ReplaceLinks t tt (trimID i) g tn [a] db1 = (Inr (), db2)"
    and "dloop (\<lambda>p. if p = a then ret () else DeleteEdge t p f (trimID i)) ps db2 = (Inr (), db3)"
    and par: "f \<noteq> g" "f \<noteq> []" "g \<noteq> []" "trimID a \<noteq> []" "trimID i \<noteq> []" "plain tn" "tn \<noteq> []"
  shows "ready t f g a is (add_peers tn a tn peers ps) db3 \<and> written t f g a peers db (add_peers tn a tn peers ps) db3 \<and>
    same_out a f (edges t db) (edges t db3)"
proof -
  let ?qs = "add_peers tn a tn peers ps"
  have pre: "proper (edges t db)" "peers_ok peers" using assms(1) by (simp_all add: ready_def)
  note w = wanted_Cons [OF par(5), of "is"]
  have "\<not> aborted db1" using assms(3) by (auto simp: ReplaceLinks_def elim!: dbind_Inr dest!: texec_links)
  from or_nil_links [OF assms(2) this]
  have q: "ps = to_ids t (trimID i) g db" "edges t db1 = edges t db" "foreign t db1 = foreign t db" by blast+
  have ps: "set ps = {p. (trimID i, g, p) \<in> edges t db}" by (simp add: q(1) set_to_ids)
  have pst: "\<forall>p \<in> set ps. trimID p \<noteq> []" using pre(1) ps by (auto simp: proper_def)
  note ap = add_peers_facts [OF pre(2) par(6,7), of tn a ps]
  have mono: "peer_ids a peers \<subseteq> peer_ids a ?qs" using ap by (intro peer_ids_mono) simp
  have "trimID i \<in> peer_ids a peers" "a \<in> peer_ids a peers" using assms(1) by (simp_all add: ready_def w peer_ids_def)
  then have sub: "{a, trimID i} \<union> set ps \<subseteq> peer_ids a ?qs" using peer_ids_add [OF pre(2) par(6,7) pst, of a] mono by blast
  have fb: "\<forall>l \<in> set (foreign t db). l_from_record l \<noteq> trimID i" using assms(1) by (auto simp: ready_def w)
  have b: "trimID (trimID i) \<noteq> []" using par(5) by simp
  note s = inverse_step_one [OF assms(3,4), unfolded q(2,3), OF ps pre(1) fb par(2,3) b par(4) sub]
  have "half f g a (wanted is) (edges t db3)"
    using assms(1) s half_one [OF _ par(1), of a "trimID i" "wanted is" "edges t db"] by (simp add: ready_def w)
  moreover have "wanted is \<subseteq> peer_ids a ?qs" using assms(1) mono by (auto simp: ready_def w)
  moreover have "foreign t db3 = foreign t db" "link_step (peer_ids a ?qs) f g (edges t db) (edges t db3)" using s by blast+
  moreover from this(2) pre(1) have "proper (edges t db3)" by (simp add: link_step_def)
  moreover have "same_out a f (edges t db) (edges t db3)" using s par(1) by (auto simp: same_out_def)
  ultimately show ?thesis using assms(1) ap unfolding ready_def written_def w by simp
qed

lemma inverse_loop_mirrored:
  assumes "inverse_loop t tn a f tt g c is peers db = (Inr peers', db')" "ready t f g a is peers db"
    and par: "f \<noteq> g" "f \<noteq> []" "g \<noteq> []" "trimID a \<noteq> []" "plain tn" "tn \<noteq> []"
  shows "mirrored f g (edges t db') \<and> written t f g a peers db peers' db' \<and> same_out a f (edges t db) (edges t db')"
  using assms(1,2)
proof (induction "is" arbitrary: db peers)
  case Nil
  then show ?case by (simp add: ready_def written_def wanted_def half_empty link_step_refl same_out_def)
next
  case (Cons i "is")
  show ?case
  proof (cases "trimID i = []")
    case True
    then have "wanted (i # is) = wanted is" by (simp add: wanted_def)
    with Cons True show ?thesis by (simp add: ready_def)
  next
    case False
    show ?thesis
    proof (cases "c = ''one''")
      case False
      with Cons.prems(1) \<open>trimID i \<noteq> []\<close> obtain db1 where 1: "InsertInverse t tn a g tt (trimID i) db = (Inr (), db1)"
        and 2: "inverse_loop t tn a f tt g c is peers db1 = (Inr peers', db')"
        by (auto simp: Let_def elim!: dbind_Inr)
      note s = loop_step_many [OF Cons.prems(2) 1 par(1,3,4) \<open>trimID i \<noteq> []\<close>]
      from Cons.IH [OF 2] s show ?thesis using written_trans unfolding same_out_def by blast
    next
      case True
      with Cons.prems(1) \<open>trimID i \<noteq> []\<close> obtain ps db1 db2 db3
        where 0: "or_nil (ListToIDs tquery t (trimID i) g) db = (Inr ps, db1)"
          and 1: "ReplaceLinks t tt (trimID i) g tn [a] db1 = (Inr (), db2)"
          and 2: "dloop (\<lambda>p. if p = a then ret () else DeleteEdge t p f (trimID i)) ps db2 = (Inr (), db3)"
          and 3: "inverse_loop t tn a f tt g c is (add_peers tn a tn peers ps) db3 = (Inr peers', db')"
        by (auto simp: Let_def add_peers_def elim!: dbind_Inr)
      note s = loop_step_one [OF Cons.prems(2) 0 1 2 par(1-4) \<open>trimID i \<noteq> []\<close> par(5,6)]
      from Cons.IH [OF 3] s show ?thesis using written_trans unfolding same_out_def by blast
    qed
  qed
qed

text \<open>The column's inverse field, if it has one.\<close>

definition two_way :: "runtime \<Rightarrow> full_column_meta \<Rightarrow> bool" where
  "two_way rt col \<longleftrightarrow> CfgBool (fc_Config col) ''bidirectional'' \<and> LinkInverseFieldKey rt (fc_Config col) \<noteq> []"

definition inverse_of :: "runtime \<Rightarrow> full_column_meta \<Rightarrow> string" where
  "inverse_of rt col = (if two_way rt col then LinkInverseFieldKey rt (fc_Config col) else fc_Name col)"

definition column_ok :: "runtime \<Rightarrow> full_column_meta \<Rightarrow> bool" where
  "column_ok rt col \<longleftrightarrow> fc_Name col \<noteq> [] \<and> link_targets_of rt col \<noteq> [] \<and> plain (link_targets_of rt col) \<and>
     (two_way rt col \<longrightarrow> inverse_of rt col \<noteq> fc_Name col)"

definition cut_ids :: "runtime \<Rightarrow> full_column_meta \<Rightarrow> string list \<Rightarrow> string list" where
  "cut_ids rt col ids = (if linkCardinality rt col = ''one'' \<and> length ids > 1 then take 1 ids else ids)"

lemma wanted_cut: "wanted (cut_ids rt col ids) \<subseteq> wanted ids"
  by (auto simp: cut_ids_def wanted_def dest: in_set_takeD)

text \<open>The part of a field's write before the inner loop.\<close>

lemma replace_out:
  assumes "ReplaceLinks t tn a f tt ids db = (Inr (), db')" "\<forall>l \<in> set (foreign t db). l_from_record l \<noteq> a"
    and "peers_ok peers" "plain tt" "tt \<noteq> []" "f \<noteq> []" "trimID a \<noteq> []" "proper (edges t db)"
  defines "qs \<equiv> add_peers tn a tt (add_peers tn a tt peers (to_ids t a f db)) ids"
  shows "written t f g a peers db qs db' \<and> wanted ids \<subseteq> peer_ids a qs \<and> set (to_ids t a f db) \<subseteq> peer_ids a qs"
proof -
  let ?old = "to_ids t a f db" and ?ps = "add_peers tn a tt peers (to_ids t a f db)"
  note e = ReplaceLinks_edges [OF assms(1,2)]
  note p1 = add_peers_facts [OF assms(3-5), of tn a ?old]
  from p1 have ok: "peers_ok ?ps" by blast
  note p2 = add_peers_facts [OF ok assms(4,5), of tn a ids, folded qs_def]
  have "trimID i \<noteq> []" if "i \<in> set ?old" for i using that assms(8) by (auto simp: set_to_ids proper_def)
  then have "i \<in> wanted ?old" if "i \<in> set ?old" for i
    using that trimID_id [of i] by (metis DiffI imageI singletonD wanted_def)
  then have "set ?old \<subseteq> wanted ?old" by blast
  then have old: "set ?old \<subseteq> peer_ids a qs" using p1 p2 peer_ids_mono [of ?ps qs a] by blast
  have a: "a \<in> peer_ids a qs" by (simp add: peer_ids_def)
  have w: "trimID b \<noteq> []" if "b \<in> wanted ids" for b using that by (auto simp: wanted_def)
  have eq: "edges t db' = {e \<in> edges t db. \<not> (fst e = a \<and> fst (snd e) = f)} \<union> {(a, f, b) |b. b \<in> wanted ids}"
    using e by blast
  have new: "wanted ids \<subseteq> peer_ids a qs" using p2 by blast
  have "ends_in (peer_ids a qs) (moved (edges t db) (edges t db'))"
    unfolding eq using old a new by (auto simp: moved_def ends_in_def set_to_ids)
  moreover have "proper (edges t db')" unfolding eq using assms(6-8) w by (auto simp: proper_def)
  ultimately have "link_step (peer_ids a qs) f g (edges t db) (edges t db')" unfolding link_step_def eq by auto
  then show ?thesis using e p1 p2 old by (auto simp: written_def)
qed

lemma delete_inverse_edges:
  assumes "DeleteInverseForField t g old a db = (Inr (), db')" "g \<noteq> []"
  shows "edges t db' = {e \<in> edges t db. \<not> (fst e \<in> set old \<and> fst (snd e) = g \<and> snd (snd e) = a)} \<and>
    foreign t db' = foreign t db"
proof (cases "old = []")
  case False
  with assms have "texec (st_delete_inverse t g old a) db = (Inr (), db')" by (simp add: DeleteInverseForField_def)
  from texec_links [OF this] show ?thesis by (simp add: edges_delete)
qed (use assms in \<open>auto simp: DeleteInverseForField_def\<close>)

text \<open>The second part of a two-way write: the stale inverse edges go, the new ones are written.\<close>

lemma two_way_write:
  assumes "DeleteInverseForField t g old a db2 = (Inr (), db3)" "inverse_loop t tn a f tt g c ids qs db3 = (Inr peers', db')"
    and e2: "edges t db2 = {e \<in> edges t db. \<not> (fst e = a \<and> fst (snd e) = f)} \<union> {(a, f, b) |b. b \<in> wanted ids}"
    and w: "written t f g a peers db qs db2" "wanted ids \<subseteq> peer_ids a qs" "set old \<subseteq> peer_ids a qs"
    and m: "mirrored f g (edges t db)" "old = to_ids t a f db" "proper (edges t db)"
    and fo: "\<forall>l \<in> set (foreign t db). l_from_record l \<notin> wanted ids"
    and par: "f \<noteq> g" "f \<noteq> []" "g \<noteq> []" "trimID a \<noteq> []" "plain tn" "tn \<noteq> []"
  shows "mirrored f g (edges t db') \<and> written t f g a peers db peers' db' \<and> same_out a f (edges t db2) (edges t db')"
proof -
  note d = delete_inverse_edges [OF assms(1) par(3)]
  have "a \<in> peer_ids a qs" by (simp add: peer_ids_def)
  with d w have w3: "written t f g a qs db2 qs db3"
    by (auto simp: written_def link_step_def moved_def ends_in_def proper_def)
  have "half f g a (wanted ids) (edges t db3)"
    using half_start [OF m(1) par(1), of a "wanted ids"] d e2 m(2) by (simp add: set_to_ids)
  moreover have "proper (edges t db3)" using w w3 m(3) by (simp add: written_def link_step_def)
  moreover have "\<forall>l \<in> set (foreign t db3). l_from_record l \<notin> wanted ids" using fo d w by (auto simp: written_def)
  ultimately have "ready t f g a ids qs db3" using w by (simp add: ready_def written_def)
  note l = inverse_loop_mirrored [OF assms(2) this par]
  have "same_out a f (edges t db2) (edges t db3)" using d par(1) by (auto simp: same_out_def)
  with l have "same_out a f (edges t db2) (edges t db')" by (simp add: same_out_def)
  moreover have "written t f g a peers db peers' db'" using w(1) w3 l written_trans by blast
  ultimately show ?thesis using l by blast
qed

lemma persist_field_mirrored:
  assumes "persist_field rt t tn a col ids peers db = (Inr peers', db')" "column_ok rt col"
    and "two_way rt col \<Longrightarrow> mirrored (fc_Name col) (inverse_of rt col) (edges t db)"
    and "proper (edges t db)" "peers_ok peers" "\<forall>l \<in> set (foreign t db). l_from_record l \<notin> insert a (wanted ids)"
    and par: "trimID a \<noteq> []" "plain tn" "tn \<noteq> []"
  shows "(two_way rt col \<longrightarrow> mirrored (fc_Name col) (inverse_of rt col) (edges t db')) \<and>
    written t (fc_Name col) (inverse_of rt col) a peers db peers' db' \<and>
    (\<forall>y. (a, fc_Name col, y) \<in> edges t db' \<longleftrightarrow> y \<in> wanted (cut_ids rt col ids))"
proof -
  let ?f = "fc_Name col" and ?g = "inverse_of rt col" and ?tt = "link_targets_of rt col" and ?ids = "cut_ids rt col ids"
  have col: "?f \<noteq> []" "?tt \<noteq> []" "plain ?tt" using assms(2) by (simp_all add: column_ok_def)
  define qs where "qs = add_peers tn a ?tt (add_peers tn a ?tt peers (to_ids t a ?f db)) ?ids"
  obtain old db1 db2 where 0: "or_nil (ListToIDs tquery t a ?f) db = (Inr old, db1)"
    and 1: "ReplaceLinks t tn a ?f ?tt ?ids db1 = (Inr (), db2)"
    and 2: "(if \<not> two_way rt col then ret (add_peers tn a ?tt (add_peers tn a ?tt peers old) ?ids)
       else dbind (DeleteInverseForField t ?g old a) (\<lambda>_. inverse_loop t tn a ?f ?tt ?g (inverse_card rt col) ?ids
         (add_peers tn a ?tt (add_peers tn a ?tt peers old) ?ids))) db2 = (Inr peers', db')"
    using assms(1) unfolding persist_field_def Let_def add_peers_def [symmetric] cut_ids_def [symmetric]
    by (auto elim!: dbind_Inr simp: two_way_def inverse_of_def split: if_splits)
  have "\<not> aborted db1" using 1 by (auto simp: ReplaceLinks_def elim!: dbind_Inr dest!: texec_links)
  from or_nil_links [OF 0 this] have q: "old = to_ids t a ?f db" "edges t db1 = edges t db" "foreign t db1 = foreign t db" by blast+
  have to: "to_ids t a ?f db1 = to_ids t a ?f db"
    using 0 \<open>\<not> aborted db1\<close> by (auto simp: or_nil_def ListToIDs_def tquery_def texec_def split: if_splits prod.splits sum.splits
        dest!: dexec_Inr)
  have fa: "\<forall>l \<in> set (foreign t db1). l_from_record l \<noteq> a" using assms(6) q(3) by auto
  note r = replace_out [OF 1 fa assms(5) col(3,2,1) par(1), unfolded q(2) to, OF assms(4), folded qs_def]
  have w: "written t ?f ?g a peers db qs db2" using r q by (simp add: written_def)
  have e2: "edges t db2 = {e \<in> edges t db. \<not> (fst e = a \<and> fst (snd e) = ?f)} \<union> {(a, ?f, b) |b. b \<in> wanted ?ids}"
    using ReplaceLinks_edges [OF 1 fa] q by simp
  show ?thesis
  proof (cases "two_way rt col")
    case False
    then show ?thesis using 2 w e2 q(1) by (simp add: qs_def)
  next
    case True
    then have fg: "?f \<noteq> ?g" "?g \<noteq> []" using assms(2) by (auto simp: column_ok_def two_way_def inverse_of_def)
    from 2 True q(1) obtain db3 where 3: "DeleteInverseForField t ?g old a db2 = (Inr (), db3)"
      and 4: "inverse_loop t tn a ?f ?tt ?g (inverse_card rt col) ?ids qs db3 = (Inr peers', db')"
      by (auto simp: qs_def elim!: dbind_Inr)
    have fo: "\<forall>l \<in> set (foreign t db). l_from_record l \<notin> wanted ?ids" using assms(6) wanted_cut [of rt col ids] by auto
    have sub: "wanted ?ids \<subseteq> peer_ids a qs" "set old \<subseteq> peer_ids a qs" using r q(1) by simp_all
    note l = two_way_write [OF 3 4 e2 w sub assms(3) [OF True] q(1) assms(4) fo fg(1) col(1) fg(2) par]
    then show ?thesis using e2 by (auto simp: same_out_def)
  qed
qed

section \<open>Properties\<close>

text \<open>
  The link columns of a table are consistent: named, with a target table, two-way columns having
  an inverse of another name, and the pair of a two-way column not shared with another column
  unless it is the same pair, in either order (a link of a table to itself).
\<close>

definition link_column :: "full_column_meta \<Rightarrow> bool" where
  "link_column c \<longleftrightarrow> calc_IsLinkType (fc_TypeId c) \<or> calc_IsLinkType (fc_Kind c)"

definition same_pair :: "runtime \<Rightarrow> full_column_meta \<Rightarrow> full_column_meta \<Rightarrow> bool" where
  "same_pair rt c d \<longleftrightarrow> two_way rt d \<and>
     ((fc_Name d = fc_Name c \<and> inverse_of rt d = inverse_of rt c) \<or>
      (fc_Name d = inverse_of rt c \<and> inverse_of rt d = fc_Name c))"

definition consistent_links :: "runtime \<Rightarrow> full_column_meta list \<Rightarrow> bool" where
  "consistent_links rt cols \<longleftrightarrow>
     (\<forall>c \<in> set cols. link_column c \<longrightarrow> column_ok rt c \<and>
        (two_way rt c \<longrightarrow> (\<forall>d \<in> set cols. link_column d \<longrightarrow>
           same_pair rt c d \<or> {fc_Name d, inverse_of rt d} \<inter> {fc_Name c, inverse_of rt c} = {})))"

definition all_mirrored :: "runtime \<Rightarrow> string \<Rightarrow> full_column_meta list \<Rightarrow> calc_db \<Rightarrow> bool" where
  "all_mirrored rt t cols db \<longleftrightarrow>
     (\<forall>c \<in> set cols. link_column c \<and> two_way rt c \<longrightarrow> mirrored (fc_Name c) (inverse_of rt c) (edges t db))"

lemma mirrored_swap: "mirrored f g E = mirrored g f E"
  by (auto simp: mirrored_def)

lemma mirrored_frame:
  "link_step N f g E E' \<Longrightarrow> {f, g} \<inter> {f', g'} = {} \<Longrightarrow> mirrored f' g' E \<Longrightarrow> mirrored f' g' E'"
  by (auto simp: mirrored_def link_step_def)

lemma linkFieldMeta_mem: "linkFieldMeta cols ref = Some col \<Longrightarrow> col \<in> set cols \<and> link_column col"
  by (auto simp: linkFieldMeta_def link_column_def find_Some_iff)

lemma all_mirrored_step:
  assumes "all_mirrored rt t cols db" "consistent_links rt cols" "col \<in> set cols" "link_column col"
    and "two_way rt col \<longrightarrow> mirrored (fc_Name col) (inverse_of rt col) (edges t db')"
    and "link_step N (fc_Name col) (inverse_of rt col) (edges t db) (edges t db')"
  shows "all_mirrored rt t cols db'"
  unfolding all_mirrored_def
proof (intro ballI impI)
  fix c assume c: "c \<in> set cols" "link_column c \<and> two_way rt c"
  with assms(2-4) consider "same_pair rt c col"
    | "{fc_Name col, inverse_of rt col} \<inter> {fc_Name c, inverse_of rt c} = {}"
    unfolding consistent_links_def by blast
  then show "mirrored (fc_Name c) (inverse_of rt c) (edges t db')"
  proof cases
    case 1
    then show ?thesis using assms(5) mirrored_swap by (auto simp: same_pair_def)
  next
    case 2
    with c assms(1) show ?thesis by (intro mirrored_frame [OF assms(6)]) (auto simp: all_mirrored_def)
  qed
qed

lemma persist_loop_mirrored:
  assumes "persist_loop rt t tn a cols ls peers db = (Inr peers', db')" "consistent_links rt cols"
    and "all_mirrored rt t cols db" "proper (edges t db)" "peers_ok peers"
    and "\<forall>l \<in> set (foreign t db). l_from_record l \<notin> insert a (\<Union>(wanted ` snd ` set ls))"
    and par: "trimID a \<noteq> []" "plain tn" "tn \<noteq> []"
  shows "all_mirrored rt t cols db' \<and> set peers \<subseteq> set peers' \<and> ends_in (peer_ids a peers') (moved (edges t db) (edges t db'))"
  using assms(1,3-6)
proof (induction ls arbitrary: db peers)
  case Nil
  then show ?case by (simp add: moved_def ends_in_def)
next
  case (Cons l ls)
  obtain ref ids where l: "l = (ref, ids)" by (cases l)
  show ?case
  proof (cases "linkFieldMeta cols ref")
    case None
    with Cons l show ?thesis by simp
  next
    case (Some col)
    note col = linkFieldMeta_mem [OF Some]
    from Cons.prems(1) l Some obtain qs db1 where 1: "persist_field rt t tn a col ids peers db = (Inr qs, db1)"
      and 2: "persist_loop rt t tn a cols ls qs db1 = (Inr peers', db')" by (auto elim!: dbind_Inr)
    have ok: "column_ok rt col" using col assms(2) by (auto simp: consistent_links_def)
    have m: "two_way rt col \<Longrightarrow> mirrored (fc_Name col) (inverse_of rt col) (edges t db)"
      using col Cons.prems(2) by (auto simp: all_mirrored_def)
    have fo: "\<forall>l \<in> set (foreign t db). l_from_record l \<notin> insert a (wanted ids)" using Cons.prems(5) l by auto
    note f = persist_field_mirrored [OF 1 ok m Cons.prems(3,4) fo par]
    have st: "link_step (peer_ids a qs) (fc_Name col) (inverse_of rt col) (edges t db) (edges t db1)"
      "peers_ok qs" "set peers \<subseteq> set qs" "foreign t db1 = foreign t db" using f by (simp_all add: written_def)
    have am: "all_mirrored rt t cols db1"
      using all_mirrored_step [OF Cons.prems(2) assms(2) conjunct1 [OF col] conjunct2 [OF col] _ st(1)] f by blast
    have pr: "proper (edges t db1)" using st(1) Cons.prems(3) by (simp add: link_step_def)
    have fo': "\<forall>l \<in> set (foreign t db1). l_from_record l \<notin> insert a (\<Union>(wanted ` snd ` set ls))"
      using Cons.prems(5) st(4) by auto
    note ih = Cons.IH [OF 2 am pr st(2) fo']
    have "ends_in (peer_ids a peers') (moved (edges t db) (edges t db1))"
      using st(1) ih peer_ids_mono [of qs peers' a] ends_in_mono by (auto simp: link_step_def)
    with ih st(3) show ?thesis using ends_in_moved_trans by blast
  qed
qed

text \<open>
  C23. Writing link cells keeps the two directions of every two-way link equal: whatever the
  cardinalities, and whether the transaction succeeds or fails at any statement, record \<open>x\<close>
  links to \<open>y\<close> exactly when \<open>y\<close> links back to \<open>x\<close>. When it succeeds, every record whose links
  changed is the written record or one of the returned peers, which are then recalculated; when
  it fails, the links are as before.
\<close>

theorem persistLinks_mirrored:
  assumes "persistLinks rt t tn a cols ls db = (res, db')" "consistent_links rt cols"
    and "all_mirrored rt t cols db" "proper (edges t db)"
    and "\<forall>l \<in> set (foreign t db). l_from_record l \<notin> insert a (\<Union>(wanted ` snd ` set ls))"
    and "trimID a \<noteq> []" "plain tn" "tn \<noteq> []"
  shows "all_mirrored rt t cols db' \<and>
    (case res of
       Inl e \<Rightarrow> links db' = links db
     | Inr peers \<Rightarrow> ends_in (insert a (lp_RecordID ` set peers)) (moved (edges t db) (edges t db')))"
proof (cases res)
  case (Inl e)
  have "links db' = links db"
    using assms(1) Inl by (auto simp: persistLinks_def split: if_splits dest!: in_tx_Inl) (metis calc_db.ext_inject calc_db.surjective calc_db.update_convs(2,3))
  then show ?thesis using Inl assms(3) by (simp add: all_mirrored_def edges_def)
next
  case (Inr peers)
  show ?thesis
  proof (cases "ls = []")
    case True
    then show ?thesis using assms(1,3) Inr by (auto simp: persistLinks_def moved_def ends_in_def)
  next
    case False
    with assms(1) Inr obtain db1 where
      1: "persist_loop rt t tn a cols ls [] (db\<lparr>aborted := False, faults := tl (faults db)\<rparr>) = (Inr peers, db1)"
      and 2: "db' = db1\<lparr>faults := tl (faults db1), aborted := False\<rparr>"
      by (auto simp: persistLinks_def persistLinksTx_def elim!: in_tx_Inr)
    have "peers_ok []" by (simp add: peers_ok_def)
    from persist_loop_mirrored [OF 1 assms(2) _ _ this _ assms(6-8)] assms(3-5) Inr 2 show ?thesis
      by (simp add: all_mirrored_def peer_ids_def)
  qed
qed

definition items_column :: full_column_meta where
  "items_column = \<lparr>fc_Id = ''c1'', fc_TableName = ''orders'', fc_Name = ''items'', fc_TypeId = ''link'', fc_Kind = ''link'',
     fc_PgType = [], fc_IsNullable = True, fc_Position = 1,
     fc_Config = [(''to_table_name'', VStr ''items''), (''bidirectional'', VBool True), (''cardinality'', VStr ''many''),
       (''inverse_field_name'', VStr ''order'')], fc_IsVirtual = True\<rparr>"

lemma items_write:
  "consistent_links example_rt [items_column]" "linkCardinality example_rt items_column = ''many''"
  "two_way example_rt items_column" "link_column items_column" "fc_Name items_column = ''items''"
  "inverse_of example_rt items_column = ''order''" "plain ''orders''" "trimID ''o1'' \<noteq> []"
  by code_simp+

theorem persistLinks_mirrored_witness:
  "mirrored ''items'' ''order'' (edges ''a'' (snd (persistLinks example_rt ''a'' ''orders'' ''o1'' [items_column]
     [(''items'', [''i1'', ''i2''])] (store_of []))))"
proof -
  let ?r = "persistLinks example_rt ''a'' ''orders'' ''o1'' [items_column] [(''items'', [''i1'', ''i2''])] (store_of [])"
  have r: "?r = (fst ?r, snd ?r)" by simp
  have e: "edges ''a'' (store_of []) = {}" "foreign ''a'' (store_of []) = []" by (simp_all add: edges_def foreign_def store_of_def)
  have "all_mirrored example_rt ''a'' [items_column] (store_of [])" by (simp add: all_mirrored_def mirrored_def e)
  then have "all_mirrored example_rt ''a'' [items_column] (snd ?r)"
    using persistLinks_mirrored [OF r items_write(1)] items_write(7,8) by (simp add: e proper_def)
  then show ?thesis using items_write by (simp add: all_mirrored_def)
qed

text \<open>
  C26. A link cell reads back what was written: after a successful write of one link column the
  record's targets are exactly the ids given, without blanks and repetitions, and only the first
  one when the column's cardinality is \<open>one\<close>.
\<close>

theorem persistLinks_reads_back:
  assumes "persistLinks rt t tn a cols [(ref, ids)] db = (Inr peers, db')" "linkFieldMeta cols ref = Some col"
    and "consistent_links rt cols" "all_mirrored rt t cols db" "proper (edges t db)" "link_wf db"
    and "\<forall>l \<in> set (foreign t db). l_from_record l \<notin> insert a (wanted ids)"
    and "trimID a \<noteq> []" "plain tn" "tn \<noteq> []"
  shows "set (to_ids t a (fc_Name col) db') = wanted (cut_ids rt col ids) \<and> distinct (to_ids t a (fc_Name col) db')"
proof -
  from assms(1,2) obtain db1 where
    1: "persist_field rt t tn a col ids [] (db\<lparr>aborted := False, faults := tl (faults db)\<rparr>) = (Inr peers, db1)"
    and 2: "db' = db1\<lparr>faults := tl (faults db1), aborted := False\<rparr>"
    by (auto simp: persistLinks_def persistLinksTx_def elim!: in_tx_Inr dbind_Inr)
  note col = linkFieldMeta_mem [OF assms(2)]
  have ok: "column_ok rt col" using col assms(3) by (auto simp: consistent_links_def)
  have m: "two_way rt col \<Longrightarrow> mirrored (fc_Name col) (inverse_of rt col) (edges t db)"
    using col assms(4) by (auto simp: all_mirrored_def)
  have "\<forall>y. (a, fc_Name col, y) \<in> edges t db1 \<longleftrightarrow> y \<in> wanted (cut_ids rt col ids)"
    using persist_field_mirrored [OF 1 ok _ _ _ _ assms(8-10)] m assms(5,7) by (simp add: peers_ok_def)
  moreover have "link_wf db'" using keepsD [OF link_inv.keeps_persistLinks assms(1) assms(6)] .
  then have "distinct (map edge_of (links db'))" by (simp add: link_wf_def)
  then have "distinct (to_ids t a (fc_Name col) db')"
    by (auto simp: to_ids_def distinct_map inj_on_def edge_of_def)
  ultimately show ?thesis using 2 by (simp add: set_to_ids)
qed

theorem persistLinks_reads_back_witness:
  "set (to_ids ''a'' ''o1'' ''items'' (snd (persistLinks example_rt ''a'' ''orders'' ''o1'' [items_column]
     [(''items'', [''i1'', ''<nil>'', ''i2'', ''i1''])] (store_of [])))) = {''i1'', ''i2''}"
proof -
  let ?r = "persistLinks example_rt ''a'' ''orders'' ''o1'' [items_column] [(''items'', [''i1'', ''<nil>'', ''i2'', ''i1''])] (store_of [])"
  have r: "?r = (Inr [\<lparr>lp_TableName = ''items'', lp_RecordID = ''i1''\<rparr>, \<lparr>lp_TableName = ''items'', lp_RecordID = ''i2''\<rparr>], snd ?r)"
    by code_simp
  have e: "edges ''a'' (store_of []) = {}" "foreign ''a'' (store_of []) = []" by (simp_all add: edges_def foreign_def store_of_def)
  have am: "all_mirrored example_rt ''a'' [items_column] (store_of [])" by (simp add: all_mirrored_def mirrored_def e)
  have lm: "linkFieldMeta [items_column] ''items'' = Some items_column" by code_simp
  have wf: "link_wf (store_of [])" by code_simp
  have w: "wanted (cut_ids example_rt items_column [''i1'', ''<nil>'', ''i2'', ''i1'']) = {''i1'', ''i2''}" by code_simp
  from persistLinks_reads_back [OF r lm items_write(1) am _ wf] items_write(5,7,8) show ?thesis by (simp add: e proper_def w)
qed

end
