(* ===== verification/Calc_Compute.thy ===== *)
theory Calc_Compute
  imports Calc_Link
begin

text \<open>
  Cached values of formulas, lookups and rollups and their computation
  (\<open>internal/service/calc\<close>: \<open>types.go\<close>, \<open>meta.go\<close>, \<open>store.go\<close>, \<open>compute.go\<close>).

  The global metadata is a value \<open>meta_db\<close> that does not change during a calculation. A stored
  document is kept as the map that \<open>json.Unmarshal\<close> gives back. \<open>ords\<close> is the order in which Go
  iterates over the formula names when it sorts them.
\<close>

section \<open>Cached values\<close>

definition CacheValid :: string where "CacheValid = ''valid''"
definition CacheError :: string where "CacheError = ''error''"

definition WrapCache :: "goany \<Rightarrow> string \<Rightarrow> goany" where
  "WrapCache v status = VObj [(''value'', v), (''_cache_status'', VStr (if status = [] then CacheValid else status))]"

definition asMap :: "codec \<Rightarrow> goany \<Rightarrow> goobj option" where
  "asMap cd v =
     (case v of
        VObj m \<Rightarrow> Some m
      | VRaw t \<Rightarrow> (case cd_unmarshal cd t of Inr (Some m) \<Rightarrow> Some m | Inr None \<Rightarrow> Some [] | Inl _ \<Rightarrow> None)
      | _ \<Rightarrow> None)"

definition UnwrapCache :: "codec \<Rightarrow> goany \<Rightarrow> goany" where
  "UnwrapCache cd v =
     (case asMap cd v of
        None \<Rightarrow> v
      | Some m \<Rightarrow> if map_has ''_cache_status'' m then obj_get m ''value'' else v)"

definition CacheStatusOf :: "codec \<Rightarrow> goany \<Rightarrow> string" where
  "CacheStatusOf cd v = (case asMap cd v of None \<Rightarrow> [] | Some m \<Rightarrow> as_string (obj_get m ''_cache_status''))"

definition IsCalcType :: "string \<Rightarrow> bool" where
  "IsCalcType typeID = (to_lower (trim_space typeID) \<in> {''formula'', ''lookup'', ''rollup''})"

section \<open>Metadata\<close>

record field =
  f_ID :: string
  f_Name :: string
  f_TypeID :: string
  f_Config :: goobj

record table_row =
  mt_tenant :: string
  mt_base :: string
  mt_name :: string
  mt_vt :: string
  mt_created :: int

record column_row =
  mc_tenant :: string
  mc_base :: string
  mc_table :: string
  mc_id :: string
  mc_name :: string
  mc_type :: string
  mc_nullable :: bool
  mc_position :: int
  mc_config :: goobj

record meta_db =
  lc_tables :: "table_row list"
  lc_columns :: "column_row list"

record table_meta =
  tm_Name :: string
  tm_VTID :: string
  tm_Fields :: "field list"

definition wrap_err :: "(cerr \<Rightarrow> cerr) \<Rightarrow> 'a db_op \<Rightarrow> 'a db_op" where
  "wrap_err w m db = (case m db of (Inl e, db') \<Rightarrow> (Inl (w e), db') | r \<Rightarrow> r)"

definition table_named :: "meta_db \<Rightarrow> string \<Rightarrow> string \<Rightarrow> table_row list" where
  "table_named md tenantID tableRef =
     take 1 (sort_key mt_created (filter (\<lambda>t. mt_tenant t = tenantID \<and> (mt_name t = tableRef \<or> mt_vt t = tableRef)) (lc_tables md)))"

definition fields_of :: "meta_db \<Rightarrow> string \<Rightarrow> string \<Rightarrow> string \<Rightarrow> field list" where
  "fields_of md tenantID baseID name =
     map (\<lambda>c. \<lparr>f_ID = mc_id c, f_Name = mc_name c, f_TypeID = mc_type c, f_Config = mc_config c\<rparr>)
       (sort_key (\<lambda>c. mc_position c) (sort_key mc_name
         (filter (\<lambda>c. mc_tenant c = tenantID \<and> mc_base c = baseID \<and> mc_table c = name) (lc_columns md))))"

definition loadTableMeta :: "meta_db \<Rightarrow> string \<Rightarrow> string \<Rightarrow> table_meta db_op" where
  "loadTableMeta md tenantID tableRef =
     dbind (wrap_err (LoadTable tableRef) (dbind (dquery (\<lambda>_. table_named md tenantID tableRef))
       (\<lambda>ts. case ts of [] \<Rightarrow> fail NoRows | t # _ \<Rightarrow> ret t))) (\<lambda>t.
     dbind (dquery (\<lambda>_. fields_of md tenantID (mt_base t) (mt_name t))) (\<lambda>fs.
       ret \<lparr>tm_Name = mt_name t, tm_VTID = mt_vt t, tm_Fields = fs\<rparr>))"

text \<open>Of two tables with the same name the later row wins.\<close>

definition loadVTMap :: "meta_db \<Rightarrow> string \<Rightarrow> (string \<times> string) list db_op" where
  "loadVTMap md tenantID =
     dquery (\<lambda>_. foldl (\<lambda>m t. map_put (mt_name t) (mt_vt t) m) [] (filter (\<lambda>t. mt_tenant t = tenantID) (lc_tables md)))"

fun firstCfg :: "runtime \<Rightarrow> goobj \<Rightarrow> string list \<Rightarrow> string" where
  "firstCfg rt cfg [] = []"
| "firstCfg rt cfg (k # ks) = (let s = CfgString rt cfg k in if s \<noteq> [] then s else firstCfg rt cfg ks)"

definition target_table_keys :: "string list" where "target_table_keys = [''to_table_name'', ''target_table_name'']"
definition link_keys :: "string list" where "link_keys = [''link_field_id'', ''relation_column_id'']"
definition target_keys :: "string list" where "target_keys = [''target_field_id'', ''target_column_id'']"

definition lookupTargetTable :: "runtime \<Rightarrow> field \<Rightarrow> field list \<Rightarrow> string" where
  "lookupTargetTable rt f linkFields =
     (let t = firstCfg rt (f_Config f) target_table_keys; linkName = firstCfg rt (f_Config f) link_keys in
      if t \<noteq> [] then t
      else (case find (\<lambda>lf. f_Name lf = linkName \<or> f_ID lf = linkName) linkFields of
          Some lf \<Rightarrow> firstCfg rt (f_Config lf) target_table_keys
        | None \<Rightarrow> []))"

definition enrichLookupRollupTargets :: "runtime \<Rightarrow> field list \<Rightarrow> field list" where
  "enrichLookupRollupTargets rt fs =
     (let lfs = filter (\<lambda>f. calc_IsLinkType (f_TypeID f)) fs in
      map (\<lambda>f. if f_TypeID f \<noteq> ''lookup'' \<and> f_TypeID f \<noteq> ''rollup'' then f
               else if firstCfg rt (f_Config f) target_table_keys = [] then
                 (let t = lookupTargetTable rt f lfs in
                  if t \<noteq> [] then f\<lparr>f_Config := map_put ''to_table_name'' (VStr t) (f_Config f)\<rparr> else f)
               else f) fs)"

definition fieldDeps :: "runtime \<Rightarrow> field \<Rightarrow> string list" where
  "fieldDeps rt f =
     (let given = (case obj_get (f_Config f) ''deps'' of VArr xs \<Rightarrow> map (sprint rt) xs | VStrs ss \<Rightarrow> ss | _ \<Rightarrow> []) in
      if given \<noteq> [] then given
      else if f_TypeID f = ''lookup'' \<or> f_TypeID f = ''rollup''
      then [firstCfg rt (f_Config f) link_keys, firstCfg rt (f_Config f) target_keys]
      else [])"

section \<open>Records\<close>

record rec =
  rc_ID :: string
  rc_VTID :: string
  rc_WSID :: string
  rc_Data :: goobj
  rc_Version :: int

definition scan_rec :: "rec_row \<Rightarrow> rec" where
  "scan_rec r = \<lparr>rc_ID = r_record r, rc_VTID = r_vt r, rc_WSID = r_tenant r, rc_Data = r_data r, rc_Version = r_version r\<rparr>"

definition ReadRecord :: "string \<Rightarrow> string \<Rightarrow> string \<Rightarrow> rec db_op" where
  "ReadRecord tenantID vtID recordID =
     dbind (dquery (\<lambda>db. find (\<lambda>r. r_vt r = vtID \<and> r_tenant r = tenantID \<and> r_record r = recordID) (recs db)))
       (\<lambda>r. case r of None \<Rightarrow> fail NoRows | Some r \<Rightarrow> ret (scan_rec r))"

definition ReadRecords :: "string \<Rightarrow> string \<Rightarrow> string list \<Rightarrow> (string \<times> rec) list db_op" where
  "ReadRecords tenantID vtID ids =
     (if ids = [] then ret []
      else dquery (\<lambda>db. foldl (\<lambda>m r. map_put (r_record r) (scan_rec r) m) []
        (filter (\<lambda>r. r_vt r = vtID \<and> r_tenant r = tenantID \<and> r_record r \<in> set ids) (recs db))))"

text \<open>\<open>json.Marshal\<close> followed by what a later \<open>json.Unmarshal\<close> reads; its error is ignored.\<close>

definition json_store :: "codec \<Rightarrow> goobj \<Rightarrow> cerr + goobj" where
  "json_store cd m =
     (case cd_marshal cd (VObj m) of
        Inl e \<Rightarrow> Inl (ErrMarshal e)
      | Inr t \<Rightarrow> Inr (case cd_unmarshal cd t of Inr (Some m') \<Rightarrow> m' | _ \<Rightarrow> []))"

definition PatchCalcFields :: "codec \<Rightarrow> rec \<Rightarrow> goobj \<Rightarrow> bool db_op" where
  "PatchCalcFields cd r patched =
     (case json_store cd (map_merge (rc_Data r) patched) of
        Inl e \<Rightarrow> fail e
      | Inr doc \<Rightarrow> dbind (dexec (st_patch (rc_VTID r) (rc_WSID r) (rc_ID r) (rc_Version r) doc)) (\<lambda>n. ret (n > 0)))"

section \<open>Computation\<close>

definition withUnwrapped :: "codec \<Rightarrow> goobj \<Rightarrow> goobj" where
  "withUnwrapped cd data = map (\<lambda>(k, v). (k, if asMap cd v \<noteq> None then v else UnwrapCache cd v)) data"

text \<open>The loop over the sorted formulas; a panic of the evaluator is not an error value.\<close>

fun formula_loop :: "runtime \<Rightarrow> fdef list \<Rightarrow> goobj \<Rightarrow> goobj \<Rightarrow> goobj \<Rightarrow> gopanic + (goobj \<times> goobj)" where
  "formula_loop rt [] env data out = Inr (out, data)"
| "formula_loop rt (d # ds) env data out =
     (case EvalExpr rt (Expr d) env of
        Inl (EvalPanic p) \<Rightarrow> Inl p
      | Inl _ \<Rightarrow> formula_loop rt ds env data (map_put (Name d) (WrapCache VNil CacheError) out)
      | Inr v \<Rightarrow> formula_loop rt ds (map_put (Name d) v env) (map_put (Name d) (WrapCache v CacheValid) data)
          (map_put (Name d) (WrapCache v CacheValid) out))"

definition target_vt :: "runtime \<Rightarrow> field \<Rightarrow> (string \<times> string) list \<Rightarrow> string" where
  "target_vt rt f vtByTable =
     (let toTable = firstCfg rt (f_Config f) target_table_keys;
          vt = (case map_of vtByTable toTable of Some v \<Rightarrow> v | None \<Rightarrow> [])
      in if vt = [] then toTable else vt)"

definition target_values :: "codec \<Rightarrow> string \<Rightarrow> string list \<Rightarrow> (string \<times> rec) list \<Rightarrow> goany list" where
  "target_values cd targetField ids rs =
     map (\<lambda>r. UnwrapCache cd (obj_get (rc_Data r) targetField)) (List.map_filter (map_of rs) ids)"

definition computeLookup :: "runtime \<Rightarrow> codec \<Rightarrow> rec \<Rightarrow> field \<Rightarrow> (string \<times> string) list \<Rightarrow> goany db_op" where
  "computeLookup rt cd r f vtByTable =
     (let linkField = firstCfg rt (f_Config f) link_keys; targetField = firstCfg rt (f_Config f) target_keys in
      if linkField = [] \<or> targetField = [] then fail (CalcErr (''lookup '' @ f_Name f @ '' missing link/target''))
      else dbind (ListToIDs dquery (rc_WSID r) (rc_ID r) linkField) (\<lambda>toIDs.
        if toIDs = [] then ret VNil
        else dbind (ReadRecords (rc_WSID r) (target_vt rt f vtByTable) toIDs) (\<lambda>rs.
          let values = target_values cd targetField toIDs rs in
          ret (case values of [] \<Rightarrow> VNil | [v] \<Rightarrow> v | _ \<Rightarrow> VArr values))))"

text \<open>The numbers among the target values; \<open>numeric.FromAny\<close> may panic.\<close>

fun rollup_nums :: "runtime \<Rightarrow> goany list \<Rightarrow> gopanic + dec list" where
  "rollup_nums rt [] = Inr []"
| "rollup_nums rt (v # vs) =
     (case FromAny rt v of
        Inl p \<Rightarrow> Inl p
      | Inr d \<Rightarrow> (case rollup_nums rt vs of
          Inl p \<Rightarrow> Inl p
        | Inr ds \<Rightarrow> Inr (case d of Some x \<Rightarrow> x # ds | None \<Rightarrow> ds)))"

definition rollup_sum :: "runtime \<Rightarrow> dec list \<Rightarrow> dec" where
  "rollup_sum rt nums = foldl (rt_dec_add rt) (Dec 0 0) nums"

definition aggregate :: "runtime \<Rightarrow> string \<Rightarrow> dec list \<Rightarrow> string + goany" where
  "aggregate rt agg nums =
     (if nums = [] then Inr VNil
      else if agg = ''sum'' then Inr (VFloat (ToFloat64 rt (rollup_sum rt nums)))
      else if agg = ''min'' then
        Inr (VFloat (ToFloat64 rt (foldl (\<lambda>m n. if Compare rt n m < 0 then n else m) (hd nums) (tl nums))))
      else if agg = ''max'' then
        Inr (VFloat (ToFloat64 rt (foldl (\<lambda>m n. if Compare rt n m > 0 then n else m) (hd nums) (tl nums))))
      else if agg = ''avg'' then
        (case Div rt (rollup_sum rt nums) (rt_dec_of_int rt (int (length nums))) of
           Inl e \<Rightarrow> Inl e | Inr q \<Rightarrow> Inr (VFloat (ToFloat64 rt q)))
      else Inl (''unsupported aggregation '' @ agg))"

definition computeRollup :: "runtime \<Rightarrow> codec \<Rightarrow> rec \<Rightarrow> field \<Rightarrow> (string \<times> string) list \<Rightarrow> goany db_op" where
  "computeRollup rt cd r f vtByTable =
     (let linkField = firstCfg rt (f_Config f) link_keys; targetField = firstCfg rt (f_Config f) target_keys;
          agg = (let a = to_lower (firstCfg rt (f_Config f) [''aggregation'', ''aggregate'']) in if a = [] then ''count'' else a)
      in dbind (ListToIDs dquery (rc_WSID r) (rc_ID r) linkField) (\<lambda>childIDs.
        if agg = ''count'' then ret (VFloat (f64_of_int (int (length childIDs))))
        else dbind (ReadRecords (rc_WSID r) (target_vt rt f vtByTable) childIDs) (\<lambda>rs.
          case rollup_nums rt (target_values cd targetField childIDs rs) of
            Inl p \<Rightarrow> fail (CalcPanic p)
          | Inr nums \<Rightarrow> (case aggregate rt agg nums of Inl e \<Rightarrow> fail (CalcErr e) | Inr v \<Rightarrow> ret v))))"

text \<open>The loops over lookups and rollups: an error becomes an error cell, a panic does not.\<close>

fun cell_loop :: "(field \<Rightarrow> goany db_op) \<Rightarrow> field list \<Rightarrow> goobj \<Rightarrow> goobj db_op" where
  "cell_loop f [] out = ret out"
| "cell_loop f (x # xs) out = (\<lambda>db.
     (case f x db of
        (Inl (CalcPanic p), db') \<Rightarrow> (Inl (CalcPanic p), db')
      | (Inl _, db') \<Rightarrow> cell_loop f xs (map_put (f_Name x) (WrapCache VNil CacheError) out) db'
      | (Inr v, db') \<Rightarrow> cell_loop f xs (map_put (f_Name x) (WrapCache v CacheValid) out) db'))"

definition wanted_field :: "string list \<Rightarrow> field \<Rightarrow> bool" where
  "wanted_field only f =
     (let want = filter (\<lambda>i. i \<noteq> []) only in want = [] \<or> f_Name f \<in> set want \<or> f_ID f \<in> set want)"

definition fields_of_type :: "string \<Rightarrow> string list \<Rightarrow> field list \<Rightarrow> field list" where
  "fields_of_type ty only fs = filter (\<lambda>f. wanted_field only f \<and> to_lower (f_TypeID f) = ty) fs"

definition formula_defs :: "runtime \<Rightarrow> string list \<Rightarrow> field list \<Rightarrow> fdef list" where
  "formula_defs rt only fs =
     map (\<lambda>f. \<lparr>Name = f_Name f, Expr = FormulaExpression rt (f_Config f)\<rparr>)
       (filter (\<lambda>f. FormulaExpression rt (f_Config f) \<noteq> []) (fields_of_type ''formula'' only fs))"

text \<open>\<open>ComputeFields\<close> returns the new cells and the record, whose data it updates.\<close>

definition ComputeFields ::
    "runtime \<Rightarrow> codec \<Rightarrow> (fdef list \<Rightarrow> string list) \<Rightarrow> rec \<Rightarrow> field list \<Rightarrow> (string \<times> string) list \<Rightarrow> string list \<Rightarrow> (goobj \<times> rec) db_op" where
  "ComputeFields rt cd ords r fs vtByTable only =
     (let defs = formula_defs rt only fs in
      case Sort (ords defs) defs of
        Inl e \<Rightarrow> fail (ErrSort e)
      | Inr ordered \<Rightarrow>
          (case formula_loop rt ordered (withUnwrapped cd (rc_Data r)) (rc_Data r) [] of
             Inl p \<Rightarrow> fail (CalcPanic p)
           | Inr (out, data) \<Rightarrow>
               (let r' = r\<lparr>rc_Data := data\<rparr> in
                dbind (cell_loop (\<lambda>f. computeLookup rt cd r' f vtByTable) (fields_of_type ''lookup'' only fs) out) (\<lambda>out1.
                dbind (cell_loop (\<lambda>f. computeRollup rt cd r' f vtByTable) (fields_of_type ''rollup'' only fs) out1) (\<lambda>out2.
                  ret (out2, r'))))))"

end
