(* ===== verification/Calc_Engine.thy ===== *)
theory Calc_Engine
  imports Calc_Compute
begin

text \<open>
  The calculation engine (\<open>internal/service/calc/engine.go\<close>) and the batch loop of its worker
  (\<open>worker.go\<close>): processing a task, retrying, marking exhausted tasks in the record, enqueueing
  after an edit, and computing values on read.
\<close>

section \<open>Operations\<close>

text \<open>\<open>err.Error()\<close>; a formula that is refused never reaches the queue, its text is not modelled.\<close>

fun cerr_text :: "cerr \<Rightarrow> string" where
  "cerr_text (DbFault m) = m"
| "cerr_text TxAborted = ''current transaction is aborted''"
| "cerr_text NoRows = ''no rows in result set''"
| "cerr_text ErrVersionConflict = ''record version conflict''"
| "cerr_text (LoadTable t e) = ''load table '' @ [CHR 0x22] @ t @ [CHR 0x22] @ '': '' @ cerr_text e"
| "cerr_text (ErrSort (SelfReference n)) = ''formula '' @ [CHR 0x22] @ n @ [CHR 0x22] @ '' cannot reference itself''"
| "cerr_text (ErrSort ErrCycle) = ''formula dependency cycle''"
| "cerr_text (ErrSort OutOfFuel) = []"
| "cerr_text (ErrFormula _) = []"
| "cerr_text (ErrMarshal m) = m"
| "cerr_text NegativeShift = ''negative shift amount''"
| "cerr_text (CalcPanic _) = ''panic''"
| "cerr_text (CalcErr m) = m"

definition Process ::
    "runtime \<Rightarrow> codec \<Rightarrow> (fdef list \<Rightarrow> string list) \<Rightarrow> meta_db \<Rightarrow> task \<Rightarrow> unit db_op" where
  "Process rt cd ords md t =
     dbind (loadTableMeta md (t_TenantID t) (t_TableName t)) (\<lambda>tm.
     dbind (loadVTMap md (t_TenantID t)) (\<lambda>vtMap.
     let fs = enrichLookupRollupTargets rt (tm_Fields tm) in
     dbind (ReadRecord (t_TenantID t) (tm_VTID tm) (t_RecordID t)) (\<lambda>r.
     dbind (ComputeFields rt cd ords r fs vtMap (t_TargetFieldIDs t)) (\<lambda>(patched, r').
       if patched = [] then MarkCompleted (t_ID t)
       else dbind (PatchCalcFields cd r' patched) (\<lambda>ok.
         if \<not> ok then fail ErrVersionConflict else MarkCompleted (t_ID t))))))"

definition error_cells :: "codec \<Rightarrow> task \<Rightarrow> field list \<Rightarrow> goobj \<Rightarrow> goobj" where
  "error_cells cd t fs data =
     foldl (\<lambda>out f. map_put (f_Name f) (WrapCache (UnwrapCache cd (obj_get data (f_Name f))) CacheError) out) []
       (filter (\<lambda>f. IsCalcType (f_TypeID f) \<and>
          (t_TargetFieldIDs t = [] \<or> f_Name f \<in> set (t_TargetFieldIDs t) \<or> f_ID f \<in> set (t_TargetFieldIDs t))) fs)"

text \<open>\<open>writeErrorCaches\<close>: every error ends it silently.\<close>

definition writeErrorCaches :: "codec \<Rightarrow> meta_db \<Rightarrow> task \<Rightarrow> calc_db \<Rightarrow> calc_db" where
  "writeErrorCaches cd md t db =
     snd (dbind (loadTableMeta md (t_TenantID t) (t_TableName t)) (\<lambda>tm.
          dbind (ReadRecord (t_TenantID t) (tm_VTID tm) (t_RecordID t)) (\<lambda>r.
            PatchCalcFields cd r (error_cells cd t (tm_Fields tm) (rc_Data r)))) db)"

text \<open>A panic unwinds \<open>ProcessOrRetry\<close> too.\<close>

definition ProcessOrRetry ::
    "runtime \<Rightarrow> codec \<Rightarrow> (fdef list \<Rightarrow> string list) \<Rightarrow> meta_db \<Rightarrow> task \<Rightarrow> unit db_op" where
  "ProcessOrRetry rt cd ords md t db =
     (case Process rt cd ords md t db of
        (Inr _, db') \<Rightarrow> (Inr (), db')
      | (Inl (CalcPanic p), db') \<Rightarrow> (Inl (CalcPanic p), db')
      | (Inl e, db') \<Rightarrow>
          MarkRetry t (cerr_text e)
            (if t_RetryCount t + 1 \<ge> t_MaxRetry t \<and> t_MaxRetry t > 0 then writeErrorCaches cd md t db' else db'))"

definition needs_self :: "runtime \<Rightarrow> field list \<Rightarrow> string list \<Rightarrow> bool \<Rightarrow> bool" where
  "needs_self rt fs changed linkChanged =
     (linkChanged \<or>
      list_ex (\<lambda>f. f_TypeID f = ''formula'' \<and>
        (list_ex (\<lambda>r. r \<in> set changed) (Refs (FormulaExpression rt (f_Config f))) \<or>
         list_ex (\<lambda>d. d \<in> set changed) (fieldDeps rt f))) fs)"

text \<open>The loop over incoming links, each source record once.\<close>

fun enqueue_sources :: "string \<Rightarrow> string list \<Rightarrow> link_edge list \<Rightarrow> unit db_op" where
  "enqueue_sources tenantID seen [] = ret ()"
| "enqueue_sources tenantID seen (e # es) =
     (if le_FromRecordID e \<in> set seen then enqueue_sources tenantID seen es
      else dbind (Enqueue tenantID (le_FromTableName e) (le_FromRecordID e) [])
        (\<lambda>_. enqueue_sources tenantID (le_FromRecordID e # seen) es))"

definition EnqueueAfterUserEdit ::
    "runtime \<Rightarrow> meta_db \<Rightarrow> string \<Rightarrow> string \<Rightarrow> string \<Rightarrow> string list \<Rightarrow> bool \<Rightarrow> unit db_op" where
  "EnqueueAfterUserEdit rt md tenantID tableName recordID changed linkChanged =
     dbind (loadTableMeta md tenantID tableName) (\<lambda>tm.
     dbind (if needs_self rt (tm_Fields tm) changed linkChanged
            then Enqueue tenantID (tm_Name tm) recordID [] else ret ()) (\<lambda>_.
     dbind (ListIncoming tenantID recordID) (enqueue_sources tenantID [])))"

definition LiveCompute ::
    "runtime \<Rightarrow> codec \<Rightarrow> (fdef list \<Rightarrow> string list) \<Rightarrow> meta_db \<Rightarrow> string \<Rightarrow> string \<Rightarrow> string \<Rightarrow> (goobj \<times> int) db_op" where
  "LiveCompute rt cd ords md tenantID tableName recordID =
     dbind (loadTableMeta md tenantID tableName) (\<lambda>tm.
     dbind (loadVTMap md tenantID) (\<lambda>vtMap.
     dbind (ReadRecord tenantID (tm_VTID tm) recordID) (\<lambda>r.
     dbind (ComputeFields rt cd ords r (enrichLookupRollupTargets rt (tm_Fields tm)) vtMap []) (\<lambda>(live, r').
       let unwrap = map (\<lambda>(k, v). (k, UnwrapCache cd v)) in
       ret (map_merge (unwrap (rc_Data r')) (unwrap live), rc_Version r')))))"

definition CacheMismatch :: "runtime \<Rightarrow> codec \<Rightarrow> goobj \<Rightarrow> goobj \<Rightarrow> field list \<Rightarrow> bool" where
  "CacheMismatch rt cd cached live fs =
     list_ex (\<lambda>f. IsCalcType (f_TypeID f) \<and>
       sprint rt (UnwrapCache cd (obj_get cached (f_Name f))) \<noteq> sprint rt (UnwrapCache cd (obj_get live (f_Name f)))) fs"

text \<open>
  \<open>Drain\<close>: claim a batch and process its tasks one by one; errors are logged, a panic ends the
  process. Log output and telemetry are left out.
\<close>

fun drain_loop :: "(task \<Rightarrow> unit db_op) \<Rightarrow> task list \<Rightarrow> unit db_op" where
  "drain_loop f [] = ret ()"
| "drain_loop f (t # ts) = (\<lambda>db.
     (case f t db of
        (Inl (CalcPanic p), db') \<Rightarrow> (Inl (CalcPanic p), db')
      | (_, db') \<Rightarrow> drain_loop f ts db'))"

definition Drain ::
    "runtime \<Rightarrow> codec \<Rightarrow> (fdef list \<Rightarrow> string list) \<Rightarrow> meta_db \<Rightarrow> int \<Rightarrow> int \<Rightarrow> int \<Rightarrow> unit db_op" where
  "Drain rt cd ords md batch perTenant alertLen =
     dbind (ClaimFair batch perTenant) (\<lambda>ts.
     dbind (drain_loop (ProcessOrRetry rt cd ords md) ts) (\<lambda>_ db.
       if alertLen > 0 then (Inr (), snd (Snapshot alertLen db)) else (Inr (), db)))"

section \<open>Handlers keep the invariants\<close>

context db_read
begin

lemma keeps_wrap_err [keep_rules]: "keeps I m \<Longrightarrow> keeps I (wrap_err w m)"
  unfolding keeps_def wrap_err_def by (auto split: prod.splits sum.splits)

lemma keeps_case_list [keep_rules]:
  "keeps I m \<Longrightarrow> (\<And>x xs. keeps I (f x xs)) \<Longrightarrow> keeps I (case l of [] \<Rightarrow> m | x # xs \<Rightarrow> f x xs)"
  by (cases l) auto

lemma keeps_case_option [keep_rules]:
  "keeps I m \<Longrightarrow> (\<And>x. keeps I (f x)) \<Longrightarrow> keeps I (case l of None \<Rightarrow> m | Some x \<Rightarrow> f x)"
  by (cases l) auto

lemma keeps_case_sum [keep_rules]:
  "(\<And>x. keeps I (f x)) \<Longrightarrow> (\<And>x. keeps I (g x)) \<Longrightarrow> keeps I (case l of Inl x \<Rightarrow> f x | Inr x \<Rightarrow> g x)"
  by (cases l) auto

lemma keeps_case_prod [keep_rules]: "(\<And>x y. keeps I (f x y)) \<Longrightarrow> keeps I (case l of (x, y) \<Rightarrow> f x y)"
  by (cases l) auto

lemma keeps_loadTableMeta [keep_rules]: "keeps I (loadTableMeta md t tb)"
  unfolding loadTableMeta_def by (intro keep_rules)

lemma keeps_loadVTMap [keep_rules]: "keeps I (loadVTMap md t)"
  unfolding loadVTMap_def by (intro keep_rules)

lemma keeps_ReadRecord [keep_rules]: "keeps I (ReadRecord t vt r)"
  unfolding ReadRecord_def by (intro keep_rules)

lemma keeps_ReadRecords [keep_rules]: "keeps I (ReadRecords t vt ids)"
  unfolding ReadRecords_def by (intro keep_rules)

lemma keeps_computeLookup [keep_rules]: "keeps I (computeLookup rt cd r f vts)"
  unfolding computeLookup_def Let_def by (intro keep_rules)

lemma keeps_computeRollup [keep_rules]: "keeps I (computeRollup rt cd r f vts)"
  unfolding computeRollup_def Let_def by (intro keep_rules)

lemma keeps_cell_loop [keep_rules]: "(\<And>x. keeps I (f x)) \<Longrightarrow> keeps I (cell_loop f xs out)"
proof (induction xs arbitrary: out)
  case (Cons x xs)
  show ?case
    unfolding keeps_def
  proof (intro allI impI)
    fix db assume db: "I db"
    obtain res db1 where f: "f x db = (res, db1)" by fastforce
    have "I db1" by (rule keepsD [OF Cons.prems f db])
    with Cons f show "I (snd (cell_loop f (x # xs) out db))"
      unfolding keeps_def by (auto split: sum.split cerr.split)
  qed
qed (auto intro: keep_rules)

lemma keeps_ComputeFields [keep_rules]: "keeps I (ComputeFields rt cd ords r fs vts only)"
  unfolding ComputeFields_def Let_def by (intro keep_rules)

end

context db_patch
begin

lemma keeps_PatchCalcFields [keep_rules]: "keeps I (PatchCalcFields cd r p)"
  unfolding PatchCalcFields_def by (intro keep_rules)

lemma writeErrorCaches_inv: "I db \<Longrightarrow> I (writeErrorCaches cd md t db)"
proof -
  have "keeps I (dbind (loadTableMeta md (t_TenantID t) (t_TableName t)) (\<lambda>tm.
          dbind (ReadRecord (t_TenantID t) (tm_VTID tm) (t_RecordID t)) (\<lambda>r.
            PatchCalcFields cd r (error_cells cd t (tm_Fields tm) (rc_Data r)))))" by (intro keep_rules)
  then show "I db \<Longrightarrow> I (writeErrorCaches cd md t db)" by (simp add: keeps_def writeErrorCaches_def)
qed

end

context db_side
begin

lemma keeps_enqueue_sources [keep_rules]: "keeps I (enqueue_sources t seen es)"
  by (induction es arbitrary: seen) (auto intro: keep_rules)

lemma keeps_EnqueueAfterUserEdit [keep_rules]: "keeps I (EnqueueAfterUserEdit rt md t tb r ch lc)"
  unfolding EnqueueAfterUserEdit_def by (intro keep_rules)

end

context db_inv
begin

lemma keeps_Process [keep_rules]: "keeps I (Process rt cd ords md t)"
  unfolding Process_def Let_def by (intro keep_rules)

lemma keeps_ProcessOrRetry [keep_rules]: "keeps I (ProcessOrRetry rt cd ords md t)"
  unfolding keeps_def
proof (intro allI impI)
  fix db assume db: "I db"
  obtain res db1 where p: "Process rt cd ords md t db = (res, db1)" by fastforce
  have "I db1" by (rule keepsD [OF keeps_Process p db])
  moreover from this have "I (writeErrorCaches cd md t db1)" by (rule writeErrorCaches_inv)
  moreover have "I d \<Longrightarrow> I (snd (MarkRetry t c d))" for c d using keeps_MarkRetry unfolding keeps_def by blast
  ultimately show "I (snd (ProcessOrRetry rt cd ords md t db))"
    by (auto simp: ProcessOrRetry_def p split: sum.split cerr.split)
qed

lemma keeps_LiveCompute [keep_rules]: "keeps I (LiveCompute rt cd ords md t tb r)"
  unfolding LiveCompute_def Let_def by (intro keep_rules)

lemma keeps_drain_loop: "(\<And>t. keeps I (f t)) \<Longrightarrow> keeps I (drain_loop f ts)"
proof (induction ts)
  case (Cons t ts)
  show ?case
    unfolding keeps_def
  proof (intro allI impI)
    fix db assume db: "I db"
    obtain res db1 where f: "f t db = (res, db1)" by fastforce
    have "I db1" by (rule keepsD [OF Cons.prems f db])
    with Cons f show "I (snd (drain_loop f (t # ts) db))"
      unfolding keeps_def by (auto split: sum.split cerr.split)
  qed
qed (auto intro: keep_rules)

lemma keeps_Drain [keep_rules]: "keeps I (Drain rt cd ords md b p al)"
proof -
  have "keeps I (\<lambda>db. if al > 0 then (Inr (), snd (Snapshot al db)) else (Inr (), db))"
    using keeps_Snapshot [of al] by (simp add: keeps_def)
  then show ?thesis unfolding Drain_def by (intro keep_rules keeps_drain_loop)
qed

end

end
