(* ===== verification/Meta_Read.thy ===== *)
theory Meta_Read
  imports Tenant_Store Calc_Engine
begin

text \<open>
  Reading the metadata of a table for a request: tenant and base (\<open>shared/helpers.go\<close>), the
  logical table (\<open>shard_pool.go\<close>), column types and their PostgreSQL types
  (\<open>catalog/column_type.go\<close>, \<open>pg_type.go\<close>, \<open>numeric_spec.go\<close>) and the columns
  (\<open>catalog/loaders.go\<close>), with the shared cache in front of \<open>LoadAllColumnMeta\<close>.

  The metadata is a value: the handlers of rows do not change it. The cache is a function from
  keys to what it holds; without a cache it is \<open>\<lambda>_. None\<close>.
\<close>

section \<open>Tenant, base and table\<close>

record type_row =
  ct_tenant :: string
  ct_base :: string
  ct_name :: string
  ct_spec :: column_type_spec

record service_env =
  sv_tenants :: tenant_db
  sv_meta :: meta_db
  sv_types :: "type_row list"
  sv_cache :: "string \<Rightarrow> full_column_meta list option"

definition TenantID :: "service_env \<Rightarrow> request_ctx \<Rightarrow> string db_op" where
  "TenantID sv rq = ResolveTenantID (sv_tenants sv) rq"

definition BaseID :: "service_env \<Rightarrow> request_ctx \<Rightarrow> string db_op" where
  "BaseID sv rq = dbind (TenantID sv rq) (ResolveBaseID (sv_tenants sv) rq)"

definition tables_of :: "service_env \<Rightarrow> string \<Rightarrow> string \<Rightarrow> string \<Rightarrow> table_row list" where
  "tables_of sv tenantID baseID name =
     filter (\<lambda>t. mt_tenant t = tenantID \<and> mt_base t = baseID \<and> mt_name t = name) (lc_tables (sv_meta sv))"

definition ResolveTableName :: "service_env \<Rightarrow> request_ctx \<Rightarrow> string \<Rightarrow> string db_op" where
  "ResolveTableName sv rq tableRef =
     (if tableRef = [] then fail (CalcErr ''table_name is required'')
      else dbind (TenantID sv rq) (\<lambda>tenantID.
        dbind (BaseID sv rq) (\<lambda>baseID.
        dbind (dquery (\<lambda>_. tables_of sv tenantID baseID tableRef)) (\<lambda>ts.
          case ts of [] \<Rightarrow> fail NoRows | t # _ \<Rightarrow> ret (mt_name t)))))"

definition TableVTID :: "service_env \<Rightarrow> string \<Rightarrow> string \<Rightarrow> string \<Rightarrow> string db_op" where
  "TableVTID sv tenantID baseID tableName =
     dbind (dquery (\<lambda>_. if trim_space baseID \<noteq> [] then tables_of sv tenantID baseID tableName
        else sort_key mt_created (filter (\<lambda>t. mt_tenant t = tenantID \<and> mt_name t = tableName) (lc_tables (sv_meta sv))))) (\<lambda>ts.
       case ts of
         [] \<Rightarrow> fail (CalcErr (''table '' @ quoted tableName @ '' not found''))
       | t # _ \<Rightarrow> if mt_vt t = []
           then fail (CalcErr (''table '' @ quoted tableName @ '' has no vt_id (not provisioned for virtual_records)''))
           else ret (mt_vt t))"

section \<open>Column types\<close>

definition loadColumnType :: "service_env \<Rightarrow> request_ctx \<Rightarrow> string \<Rightarrow> string \<Rightarrow> type_row db_op" where
  "loadColumnType sv rq tid name =
     dbind (BaseID sv rq) (\<lambda>baseID.
     wrap_err (\<lambda>e. CalcErr (''columnType '' @ quoted name @ '' not found: '' @ cerr_text e))
       (dbind (dquery (\<lambda>_. find (\<lambda>t. ct_tenant t = tid \<and> ct_base t = baseID \<and> ct_name t = name) (sv_types sv))) (\<lambda>r.
          case r of None \<Rightarrow> fail NoRows | Some t \<Rightarrow> ret t)))"

definition ColumnTypeDDL :: "service_env \<Rightarrow> request_ctx \<Rightarrow> string \<Rightarrow> string \<Rightarrow> string db_op" where
  "ColumnTypeDDL sv rq tid typeName = dbind (loadColumnType sv rq tid typeName) (\<lambda>_. ret typeName)"

text \<open>Every error gives the empty type.\<close>

definition ColumnPgTypeSQL :: "runtime \<Rightarrow> service_env \<Rightarrow> request_ctx \<Rightarrow> string \<Rightarrow> string \<Rightarrow> goobj \<Rightarrow> string db_op" where
  "ColumnPgTypeSQL rt sv rq tid typeID cfg =
     (case Resolve typeID of
        Inr t \<Rightarrow>
          ret (let pg = VirtualColumnPgType rt typeID cfg in
               if ty_Kind t \<noteq> [] \<and> pg \<noteq> [] then pg else EffectivePgType (ty_PgType t) (ty_Config t))
      | Inl _ \<Rightarrow>
          dbind (attempt (loadColumnType sv rq tid typeID)) (\<lambda>r.
            case r of
              Inl _ \<Rightarrow> dbind (attempt (ColumnTypeDDL sv rq tid typeID)) (\<lambda>d. ret (case d of Inr ddl \<Rightarrow> ddl | Inl _ \<Rightarrow> []))
            | Inr t \<Rightarrow> ret (case EffectiveColumnTypePgType (ct_spec t) of Inl _ \<Rightarrow> [] | Inr pg \<Rightarrow> pg)))"

text \<open>The catalogue's answer; \<open>None\<close> is \<open>(Spec{}, false)\<close>.\<close>

definition catalog_NumericSpec :: "service_env \<Rightarrow> request_ctx \<Rightarrow> string \<Rightarrow> string \<Rightarrow> nspec option db_op" where
  "catalog_NumericSpec sv rq tid typeID =
     (case (case Resolve typeID of Inr t \<Rightarrow> if ty_PgType t = ''numeric'' then Some t else None | Inl _ \<Rightarrow> None) of
        Some t \<Rightarrow> ret (Some (SpecFromConfig (Some (ty_Config t))))
      | None \<Rightarrow>
          dbind (attempt (loadColumnType sv rq tid typeID)) (\<lambda>r.
            ret (case r of
                   Inl _ \<Rightarrow> None
                 | Inr ct \<Rightarrow> if cs_PgType (ct_spec ct) \<noteq> ''number'' then None else Some (SpecFromColumnTypeSpec (Some (ct_spec ct))))))"

definition NumericSpecForType :: "service_env \<Rightarrow> request_ctx \<Rightarrow> string \<Rightarrow> nspec option db_op" where
  "NumericSpecForType sv rq typeID =
     dbind (attempt (TenantID sv rq)) (\<lambda>r. case r of Inl _ \<Rightarrow> ret None | Inr tid \<Rightarrow> catalog_NumericSpec sv rq tid typeID)"

section \<open>Columns\<close>

text \<open>\<open>shared.ColumnMeta\<close>: a physical column.\<close>

record phys_column =
  pc_Id :: string
  pc_TableName :: string
  pc_Name :: string
  pc_TypeId :: string
  pc_PgType :: string
  pc_IsNullable :: bool
  pc_Position :: int

definition columns_of :: "service_env \<Rightarrow> string \<Rightarrow> string \<Rightarrow> string \<Rightarrow> column_row list" where
  "columns_of sv tid baseID name =
     sort_key mc_position (filter (\<lambda>c. mc_table c = name \<and> mc_tenant c = tid \<and> mc_base c = baseID \<and> tables_of sv tid baseID name \<noteq> [])
       (lc_columns (sv_meta sv)))"

fun dmap :: "('a \<Rightarrow> 'b db_op) \<Rightarrow> 'a list \<Rightarrow> 'b list db_op" where
  "dmap f [] = ret []"
| "dmap f (x # xs) = dbind (f x) (\<lambda>y. dbind (dmap f xs) (\<lambda>ys. ret (y # ys)))"

text \<open>The table, tenant and base of a request, in the order the loaders resolve them.\<close>

definition resolve_table :: "service_env \<Rightarrow> request_ctx \<Rightarrow> string \<Rightarrow> (string \<times> string \<times> string) db_op" where
  "resolve_table sv rq tableName =
     dbind (ResolveTableName sv rq tableName) (\<lambda>name.
     dbind (TenantID sv rq) (\<lambda>tid.
     dbind (BaseID sv rq) (\<lambda>baseID. ret (name, tid, baseID))))"

definition LoadColumns :: "runtime \<Rightarrow> service_env \<Rightarrow> request_ctx \<Rightarrow> string \<Rightarrow> phys_column list db_op" where
  "LoadColumns rt sv rq tableName =
     dbind (resolve_table sv rq tableName) (\<lambda>(name, tid, baseID).
     dbind (dquery (\<lambda>_. columns_of sv tid baseID name)) (\<lambda>cs.
       dmap (\<lambda>c. dbind (ColumnPgTypeSQL rt sv rq tid (mc_type c) (mc_config c)) (\<lambda>pg.
           ret \<lparr>pc_Id = mc_id c, pc_TableName = mc_table c, pc_Name = mc_name c, pc_TypeId = mc_type c, pc_PgType = pg,
                pc_IsNullable = mc_nullable c, pc_Position = mc_position c\<rparr>))
         (filter (\<lambda>c. \<not> IsVirtual (mc_type c)) cs)))"

definition CacheKeyColumns :: "string \<Rightarrow> string \<Rightarrow> string" where
  "CacheKeyColumns tenantID tableName = ''lc:meta:cols:'' @ tenantID @ '':'' @ tableName"

text \<open>
  \<open>LoadAllColumnMeta\<close> returns what the cache holds under the key, and otherwise the columns of
  the table, which it then puts into the cache.
\<close>

definition column_meta_of :: "runtime \<Rightarrow> service_env \<Rightarrow> request_ctx \<Rightarrow> string \<Rightarrow> column_row \<Rightarrow> full_column_meta db_op" where
  "column_meta_of rt sv rq tid c =
     dbind (ColumnPgTypeSQL rt sv rq tid (mc_type c) (mc_config c)) (\<lambda>pg.
       ret \<lparr>fc_Id = mc_id c, fc_TableName = mc_table c, fc_Name = mc_name c, fc_TypeId = mc_type c, fc_Kind = Kind (mc_type c),
            fc_PgType = pg, fc_IsNullable = mc_nullable c, fc_Position = mc_position c, fc_Config = mc_config c,
            fc_IsVirtual = IsVirtual (mc_type c)\<rparr>)"

definition LoadAllColumnMeta :: "runtime \<Rightarrow> service_env \<Rightarrow> request_ctx \<Rightarrow> string \<Rightarrow> full_column_meta list db_op" where
  "LoadAllColumnMeta rt sv rq tableName =
     dbind (resolve_table sv rq tableName) (\<lambda>(name, tid, baseID).
       case sv_cache sv (CacheKeyColumns tid name) of
         Some cols \<Rightarrow> ret cols
       | None \<Rightarrow> dbind (dquery (\<lambda>_. columns_of sv tid baseID name)) (dmap (column_meta_of rt sv rq tid)))"

text \<open>The cache after a load that had to read the columns.\<close>

definition cache_columns :: "service_env \<Rightarrow> string \<Rightarrow> string \<Rightarrow> full_column_meta list \<Rightarrow> service_env" where
  "cache_columns sv tid name cols = sv\<lparr>sv_cache := (sv_cache sv)(CacheKeyColumns tid name \<mapsto> cols)\<rparr>"

section \<open>Reading changes nothing\<close>

lemma keeps_attempt [keep_rules]: "keeps I m \<Longrightarrow> keeps I (attempt m)"
  unfolding keeps_def attempt_def by (auto split: prod.splits)

lemma keeps_dmap [keep_rules]: "(\<And>x. keeps I (f x)) \<Longrightarrow> keeps I (dmap f xs)"
  by (induction xs) (auto intro!: keep_rules)

lemma keeps_Let [keep_rules]: "(\<And>x. keeps I (f x)) \<Longrightarrow> keeps I (Let v f)"
  by simp

context db_read
begin

lemma keeps_ResolveTenantID [keep_rules]: "keeps I (ResolveTenantID td rq)"
  unfolding ResolveTenantID_def by (intro keep_rules)

lemma keeps_ResolveBaseID [keep_rules]: "keeps I (ResolveBaseID td rq t)"
  unfolding ResolveBaseID_def by (intro keep_rules)

lemma keeps_loadProfile [keep_rules]: "keeps I (loadProfile td t)"
  unfolding loadProfile_def Let_def by (intro keep_rules)

lemma keeps_DataTables [keep_rules]: "keeps I (DataTables td rq)"
  unfolding DataTables_def by (intro keep_rules)

lemma keeps_TenantID [keep_rules]: "keeps I (TenantID sv rq)"
  unfolding TenantID_def by (intro keep_rules)

lemma keeps_BaseID [keep_rules]: "keeps I (BaseID sv rq)"
  unfolding BaseID_def by (intro keep_rules)

lemma keeps_TableVTID [keep_rules]: "keeps I (TableVTID sv t b n)"
  unfolding TableVTID_def by (intro keep_rules)

lemma keeps_loadColumnType [keep_rules]: "keeps I (loadColumnType sv rq t n)"
  unfolding loadColumnType_def by (intro keep_rules)

lemma keeps_ColumnPgTypeSQL [keep_rules]: "keeps I (ColumnPgTypeSQL rt sv rq t ty cfg)"
  unfolding ColumnPgTypeSQL_def ColumnTypeDDL_def by (intro keep_rules)

lemma keeps_NumericSpecForType [keep_rules]: "keeps I (NumericSpecForType sv rq ty)"
  unfolding NumericSpecForType_def catalog_NumericSpec_def by (intro keep_rules)

lemma keeps_resolve_table [keep_rules]: "keeps I (resolve_table sv rq t)"
  unfolding resolve_table_def ResolveTableName_def by (intro keep_rules)

lemma keeps_LoadColumns [keep_rules]: "keeps I (LoadColumns rt sv rq t)"
  unfolding LoadColumns_def by (intro keep_rules)

lemma keeps_LoadAllColumnMeta [keep_rules]: "keeps I (LoadAllColumnMeta rt sv rq t)"
  unfolding LoadAllColumnMeta_def column_meta_of_def by (intro keep_rules)

end

section \<open>The columns cache mixes bases\<close>

text \<open>
  The cache key names the tenant and the table but not the base. With a table of the same name
  in two bases, loading the columns in one base makes the other base see them.
\<close>

definition two_bases :: service_env where
  "two_bases =
     \<lparr>sv_tenants = \<lparr>td_tenants = [\<lparr>tn_id = ''a'', tn_dsn = ''db'', tn_dsn_write = None, tn_reads = None, tn_max_conns = 1, tn_store = None\<rparr>],
        td_bases = [\<lparr>bs_id = ''b1'', bs_tenant = ''a'', bs_created = 1\<rparr>, \<lparr>bs_id = ''b2'', bs_tenant = ''a'', bs_created = 2\<rparr>]\<rparr>,
      sv_meta = \<lparr>lc_tables = [\<lparr>mt_tenant = ''a'', mt_base = ''b1'', mt_name = ''t'', mt_vt = ''v1'', mt_created = 1\<rparr>,
          \<lparr>mt_tenant = ''a'', mt_base = ''b2'', mt_name = ''t'', mt_vt = ''v2'', mt_created = 2\<rparr>],
        lc_columns = [\<lparr>mc_tenant = ''a'', mc_base = ''b1'', mc_table = ''t'', mc_id = ''1'', mc_name = ''x'', mc_type = ''text'',
          mc_nullable = True, mc_position = 1, mc_config = []\<rparr>]\<rparr>,
      sv_types = [], sv_cache = (\<lambda>_. None)\<rparr>"

definition in_base :: "string \<Rightarrow> request_ctx" where
  "in_base b = \<lparr>rq_Tenant = ''a'', rq_Base = b\<rparr>"

lemma dquery_ok: "faults db = [] \<Longrightarrow> dquery f db = (Inr (f db), db)"
  by (simp add: dquery_def)

lemma resolve_two_bases:
  assumes "faults db = []" "b \<in> {''b1'', ''b2''}" "sv_tenants sv = sv_tenants two_bases" "sv_meta sv = sv_meta two_bases"
  shows "resolve_table sv (in_base b) ''t'' db = (Inr (''t'', ''a'', b), db)"
proof -
  have t: "trim_space ''b1'' = ''b1''" "trim_space ''b2'' = ''b2''" by code_simp+
  have "TenantID sv (in_base b) db = (Inr ''a'', db)"
    using assms(1,3) by (simp add: TenantID_def ResolveTenantID_def in_base_def dbind_def dquery_ok find_tenant_def two_bases_def)
  moreover from this have "BaseID sv (in_base b) db = (Inr b, db)"
    using assms t by (auto simp: BaseID_def ResolveBaseID_def in_base_def dbind_def dquery_ok two_bases_def Let_def)
  ultimately show ?thesis
    using assms by (auto simp: resolve_table_def ResolveTableName_def dbind_def dquery_ok tables_of_def two_bases_def)
qed

lemma columns_cache_mixes_bases:
  assumes "faults db = []" "fst (LoadAllColumnMeta rt two_bases (in_base ''b1'') ''t'' db) = Inr cols"
  shows "map fc_Name cols = [''x''] \<and>
    fst (LoadAllColumnMeta rt two_bases (in_base ''b2'') ''t'' db) = Inr [] \<and>
    fst (LoadAllColumnMeta rt (cache_columns two_bases ''a'' ''t'' cols) (in_base ''b2'') ''t'' db) = Inr cols"
proof -
  have "is_ok (Resolve ''text'')" by code_simp
  then obtain ty where ty: "Resolve ''text'' = Inr ty" by (auto simp: is_ok_iff)
  have c: "columns_of two_bases ''a'' ''b1'' ''t'' = lc_columns (sv_meta two_bases)" "columns_of two_bases ''a'' ''b2'' ''t'' = []"
    by (simp_all add: columns_of_def tables_of_def two_bases_def)
  have e: "sv_cache two_bases = (\<lambda>_. None)" by (simp add: two_bases_def)
  have 1: "fst (LoadAllColumnMeta rt two_bases (in_base ''b1'') ''t'' db) =
      map_sum id (\<lambda>c. [c]) (fst (column_meta_of rt two_bases (in_base ''b1'') ''a'' (hd (lc_columns (sv_meta two_bases))) db))"
    using assms(1) ty by (simp add: LoadAllColumnMeta_def resolve_two_bases dbind_def dquery_ok c e column_meta_of_def ColumnPgTypeSQL_def
        two_bases_def [THEN arg_cong, of "\<lambda>sv. lc_columns (sv_meta sv)"])
  have n: "\<exists>m. fst (column_meta_of rt two_bases (in_base ''b1'') ''a'' (hd (lc_columns (sv_meta two_bases))) db) = Inr m \<and> fc_Name m = ''x''"
    using ty by (simp add: column_meta_of_def ColumnPgTypeSQL_def dbind_def two_bases_def)
  have 2: "fst (LoadAllColumnMeta rt two_bases (in_base ''b2'') ''t'' db) = Inr []"
    using assms(1) by (simp add: LoadAllColumnMeta_def resolve_two_bases dbind_def dquery_ok c e)
  have 3: "fst (LoadAllColumnMeta rt (cache_columns two_bases ''a'' ''t'' cols) (in_base ''b2'') ''t'' db) = Inr cols"
    using assms(1) by (simp add: LoadAllColumnMeta_def resolve_two_bases dbind_def cache_columns_def)
  show ?thesis using 1 2 3 n assms(2) by auto
qed

end
