(* ===== verification/Cell_Value.thy ===== *)
theory Cell_Value
  imports Formula_Eval
begin

text \<open>
  Cell values of the row API and their conversions (\<open>internal/service/shared\<close>: \<open>value.go\<close>,
  the value part of \<open>helpers.go\<close>, \<open>numeric_cell.go\<close>, and the conversions of \<open>pg.go\<close>).

  A \<open>*Value\<close> is a \<open>cell_value option\<close>. The package \<open>google/uuid\<close> and the decoding of a JSON
  text into \<open>any\<close> are parameters. The driver's own types (\<open>pgtype.Numeric\<close>, \<open>pgtype.UUID\<close>,
  \<open>[16]byte\<close>) are left out: the rows of the service are decoded from JSON documents and never
  hold them.
\<close>

section \<open>Values\<close>

record cell_value =
  sv_String :: "string option"
  sv_Number :: "f64 option"
  sv_Bool :: "bool option"
  sv_Timestamp :: "gotime option"
  sv_Bytes :: "string option"
  sv_Json :: goany

definition no_value :: cell_value where
  "no_value = \<lparr>sv_String = None, sv_Number = None, sv_Bool = None, sv_Timestamp = None, sv_Bytes = None, sv_Json = VNil\<rparr>"

definition StringValue :: "string \<Rightarrow> cell_value option" where
  "StringValue s = Some (no_value\<lparr>sv_String := Some s\<rparr>)"

definition NumberValue :: "f64 \<Rightarrow> cell_value option" where
  "NumberValue f = Some (no_value\<lparr>sv_Number := Some f\<rparr>)"

definition BoolValue :: "bool \<Rightarrow> cell_value option" where
  "BoolValue b = Some (no_value\<lparr>sv_Bool := Some b\<rparr>)"

text \<open>\<open>time.Time.IsZero\<close>: the first instant of the year 1, in UTC.\<close>

definition time_IsZero :: "runtime \<Rightarrow> gotime \<Rightarrow> bool" where
  "time_IsZero rt t = (tsec t - rt_zone_offset rt (tzone t) (tsec t) = - 62135596800 \<and> tnano t = 0)"

definition TimestampValue :: "runtime \<Rightarrow> gotime \<Rightarrow> cell_value option" where
  "TimestampValue rt t = (if time_IsZero rt t then None else Some (no_value\<lparr>sv_Timestamp := Some t\<rparr>))"

definition JsonValue :: "goany \<Rightarrow> cell_value option" where
  "JsonValue v = Some (no_value\<lparr>sv_Json := v\<rparr>)"

definition ValueToNative :: "runtime \<Rightarrow> cell_value option \<Rightarrow> goany" where
  "ValueToNative rt v =
     (case v of
        None \<Rightarrow> VNil
      | Some c \<Rightarrow>
          (case sv_String c of Some s \<Rightarrow> VStr s | None \<Rightarrow>
          (case sv_Number c of Some f \<Rightarrow> VFloat f | None \<Rightarrow>
          (case sv_Bool c of Some b \<Rightarrow> VBool b | None \<Rightarrow>
          (case sv_Timestamp c of Some t \<Rightarrow> VStr (rt_format_time rt RFC3339Nano t) | None \<Rightarrow>
          (case sv_Bytes c of Some b \<Rightarrow> VBytes b | None \<Rightarrow> sv_Json c))))))"

definition valueToAnyRaw :: "cell_value option \<Rightarrow> goany" where
  "valueToAnyRaw v =
     (case v of
        None \<Rightarrow> VNil
      | Some c \<Rightarrow>
          (case sv_String c of Some s \<Rightarrow> VStr s | None \<Rightarrow>
          (case sv_Number c of Some f \<Rightarrow> VFloat f | None \<Rightarrow>
          (case sv_Bool c of Some b \<Rightarrow> VBool b | None \<Rightarrow>
          (case sv_Timestamp c of Some t \<Rightarrow> VTime t | None \<Rightarrow>
          (case sv_Bytes c of Some b \<Rightarrow> VBytes b | None \<Rightarrow> sv_Json c))))))"

definition ValueToAnyForColumn :: "cell_value option \<Rightarrow> string \<Rightarrow> goany" where
  "ValueToAnyForColumn v pgType =
     (let raw = valueToAnyRaw v in
      if raw = VStr [] \<and> pgType \<notin> {[], ''text'', ''jsonb'', ''json''} then VNil else raw)"

section \<open>From JSON\<close>

text \<open>\<open>strconv.ParseInt(s, 10, 64)\<close>.\<close>

fun dec_digits :: "int \<Rightarrow> string \<Rightarrow> int option" where
  "dec_digits n [] = Some n"
| "dec_digits n (c # s) = (if char_in CHR ''0'' CHR ''9'' c then dec_digits (10 * n + (of_char c - 48)) s else None)"

definition ParseInt64 :: "string \<Rightarrow> int option" where
  "ParseInt64 s =
     (let neg = (s \<noteq> [] \<and> hd s = CHR ''-'');
          ds = (if s \<noteq> [] \<and> (hd s = CHR ''-'' \<or> hd s = CHR ''+'') then tl s else s) in
      if ds = [] then None
      else (case dec_digits 0 ds of
          None \<Rightarrow> None
        | Some n \<Rightarrow>
            let i = (if neg then - n else n) in
            if - (2 ^ 63) \<le> i \<and> i < 2 ^ 63 then Some i else None))"

definition typed_keys :: "string list" where
  "typed_keys = [''stringValue'', ''numberValue'', ''boolValue'', ''timestampValue'', ''bytesValue'', ''jsonValue'']"

definition isTypedValueMap :: "goobj \<Rightarrow> bool" where
  "isTypedValueMap m = list_ex (\<lambda>(k, _). k \<in> set typed_keys) m"

text \<open>\<open>RFC3339Nano\<close> first, then \<open>RFC3339\<close>.\<close>

definition parse_timestamp :: "runtime \<Rightarrow> string \<Rightarrow> gotime option" where
  "parse_timestamp rt s =
     (case rt_parse_time rt RFC3339Nano s of Some t \<Rightarrow> Some t | None \<Rightarrow> rt_parse_time rt RFC3339 s)"

definition decodeTypedValueMap :: "runtime \<Rightarrow> goobj \<Rightarrow> cell_value option" where
  "decodeTypedValueMap rt m =
     Some \<lparr>sv_String = (case obj_get m ''stringValue'' of VStr s \<Rightarrow> Some s | _ \<Rightarrow> None),
           sv_Number = (case obj_get m ''numberValue'' of VFloat f \<Rightarrow> Some f | _ \<Rightarrow> None),
           sv_Bool = (case obj_get m ''boolValue'' of VBool b \<Rightarrow> Some b | _ \<Rightarrow> None),
           sv_Timestamp = (case obj_get m ''timestampValue'' of VStr s \<Rightarrow> parse_timestamp rt s | _ \<Rightarrow> None),
           sv_Bytes = None,
           sv_Json = obj_get m ''jsonValue''\<rparr>"

definition NativeToValue :: "runtime \<Rightarrow> goany \<Rightarrow> cell_value option" where
  "NativeToValue rt raw =
     (case raw of
        VNil \<Rightarrow> None
      | VStr t \<Rightarrow> (case parse_timestamp rt t of Some ts \<Rightarrow> TimestampValue rt ts | None \<Rightarrow> StringValue t)
      | VFloat f \<Rightarrow> NumberValue f
      | VBool b \<Rightarrow> BoolValue b
      | VNum t \<Rightarrow>
          (case ParseInt64 t of
             Some i \<Rightarrow> NumberValue (f64_of_int i)
           | None \<Rightarrow> (case rt_parse_float rt t of Some f \<Rightarrow> NumberValue f | None \<Rightarrow> None))
      | VObj m \<Rightarrow> if isTypedValueMap m then decodeTypedValueMap rt m else JsonValue (VObj m)
      | VArr xs \<Rightarrow> JsonValue (VArr xs)
      | v \<Rightarrow> StringValue (sprint rt v))"

definition UnmarshalCellRaw :: "runtime \<Rightarrow> (string \<Rightarrow> string + goany) \<Rightarrow> string \<Rightarrow> string + cell_value option" where
  "UnmarshalCellRaw rt unmarshal raw =
     (if raw = [] \<or> raw = ''null'' then Inr None
      else (case unmarshal raw of Inl e \<Rightarrow> Inl e | Inr v \<Rightarrow> Inr (NativeToValue rt v)))"

text \<open>The cells of a flat row object; \<open>null\<close> cells are dropped.\<close>

fun ParseFlatRowFields ::
    "runtime \<Rightarrow> (string \<Rightarrow> string + goany) \<Rightarrow> string set \<Rightarrow> (string \<times> string) list \<Rightarrow> string + (string \<times> cell_value option) list" where
  "ParseFlatRowFields rt unmarshal skip [] = Inr []"
| "ParseFlatRowFields rt unmarshal skip ((k, raw) # m) =
     (if k \<in> skip then ParseFlatRowFields rt unmarshal skip m
      else (case UnmarshalCellRaw rt unmarshal raw of
          Inl e \<Rightarrow> Inl (''field '' @ k @ '': '' @ e)
        | Inr v \<Rightarrow>
            (case ParseFlatRowFields rt unmarshal skip m of
               Inl e \<Rightarrow> Inl e
             | Inr cells \<Rightarrow> Inr (if v = None then cells else (k, v) # cells))))"

section \<open>Cells by column name\<close>

type_synonym cells = "(string \<times> cell_value option) list"

definition NormalizeInputCells :: "cells \<Rightarrow> cells" where
  "NormalizeInputCells cs = filter (\<lambda>(k, _). k \<noteq> []) cs"

text \<open>The rounding of number cells.\<close>

definition NormalizeNumberValue :: "runtime \<Rightarrow> cell_value option \<Rightarrow> nspec \<Rightarrow> gopanic + cell_value option" where
  "NormalizeNumberValue rt v spec =
     (case v of
        None \<Rightarrow> Inr None
      | Some c \<Rightarrow>
          (case sv_Number c of
             None \<Rightarrow> Inr v
           | Some f \<Rightarrow>
               if \<not> FinancialMode spec then Inr v
               else (case NormalizeAny rt (VFloat f) spec of
                   Inl p \<Rightarrow> Inl p
                 | Inr None \<Rightarrow> Inr v
                 | Inr (Some n) \<Rightarrow> Inr (NumberValue n))))"

section \<open>From the database\<close>

record uuid_lib =
  ul_parse :: "string \<Rightarrow> string option" \<comment> \<open>\<open>uuid.Parse\<close>, the result as text\<close>
  ul_bytes :: "string \<Rightarrow> string" \<comment> \<open>16 bytes as text\<close>

text \<open>\<open>strings.LastIndex(s, ".")\<close>, as the text after it.\<close>

definition after_last_dot :: "string \<Rightarrow> string option" where
  "after_last_dot s = (if CHR ''.'' \<in> set s then Some (last (split_char CHR ''.'' s)) else None)"

definition isUUIDPgType :: "string \<Rightarrow> bool" where
  "isUUIDPgType pgType =
     (let p = to_lower (trim_space pgType) in
      p = ''uuid'' \<or> (case after_last_dot p of Some t \<Rightarrow> to_lower t = ''uuid'' | None \<Rightarrow> False))"

definition isByteaPgType :: "string \<Rightarrow> bool" where
  "isByteaPgType pgType = (to_lower (trim_space pgType) = ''bytea'')"

definition FormatUUID :: "uuid_lib \<Rightarrow> goany \<Rightarrow> string option" where
  "FormatUUID ul v =
     (case v of
        VStr t \<Rightarrow> if t = [] then None else (case ul_parse ul t of Some u \<Rightarrow> Some u | None \<Rightarrow> Some t)
      | VBytes b \<Rightarrow> if length b = 16 then Some (ul_bytes ul b) else None
      | _ \<Rightarrow> None)"

text \<open>\<open>base64.StdEncoding\<close>.\<close>

definition b64_alphabet :: string where
  "b64_alphabet = ''ABCDEFGHIJKLMNOPQRSTUVWXYZabcdefghijklmnopqrstuvwxyz0123456789+/''"

definition b64 :: "nat \<Rightarrow> char" where
  "b64 n = b64_alphabet ! (n mod 64)"

fun base64 :: "string \<Rightarrow> string" where
  "base64 [] = []"
| "base64 [a] = (let n = of_char a * 16 in [b64 (n div 64), b64 n, CHR ''='', CHR ''=''])"
| "base64 [a, b] = (let n = (of_char a * 256 + of_char b) * 4 in [b64 (n div 4096), b64 (n div 64), b64 n, CHR ''=''])"
| "base64 (a # b # c # s) =
     (let n = (of_char a * 256 + of_char b) * 256 + of_char c
      in b64 (n div 262144) # b64 (n div 4096) # b64 (n div 64) # b64 n # base64 s)"

definition PGValueToNative :: "runtime \<Rightarrow> uuid_lib \<Rightarrow> goany \<Rightarrow> string \<Rightarrow> goany" where
  "PGValueToNative rt ul v pgType =
     (case (if v \<noteq> VNil \<and> isUUIDPgType pgType then FormatUUID ul v else None) of
        Some s \<Rightarrow> VStr s
      | None \<Rightarrow>
          (case v of
             VNil \<Rightarrow> VNil
           | VStr s \<Rightarrow> VStr s
           | VBytes b \<Rightarrow>
               if isByteaPgType pgType then VStr (base64 b)
               else (case (if length b = 16 then FormatUUID ul v else None) of Some s \<Rightarrow> VStr s | None \<Rightarrow> VStr (base64 b))
           | VBool b \<Rightarrow> VBool b
           | VTime t \<Rightarrow> VStr (rt_format_time rt RFC3339Nano t)
           | VInt i \<Rightarrow> VFloat (f64_of_int i)
           | VFloat f \<Rightarrow> VFloat f
           | VFloat32 f \<Rightarrow> VFloat f
           | VStrs ss \<Rightarrow> VArr (map VStr ss)
           | VArr xs \<Rightarrow> VArr xs
           | _ \<Rightarrow> VStr (sprint rt v)))"

definition DBCellValue :: "runtime \<Rightarrow> uuid_lib \<Rightarrow> goany \<Rightarrow> string \<Rightarrow> cell_value option" where
  "DBCellValue rt ul v pgType = NativeToValue rt (PGValueToNative rt ul v pgType)"

section \<open>Round trips\<close>

lemmas value_defs = StringValue_def NumberValue_def BoolValue_def TimestampValue_def JsonValue_def no_value_def

lemma isTypedValueMap_iff: "isTypedValueMap m \<longleftrightarrow> (\<exists>k \<in> set typed_keys. map_has k m)"
  by (force simp: isTypedValueMap_def list_ex_iff map_has_iff)

text \<open>A JSON value that is neither a timestamp text nor an object in the typed form.\<close>

fun plain_cell :: "runtime \<Rightarrow> goany \<Rightarrow> bool" where
  "plain_cell rt (VStr s) = (parse_timestamp rt s = None)"
| "plain_cell rt (VFloat f) = True"
| "plain_cell rt (VBool b) = True"
| "plain_cell rt (VArr xs) = True"
| "plain_cell rt (VObj m) = (\<not> isTypedValueMap m)"
| "plain_cell rt _ = False"

lemma NativeToValue_plain:
  assumes "plain_cell rt v"
  shows "ValueToNative rt (NativeToValue rt v) = v \<and> ValueToAnyForColumn (NativeToValue rt v) [] = v"
  using assms by (cases v) (auto simp: NativeToValue_def ValueToNative_def ValueToAnyForColumn_def valueToAnyRaw_def value_defs)

text \<open>What the API reads back of a stored JSON object is its Go rendering, a text.\<close>

lemma DBCellValue_object:
  "DBCellValue rt ul (VObj m) pgType = NativeToValue rt (VStr (sprint rt (VObj m)))"
  by (simp add: DBCellValue_def PGValueToNative_def FormatUUID_def)

end
