(* ===== verification/Row_Cells.thy ===== *)
theory Row_Cells
  imports Meta_Read Cell_Value
begin

text \<open>
  Between the cells of a request and the stored document of a record
  (\<open>internal/service/data\<close>: \<open>record_cells.go\<close>, \<open>vr_fulltext.go\<close>, and the conversions of
  \<open>vr_rows.go\<close>). Maps are association lists in the order Go iterates over them.
\<close>

section \<open>Cells to documents\<close>

type_synonym link_cells = "(string \<times> string list) list"

definition asStringSlice :: "runtime \<Rightarrow> goany \<Rightarrow> string list" where
  "asStringSlice rt v =
     (case v of
        VStr t \<Rightarrow> if t = [] then [] else [t]
      | VArr xs \<Rightarrow> map (sprint rt) xs
      | VStrs ss \<Rightarrow> ss
      | VNil \<Rightarrow> []
      | _ \<Rightarrow> let s = sprint rt v in if s = [] \<or> s = ''<nil>'' then [] else [s])"

definition cellToIDs :: "runtime \<Rightarrow> cell_value option \<Rightarrow> string list" where
  "cellToIDs rt v =
     (case v of
        None \<Rightarrow> []
      | Some c \<Rightarrow>
          (case sv_String c of
             Some s \<Rightarrow> if s = [] then [] else [s]
           | None \<Rightarrow> asStringSlice rt (ValueToNative rt v)))"

text \<open>The keys, by name or id, of the link columns and of the calculated columns.\<close>

definition link_col :: "full_column_meta \<Rightarrow> bool" where
  "link_col c = (calc_IsLinkType (fc_TypeId c) \<or> calc_IsLinkType (fc_Kind c))"

definition calc_col :: "full_column_meta \<Rightarrow> bool" where
  "calc_col c = (IsCalcType (fc_TypeId c) \<or> IsCalcType (fc_Kind c))"

definition col_keys :: "(full_column_meta \<Rightarrow> bool) \<Rightarrow> full_column_meta list \<Rightarrow> string set" where
  "col_keys P cols = set (map fc_Name (filter P cols) @ map fc_Id (filter P cols))"

definition fulltext_key :: string where "fulltext_key = ''_fulltext_text''"

definition spec_of :: "(string \<times> nspec) list \<Rightarrow> string \<Rightarrow> nspec" where
  "spec_of numSpecs k = (case map_of numSpecs k of None \<Rightarrow> zero_spec | Some s \<Rightarrow> s)"

fun splitLinkCells ::
    "runtime \<Rightarrow> cells \<Rightarrow> full_column_meta list \<Rightarrow> (string \<times> nspec) list \<Rightarrow> gopanic + goobj \<times> link_cells" where
  "splitLinkCells rt [] cols numSpecs = Inr ([], [])"
| "splitLinkCells rt ((k, v) # cells) cols numSpecs =
     (case splitLinkCells rt cells cols numSpecs of
        Inl p \<Rightarrow> Inl p
      | Inr (data, lks) \<Rightarrow>
          if k \<in> col_keys link_col cols then Inr (data, (k, cellToIDs rt v) # lks)
          else if k \<in> col_keys calc_col cols then Inr (data, lks)
          else if k = fulltext_key then Inr (data, lks)
          else (case NormalizeNumberValue rt v (spec_of numSpecs k) of
              Inl p \<Rightarrow> Inl p
            | Inr v' \<Rightarrow> Inr ((k, ValueToAnyForColumn v' []) # data, lks)))"

text \<open>The specification of each number column, looked up in the catalogue.\<close>

fun numericSpecsByColumn ::
    "service_env \<Rightarrow> request_ctx \<Rightarrow> full_column_meta list \<Rightarrow> (string \<times> nspec) list \<Rightarrow> (string \<times> nspec) list db_op" where
  "numericSpecsByColumn sv rq [] out = ret out"
| "numericSpecsByColumn sv rq (c # cols) out =
     (if map_has (fc_Name c) out then numericSpecsByColumn sv rq cols out
      else dbind (NumericSpecForType sv rq (fc_TypeId c)) (\<lambda>s.
        numericSpecsByColumn sv rq cols (case s of None \<Rightarrow> out | Some spec \<Rightarrow> map_put (fc_Name c) spec out)))"

definition cell_native :: "runtime \<Rightarrow> service_env \<Rightarrow> request_ctx \<Rightarrow> phys_column list \<Rightarrow> string \<times> cell_value option \<Rightarrow> (string \<times> goany) db_op" where
  "cell_native rt sv rq cols = (\<lambda>(k, v).
     dbind (case find (\<lambda>c. pc_Name c = k) (rev cols) of
              None \<Rightarrow> ret None
            | Some col \<Rightarrow> NumericSpecForType sv rq (pc_TypeId col)) (\<lambda>spec.
       case (case spec of None \<Rightarrow> Inr v | Some s \<Rightarrow> NormalizeNumberValue rt v s) of
         Inl p \<Rightarrow> fail (CalcPanic p)
       | Inr v' \<Rightarrow> ret (k, ValueToAnyForColumn v' [])))"

definition cellsToNativeMap :: "runtime \<Rightarrow> service_env \<Rightarrow> request_ctx \<Rightarrow> cells \<Rightarrow> phys_column list \<Rightarrow> goobj db_op" where
  "cellsToNativeMap rt sv rq cells cols = dmap (cell_native rt sv rq cols) (NormalizeInputCells cells)"

section \<open>The full text of a record\<close>

definition configBool :: "goobj \<Rightarrow> string \<Rightarrow> bool" where
  "configBool cfg key =
     (case obj_get cfg key of VBool b \<Rightarrow> b | VStr t \<Rightarrow> equal_fold t ''true'' \<or> t = ''1'' | _ \<Rightarrow> False)"

fun fulltext_parts :: "runtime \<Rightarrow> goobj \<Rightarrow> string set \<Rightarrow> full_column_meta list \<Rightarrow> string list" where
  "fulltext_parts rt native seen [] = []"
| "fulltext_parts rt native seen (c # cols) =
     (let v = obj_get native (fc_Name c); s = sprint rt v in
      if \<not> configBool (fc_Config c) ''enable_fulltext'' \<or> v = VNil \<or> s = [] \<or> s \<in> seen
      then fulltext_parts rt native seen cols
      else s # fulltext_parts rt native (insert s seen) cols)"

definition apply_fulltext :: "runtime \<Rightarrow> full_column_meta list \<Rightarrow> goobj \<Rightarrow> goobj" where
  "apply_fulltext rt cols native =
     (let parts = fulltext_parts rt native {} cols in
      if parts = [] then map_del fulltext_key native
      else map_put fulltext_key (VStr (join '' '' parts)) native)"

definition applyFulltextOnWrite :: "runtime \<Rightarrow> service_env \<Rightarrow> request_ctx \<Rightarrow> string \<Rightarrow> goobj \<Rightarrow> goobj db_op" where
  "applyFulltextOnWrite rt sv rq tableName native =
     dbind (attempt (LoadAllColumnMeta rt sv rq tableName)) (\<lambda>r.
       ret (case r of Inl _ \<Rightarrow> native | Inr cols \<Rightarrow> apply_fulltext rt cols native))"

section \<open>Documents to cells\<close>

definition linkCellValue :: "runtime \<Rightarrow> full_column_meta \<Rightarrow> string list \<Rightarrow> cell_value option" where
  "linkCellValue rt c ids =
     (if linkCardinality rt c = ''one'' then (case ids of [] \<Rightarrow> None | i # _ \<Rightarrow> StringValue i)
      else JsonValue (VStrs ids))"

fun dedup_ids :: "string set \<Rightarrow> string list \<Rightarrow> string list" where
  "dedup_ids seen [] = []"
| "dedup_ids seen (i # ids) = (if i = [] \<or> i \<in> seen then dedup_ids seen ids else i # dedup_ids (insert i seen) ids)"

definition mergeLinkIDs :: "string list \<Rightarrow> string list \<Rightarrow> string list" where
  "mergeLinkIDs a b = (if b = [] then a else if a = [] then b else dedup_ids {} (a @ b))"

definition ids_at :: "link_cells \<Rightarrow> string \<Rightarrow> string list" where
  "ids_at lks k = (case map_of lks k of None \<Rightarrow> [] | Some ids \<Rightarrow> ids)"

text \<open>One column of \<open>hydrateCells\<close>.\<close>

definition hydrate_cell ::
    "runtime \<Rightarrow> codec \<Rightarrow> uuid_lib \<Rightarrow> goobj \<Rightarrow> link_cells \<Rightarrow> full_column_meta \<Rightarrow> cells \<Rightarrow> cells" where
  "hydrate_cell rt cd ul native lks c out =
     (if fc_Name c = ''id'' then out
      else if link_col c then
        (case linkCellValue rt c (mergeLinkIDs (ids_at lks (fc_Name c)) (ids_at lks (fc_Id c))) of
           None \<Rightarrow> out
         | Some v \<Rightarrow> map_put (fc_Name c) (Some v) out)
      else if calc_col c then
        (let raw0 = obj_get native (fc_Name c);
             raw = (if raw0 = VNil then obj_get native (''_rollup_'' @ fc_Name c) else raw0)
         in case DBCellValue rt ul (UnwrapCache cd raw) (fc_PgType c) of
              None \<Rightarrow> out
            | Some v \<Rightarrow> map_put (fc_Name c) (Some v) out)
      else (case map_of native (fc_Name c) of
              None \<Rightarrow> out
            | Some v \<Rightarrow> map_put (fc_Name c) (DBCellValue rt ul (UnwrapCache cd v) (fc_PgType c)) out))"

definition hydrateCells ::
    "runtime \<Rightarrow> codec \<Rightarrow> uuid_lib \<Rightarrow> goobj \<Rightarrow> full_column_meta list \<Rightarrow> link_cells \<Rightarrow> cells" where
  "hydrateCells rt cd ul native cols lks = foldl (\<lambda>out c. hydrate_cell rt cd ul native lks c out) [] cols"

definition changedKeys :: "goobj \<Rightarrow> string list" where
  "changedKeys m = map fst m"

end
