(* ===== verification/Calc_Results.thy ===== *)
theory Calc_Results
  imports Calc_Engine Formula_Laws
begin

text \<open>
  What a calculation leaves behind: formula values that agree with each other, caches that
  replace nothing but calculated fields, tasks that are never lost, and a store that stays well
  formed under every handler and every fault.
\<close>

section \<open>Formulas\<close>

text \<open>The parser finds no reference that the scan for \<open>{{...}}\<close> does not find.\<close>

definition refs_agree :: "runtime \<Rightarrow> string \<Rightarrow> bool" where
  "refs_agree rt expr \<longleftrightarrow>
     (case Parse rt expr of Inr (Some n) \<Rightarrow> list_all (\<lambda>x. x \<in> set (Refs expr)) (walkRefs n) | _ \<Rightarrow> True)"

lemma EvalExpr_cong:
  assumes "refs_agree rt expr" "\<forall>x \<in> set (Refs expr). obj_get env x = obj_get env' x"
  shows "EvalExpr rt expr env = EvalExpr rt expr env'"
  using assms
  by (auto simp: EvalExpr_def refs_agree_def list_all_iff split: sum.splits option.splits intro!: Eval_cong)

text \<open>A formula's cell holds its value in the environment \<open>env\<close>.\<close>

definition cell_right :: "runtime \<Rightarrow> goobj \<Rightarrow> goobj \<Rightarrow> fdef \<Rightarrow> bool" where
  "cell_right rt env out d \<longleftrightarrow>
     (case EvalExpr rt (Expr d) env of
        Inr v \<Rightarrow> map_of out (Name d) = Some (WrapCache v CacheValid) \<and> obj_get env (Name d) = v
      | Inl _ \<Rightarrow> map_of out (Name d) = Some (WrapCache VNil CacheError))"

lemma cell_right_cong: "map_of out (Name d) = map_of out' (Name d) \<Longrightarrow> cell_right rt env out d = cell_right rt env out' d"
  by (simp add: cell_right_def split: sum.split)

definition no_forward :: "fdef list \<Rightarrow> bool" where
  "no_forward ds \<longleftrightarrow> (\<forall>pre d post. ds = pre @ d # post \<longrightarrow> (\<forall>x \<in> set (Refs (Expr d)). x \<notin> names (d # post)))"

lemma no_forward_Cons:
  assumes "no_forward (d # ds)"
  shows "no_forward ds" and "\<forall>x \<in> set (Refs (Expr d)). x \<notin> names (d # ds)"
proof -
  show "no_forward ds" unfolding no_forward_def
  proof (intro allI impI)
    fix pre e post assume "ds = pre @ e # post"
    then have "d # ds = (d # pre) @ e # post" by simp
    with assms show "\<forall>x \<in> set (Refs (Expr e)). x \<notin> names (e # post)" unfolding no_forward_def by blast
  qed
  have "d # ds = [] @ d # ds" by simp
  with assms show "\<forall>x \<in> set (Refs (Expr d)). x \<notin> names (d # ds)" unfolding no_forward_def by blast
qed

lemma deps_first_no_forward:
  assumes "deps_first ds" "distinct (map Name ds)"
  shows "no_forward ds"
  unfolding no_forward_def
proof (intro allI impI ballI)
  fix pre d post x assume ds: "ds = pre @ d # post" and x: "x \<in> set (Refs (Expr d))"
  show "x \<notin> names (d # post)"
  proof
    assume later: "x \<in> names (d # post)"
    then have "x \<in> names ds" using ds by (auto simp: names_def)
    with assms(1) ds x have "x \<in> names pre" unfolding deps_first_def by blast
    moreover have "set (map Name pre) \<inter> set (map Name (d # post)) = {}"
      using assms(2) unfolding ds map_append distinct_append by blast
    ultimately show False using later unfolding names_def set_map by blast
  qed
qed

lemma formula_loop_spec:
  assumes "formula_loop rt ds env data out = Inr (out', data')" "distinct (map Name ds)" "no_forward ds"
    and "\<forall>d \<in> set ds. refs_agree rt (Expr d)"
  shows "\<exists>env'. (\<forall>k. k \<notin> names ds \<longrightarrow> obj_get env' k = obj_get env k) \<and> (\<forall>d \<in> set ds. cell_right rt env' out' d) \<and>
    (\<forall>k. k \<notin> names ds \<longrightarrow> map_of out' k = map_of out k \<and> obj_get data' k = obj_get data k)"
  using assms
proof (induction ds arbitrary: env data out)
  case Nil
  then show ?case by auto
next
  case (Cons d ds)
  note nf = no_forward_Cons [OF Cons.prems(3)]
  have dn: "Name d \<notin> names ds" "distinct (map Name ds)" using Cons.prems(2) by (auto simp: names_def)
  define env1 where "env1 = (case EvalExpr rt (Expr d) env of Inr v \<Rightarrow> map_put (Name d) v env | Inl _ \<Rightarrow> env)"
  define data1 where "data1 = (case EvalExpr rt (Expr d) env of Inr v \<Rightarrow> map_put (Name d) (WrapCache v CacheValid) data | Inl _ \<Rightarrow> data)"
  define cell where "cell = (case EvalExpr rt (Expr d) env of Inr v \<Rightarrow> WrapCache v CacheValid | Inl _ \<Rightarrow> WrapCache VNil CacheError)"
  have step: "formula_loop rt ds env1 data1 (map_put (Name d) cell out) = Inr (out', data')"
    using Cons.prems(1) by (auto simp: env1_def data1_def cell_def split: sum.splits everr.splits)
  from Cons.IH [OF step dn(2) nf(1)] Cons.prems(4) obtain env' where
    e: "\<forall>k. k \<notin> names ds \<longrightarrow> obj_get env' k = obj_get env1 k" and r: "\<forall>d \<in> set ds. cell_right rt env' out' d"
    and o: "\<forall>k. k \<notin> names ds \<longrightarrow> map_of out' k = map_of (map_put (Name d) cell out) k \<and> obj_get data' k = obj_get data1 k"
    by auto
  have env1: "obj_get env1 k = obj_get env k" if "k \<noteq> Name d" for k
    using that by (auto simp: env1_def split: sum.splits)
  have data1: "obj_get data1 k = obj_get data k" if "k \<noteq> Name d" for k
    using that by (auto simp: data1_def split: sum.splits)
  have "EvalExpr rt (Expr d) env' = EvalExpr rt (Expr d) env"
    using nf(2) e env1 Cons.prems(4) by (intro EvalExpr_cong) (auto simp: names_def)
  moreover have "map_of out' (Name d) = Some cell" "obj_get env' (Name d) = obj_get env1 (Name d)" using o e dn(1) by auto
  ultimately have "cell_right rt env' out' d"
    by (auto simp: cell_right_def cell_def env1_def split: sum.splits)
  moreover have "\<forall>k. k \<notin> names (d # ds) \<longrightarrow> obj_get env' k = obj_get env k \<and> map_of out' k = map_of out k \<and> obj_get data' k = obj_get data k"
    using e o env1 data1 by (auto simp: names_def)
  ultimately show ?case using r by (intro exI [of _ env']) auto
qed

section \<open>Cells of lookups and rollups\<close>

lemma cell_loop_spec:
  "cell_loop f xs out db = (Inr out', db') \<Longrightarrow> k \<notin> f_Name ` set xs \<Longrightarrow> map_of out' k = map_of out k"
proof (induction xs arbitrary: out db)
  case (Cons x xs)
  obtain res db1 where f: "f x db = (res, db1)" by fastforce
  with Cons.prems(1) obtain c where "cell_loop f xs (map_put (f_Name x) c out) db1 = (Inr out', db')"
    by (auto split: sum.splits cerr.splits)
  from Cons.IH [OF this] Cons.prems(2) show ?case by auto
qed auto

lemma ComputeFields_Inr:
  assumes "ComputeFields rt cd ords r fs vts only db = (Inr (out, r'), db')"
  obtains ordered out0 data out1 db1 where
    "Sort (ords (formula_defs rt only fs)) (formula_defs rt only fs) = Inr ordered"
    "formula_loop rt ordered (withUnwrapped cd (rc_Data r)) (rc_Data r) [] = Inr (out0, data)" "r' = r\<lparr>rc_Data := data\<rparr>"
    "cell_loop (\<lambda>f. computeLookup rt cd r' f vts) (fields_of_type ''lookup'' only fs) out0 db = (Inr out1, db1)"
    "cell_loop (\<lambda>f. computeRollup rt cd r' f vts) (fields_of_type ''rollup'' only fs) out1 db1 = (Inr out, db')"
  using assms unfolding ComputeFields_def Let_def
  by (auto split: sum.splits prod.splits elim!: dbind_Inr)

lemma fields_of_type_disjoint:
  assumes "distinct (map f_Name fs)" "a \<noteq> b" "n \<in> f_Name ` set (fields_of_type a only fs)"
  shows "n \<notin> f_Name ` set (fields_of_type b only fs)"
proof
  assume "n \<in> f_Name ` set (fields_of_type b only fs)"
  with assms(3) obtain f g where fg: "f \<in> set fs" "to_lower (f_TypeID f) = a" "g \<in> set fs" "to_lower (f_TypeID g) = b"
      "f_Name f = f_Name g"
    unfolding fields_of_type_def by auto
  from assms(1) fg(1,3,5) have "f = g" unfolding distinct_map by (blast dest: inj_onD)
  with fg assms(2) show False by simp
qed

lemma formula_defs_names:
  "names (formula_defs rt only fs) \<subseteq> f_Name ` set (fields_of_type ''formula'' only fs)"
  by (auto simp: formula_defs_def names_def)

lemma formula_defs_distinct: "distinct (map f_Name fs) \<Longrightarrow> distinct (map Name (formula_defs rt only fs))"
  by (simp add: formula_defs_def fields_of_type_def comp_def distinct_map_filter)

lemma Sort_Inr_facts:
  assumes "Sort ord defs = Inr ordered" "distinct (map Name defs)" "enumerates ord defs"
  shows "set ordered = set defs" "names ordered = names defs" "distinct (map Name ordered)" "no_forward ordered"
proof -
  have m: "mset ordered = mset defs" "deps_first ordered" using Sort_outcome [OF assms(2,3)] assms(1) by auto
  from m(1) show s: "set ordered = set defs" by (metis set_mset_mset)
  then show "names ordered = names defs" by (simp add: names_def)
  have "mset (map Name ordered) = mset (map Name defs)" using m(1) by simp
  then show d: "distinct (map Name ordered)" using assms(2) by (metis mset_eq_imp_distinct_iff)
  show "no_forward ordered" by (rule deps_first_no_forward [OF m(2) d])
qed

section \<open>Properties\<close>


text \<open>A record with one formula column, for examples.\<close>

definition sum_field :: field where
  "sum_field = \<lparr>f_ID = ''c1'', f_Name = ''f'', f_TypeID = ''formula'', f_Config = [(''expression'', VStr ''1+2'')]\<rparr>"

definition example_rec :: rec where
  "example_rec = \<lparr>rc_ID = ''x'', rc_VTID = ''v'', rc_WSID = ''a'', rc_Data = [(''n'', VStr ''text'')], rc_Version = 1\<rparr>"


section \<open>Only calculated fields change\<close>

text \<open>The store without the schedule.\<close>

definition core :: "calc_db \<Rightarrow> calc_db" where
  "core db = db\<lparr>faults := [], aborted := False\<rparr>"

interpretation reads: db_frame "\<lambda>db. core db = D" for D
  by unfold_locales (simp_all add: core_def)

lemma core_kept: "(\<And>D. keeps (\<lambda>db. core db = D) m) \<Longrightarrow> m db = (res, db') \<Longrightarrow> core db' = core db"
  using keepsD by blast

lemma core_eqD: "core db' = core db \<Longrightarrow> queue db' = queue db \<and> dead db' = dead db \<and> links db' = links db \<and> recs db' = recs db \<and> clock db' = clock db"
  unfolding core_def by (cases db; cases db') simp

lemma ReadRecord_Inr:
  assumes "ReadRecord t vt rid db = (Inr r, db')"
  shows "\<exists>row \<in> set (recs db). r_vt row = vt \<and> r_tenant row = t \<and> r_record row = rid \<and> r = scan_rec row"
proof -
  from assms obtain row where "find (\<lambda>r. r_vt r = vt \<and> r_tenant r = t \<and> r_record r = rid) (recs db) = Some row" "r = scan_rec row"
    by (auto simp: ReadRecord_def elim!: dbind_Inr dest!: dquery_Inr split: option.splits)
  then show ?thesis by (metis (mono_tags, lifting) find_Some_iff nth_mem)
qed

definition rec_wf :: "calc_db \<Rightarrow> bool" where
  "rec_wf db \<longleftrightarrow> distinct (map (\<lambda>r. (r_vt r, r_record r)) (recs db)) \<and> (\<forall>r \<in> set (recs db). 1 \<le> r_version r)"

text \<open>JSON values survive being stored.\<close>

fun json_plain :: "goany \<Rightarrow> bool" where
  "json_plain VNil = True"
| "json_plain (VBool _) = True"
| "json_plain (VStr _) = True"
| "json_plain (VFloat f) = (case f of Fin _ \<Rightarrow> True | _ \<Rightarrow> False)"
| "json_plain (VArr vs) = (\<forall>v \<in> set vs. json_plain v)"
| "json_plain (VObj m) = (\<forall>p \<in> set m. json_plain (snd p))"
| "json_plain _ = False"

definition codec_keeps :: "codec \<Rightarrow> bool" where
  "codec_keeps cd \<longleftrightarrow>
     (\<forall>m m' k. json_store cd m = Inr m' \<longrightarrow> json_plain (obj_get m k) \<longrightarrow> obj_get m' k = obj_get m k)"

definition calc_types :: "string set" where
  "calc_types = {''formula'', ''lookup'', ''rollup''}"

lemma calc_types_mem: "''formula'' \<in> calc_types" "''lookup'' \<in> calc_types" "''rollup'' \<in> calc_types"
  by (simp_all add: calc_types_def)

definition calc_names :: "meta_db \<Rightarrow> task \<Rightarrow> string set" where
  "calc_names md t =
     {mc_name c |c. c \<in> set (lc_columns md) \<and> mc_tenant c = t_TenantID t \<and>
        to_lower (mc_type c) \<in> calc_types}"

text \<open>A record row after a calculation of \<open>t\<close>.\<close>

definition recalculated :: "meta_db \<Rightarrow> task \<Rightarrow> rec_row \<Rightarrow> rec_row \<Rightarrow> bool" where
  "recalculated md t r r' \<longleftrightarrow>
     r' = r \<or>
     (r_tenant r = t_TenantID t \<and> r_record r = t_RecordID t \<and> r_vt r' = r_vt r \<and> r_tenant r' = r_tenant r \<and>
      r_record r' = r_record r \<and> r_version r' = r_version r + 1 \<and>
      (\<forall>k. k \<notin> calc_names md t \<longrightarrow> obj_get (r_data r') k = obj_get (r_data r) k))"

lemma cell_loop_keys: "cell_loop f xs out db = (Inr out', db') \<Longrightarrow> fst ` set out' \<subseteq> fst ` set out \<union> f_Name ` set xs"
proof (induction xs arbitrary: out db)
  case (Cons x xs)
  obtain res db1 where f: "f x db = (res, db1)" by fastforce
  with Cons.prems obtain c where "cell_loop f xs (map_put (f_Name x) c out) db1 = (Inr out', db')"
    by (auto split: sum.splits cerr.splits)
  from Cons.IH [OF this] show ?case by auto
qed auto

lemma formula_loop_keys:
  "formula_loop rt ds env data out = Inr (out', data') \<Longrightarrow>
     fst ` set out' \<subseteq> fst ` set out \<union> names ds \<and> (\<forall>k. k \<notin> names ds \<longrightarrow> obj_get data' k = obj_get data k)"
proof (induction ds arbitrary: env data out)
  case (Cons d ds)
  from Cons.prems obtain env1 data1 c where "formula_loop rt ds env1 data1 (map_put (Name d) c out) = Inr (out', data')"
    "\<forall>k. k \<noteq> Name d \<longrightarrow> obj_get data1 k = obj_get data k"
    by (auto split: sum.splits everr.splits)
  from Cons.IH [OF this(1)] this(2) show ?case by (auto simp: names_def)
qed auto

lemma map_merge_other: "k \<notin> fst ` set src \<Longrightarrow> obj_get (map_merge dst src) k = obj_get dst k"
proof (induction src arbitrary: dst)
  case (Cons p src)
  then have "obj_get (map_merge (map_put (fst p) (snd p) dst) src) k = obj_get (map_put (fst p) (snd p) dst) k" by simp
  with Cons.prems show ?case by (cases p) (simp add: map_merge_def)
qed (simp add: map_merge_def)

lemma ComputeFields_keys:
  assumes "ComputeFields rt cd ords r fs vts only db = (Inr (out, r'), db')"
    and "enumerates (ords (formula_defs rt only fs)) (formula_defs rt only fs)" "distinct (map f_Name fs)"
    and "k \<notin> f_Name ` {f \<in> set fs. to_lower (f_TypeID f) \<in> calc_types}"
  shows "k \<notin> fst ` set out" "obj_get (rc_Data r') k = obj_get (rc_Data r) k"
proof -
  let ?defs = "formula_defs rt only fs"
  obtain ordered out0 data out1 db1 where s: "Sort (ords ?defs) ?defs = Inr ordered"
    and f: "formula_loop rt ordered (withUnwrapped cd (rc_Data r)) (rc_Data r) [] = Inr (out0, data)"
    and r': "r' = r\<lparr>rc_Data := data\<rparr>"
    and l: "cell_loop (\<lambda>f. computeLookup rt cd r' f vts) (fields_of_type ''lookup'' only fs) out0 db = (Inr out1, db1)"
    and u: "cell_loop (\<lambda>f. computeRollup rt cd r' f vts) (fields_of_type ''rollup'' only fs) out1 db1 = (Inr out, db')"
    by (rule ComputeFields_Inr [OF assms(1)])
  note so = Sort_Inr_facts [OF s formula_defs_distinct [OF assms(3)] assms(2)]
  have n: "k \<notin> f_Name ` set (fields_of_type ty only fs)" if "ty \<in> calc_types" for ty
    using that assms(4) unfolding fields_of_type_def by auto
  have kd: "k \<notin> names ordered" using n [OF calc_types_mem(1)] formula_defs_names [of rt only fs] so(2) by auto
  note fk = formula_loop_keys [OF f]
  have "k \<notin> fst ` set out0" using fk kd by auto
  then have "k \<notin> fst ` set out1" using cell_loop_keys [OF l] n [OF calc_types_mem(2)] by auto
  then show "k \<notin> fst ` set out" using cell_loop_keys [OF u] n [OF calc_types_mem(3)] by auto
  show "obj_get (rc_Data r') k = obj_get (rc_Data r) k" using fk kd r' by simp
qed

lemma ComputeFields_rec:
  assumes "ComputeFields rt cd ords r fs vts only db = (Inr (out, r'), db')"
  shows "rc_ID r' = rc_ID r \<and> rc_VTID r' = rc_VTID r \<and> rc_WSID r' = rc_WSID r \<and> rc_Version r' = rc_Version r"
  by (rule ComputeFields_Inr [OF assms]) simp

lemma enrich_name_type:
  "map f_Name (enrichLookupRollupTargets rt fs) = map f_Name fs"
  "map f_TypeID (enrichLookupRollupTargets rt fs) = map f_TypeID fs"
  by (simp_all add: enrichLookupRollupTargets_def Let_def)

lemma image_update:
  assumes "\<And>f. N (g f) = N f" "\<And>f. ty (g f) = ty f"
  shows "N ` {f \<in> set (map g fs). ty f \<in> T} = N ` {f \<in> set fs. ty f \<in> T}"
proof -
  have "{f \<in> set (map g fs). ty f \<in> T} = g ` {f \<in> set fs. ty f \<in> T}" by (auto simp: assms(2))
  then show ?thesis by (simp add: image_image assms(1))
qed

lemma enrich_calc:
  "f_Name ` {f \<in> set (enrichLookupRollupTargets rt fs). to_lower (f_TypeID f) \<in> T} = f_Name ` {f \<in> set fs. to_lower (f_TypeID f) \<in> T}"
  unfolding enrichLookupRollupTargets_def Let_def by (rule image_update [where ty = "\<lambda>f. to_lower (f_TypeID f)"]) simp_all

lemma loadTableMeta_fields:
  "loadTableMeta md tenant tbl db = (Inr tm, db') \<Longrightarrow> \<exists>b n. tm_Fields tm = fields_of md tenant b n"
  unfolding loadTableMeta_def by (elim dbind_Inr) (metis dquery_Inr ret_simp sum.inject(2) prod.inject table_meta.select_convs(3))

lemma fields_of_calc:
  "f_Name ` {f \<in> set (fields_of md (t_TenantID t) b n). to_lower (f_TypeID f) \<in> calc_types} \<subseteq> calc_names md t"
  by (auto simp: fields_of_def calc_names_def)

lemma patch_recalculated:
  assumes "PatchCalcFields cd r' patched db = (Inr True, db')" "rec_wf db" "codec_keeps cd"
    and row: "row \<in> set (recs db)" "r_tenant row = t_TenantID t" "r_record row = t_RecordID t"
    and r': "rc_ID r' = r_record row" "rc_VTID r' = r_vt row" "rc_WSID r' = r_tenant row"
    and k: "\<And>k. k \<notin> calc_names md t \<Longrightarrow> k \<notin> fst ` set patched \<and> obj_get (rc_Data r') k = obj_get (r_data row) k"
    and plain: "\<forall>k. json_plain (obj_get (r_data row) k)"
  shows "list_all2 (recalculated md t) (recs db) (recs db') \<and> core (db'\<lparr>recs := recs db\<rparr>) = core db"
proof -
  from assms(1) obtain doc where doc: "json_store cd (map_merge (rc_Data r') patched) = Inr doc"
    and db': "db' = snd (st_patch (rc_VTID r') (rc_WSID r') (rc_ID r') (rc_Version r') doc (db\<lparr>faults := tl (faults db)\<rparr>))"
    by (auto simp: PatchCalcFields_def st_patch_def Let_def split: sum.splits elim!: dbind_Inr dest!: dexec_Inr)
  have keep: "obj_get doc k = obj_get (r_data row) k" if "k \<notin> calc_names md t" for k
    using k [OF that] map_merge_other [of k patched "rc_Data r'"] doc assms(3) plain unfolding codec_keeps_def by metis
  have same: "x = row" if "x \<in> set (recs db)" "r_vt x = r_vt row" "r_record x = r_record row" for x
    using that row(1) assms(2) by (auto simp: rec_wf_def distinct_map dest: inj_onD)
  have "recalculated md t x (if r_vt x = rc_VTID r' \<and> r_tenant x = rc_WSID r' \<and> r_record x = rc_ID r' \<and> r_version x = rc_Version r'
      then x\<lparr>r_data := doc, r_version := r_version x + 1\<rparr> else x)" if "x \<in> set (recs db)" for x
    using same [OF that] keep row r' by (auto simp: recalculated_def)
  then have "list_all2 (recalculated md t) (recs db) (recs db')"
    by (auto simp: db' st_patch_def Let_def list_all2_conv_all_nth)
  moreover have "core (db'\<lparr>recs := recs db\<rparr>) = core db" by (simp add: db' st_patch_def Let_def core_def)
  ultimately show ?thesis by blast
qed

lemma Process_Inr:
  assumes "Process rt cd ords md t db = (Inr (), db')"
  obtains fs vts r patched r' db1 db2 where
    "\<exists>b n. fs = fields_of md (t_TenantID t) b n" "core db1 = core db" "core db2 = core db"
    "\<exists>row \<in> set (recs db). r_tenant row = t_TenantID t \<and> r_record row = t_RecordID t \<and> r = scan_rec row"
    "ComputeFields rt cd ords r (enrichLookupRollupTargets rt fs) vts (t_TargetFieldIDs t) db1 = (Inr (patched, r'), db2)"
    "(if patched = [] then MarkCompleted (t_ID t)
       else dbind (PatchCalcFields cd r' patched) (\<lambda>ok. if \<not> ok then fail ErrVersionConflict else MarkCompleted (t_ID t))) db2 = (Inr (), db')"
proof -
  from assms obtain tm vts r p d1 d2 d3 d4 where
    1: "loadTableMeta md (t_TenantID t) (t_TableName t) db = (Inr tm, d1)" and 2: "loadVTMap md (t_TenantID t) d1 = (Inr vts, d2)"
    and 3: "ReadRecord (t_TenantID t) (tm_VTID tm) (t_RecordID t) d2 = (Inr r, d3)"
    and 4: "ComputeFields rt cd ords r (enrichLookupRollupTargets rt (tm_Fields tm)) vts (t_TargetFieldIDs t) d3 = (Inr p, d4)"
    and 5: "(case p of (patched, r') \<Rightarrow> if patched = [] then MarkCompleted (t_ID t)
       else dbind (PatchCalcFields cd r' patched) (\<lambda>ok. if \<not> ok then fail ErrVersionConflict else MarkCompleted (t_ID t))) d4 = (Inr (), db')"
    unfolding Process_def Let_def by (elim dbind_Inr)
  have c1: "core d1 = core db" by (rule core_kept [OF reads.keeps_loadTableMeta 1])
  have c2: "core d2 = core db" using core_kept [OF reads.keeps_loadVTMap 2] c1 by simp
  have c3: "core d3 = core db" using core_kept [OF reads.keeps_ReadRecord 3] c2 by simp
  have c4: "core d4 = core db" using core_kept [OF reads.keeps_ComputeFields 4] c3 by simp
  have row: "\<exists>row \<in> set (recs db). r_tenant row = t_TenantID t \<and> r_record row = t_RecordID t \<and> r = scan_rec row"
    using ReadRecord_Inr [OF 3] core_eqD [OF c2] by auto
  obtain patched r' where p: "p = (patched, r')" by (cases p)
  show ?thesis by (rule that [OF loadTableMeta_fields [OF 1] c3 c4 row 4 [unfolded p]]) (use 5 p in simp)
qed

lemma MarkCompleted_Inr:
  assumes "MarkCompleted i db = (Inr (), db')"
  shows "queue db' = filter (\<lambda>r. q_id r \<noteq> i) (queue db)" "core (db'\<lparr>queue := queue db\<rparr>) = core db"
  using assms by (auto simp: MarkCompleted_def st_delete_task_def core_def dest!: dexec_Inr)

lemma compute_patch:
  assumes "ComputeFields rt cd ords r (enrichLookupRollupTargets rt fs) vts (t_TargetFieldIDs t) d1 = (Inr (p, r'), d2)"
    and "PatchCalcFields cd r' p d2 = (Inr True, d3)" "core d2 = core db" "\<exists>b n. fs = fields_of md (t_TenantID t) b n"
    and "\<exists>row \<in> set (recs db). r_tenant row = t_TenantID t \<and> r_record row = t_RecordID t \<and> r = scan_rec row"
    and "rec_wf db" "codec_keeps cd" "\<And>defs. distinct (map Name defs) \<Longrightarrow> enumerates (ords defs) defs"
    and "\<And>b n. distinct (map f_Name (fields_of md (t_TenantID t) b n))"
    and "\<forall>r \<in> set (recs db). \<forall>k. json_plain (obj_get (r_data r) k)"
  shows "list_all2 (recalculated md t) (recs db) (recs d3) \<and> core (d3\<lparr>recs := recs d2\<rparr>) = core d2"
proof -
  let ?fs = "enrichLookupRollupTargets rt fs"
  note d2 = core_eqD [OF assms(3)]
  have dist: "distinct (map f_Name ?fs)" unfolding enrich_name_type using assms(4,9) by auto
  have en: "enumerates (ords (formula_defs rt (t_TargetFieldIDs t) ?fs)) (formula_defs rt (t_TargetFieldIDs t) ?fs)"
    by (rule assms(8) [OF formula_defs_distinct [OF dist]])
  have k: "k \<notin> f_Name ` {f \<in> set ?fs. to_lower (f_TypeID f) \<in> calc_types}" if "k \<notin> calc_names md t" for k
    unfolding enrich_calc using assms(4) fields_of_calc that by blast
  note ck = ComputeFields_keys [OF assms(1) en dist]
  obtain row where row: "row \<in> set (recs db)" "r_tenant row = t_TenantID t" "r_record row = t_RecordID t" "r = scan_rec row"
    using assms(5) by blast
  have ids: "rc_ID r' = r_record row" "rc_VTID r' = r_vt row" "rc_WSID r' = r_tenant row"
    using ComputeFields_rec [OF assms(1)] row(4) by (simp_all add: scan_rec_def)
  have "list_all2 (recalculated md t) (recs d2) (recs d3) \<and> core (d3\<lparr>recs := recs d2\<rparr>) = core d2"
  proof (rule patch_recalculated [OF assms(2) _ assms(7) _ row(2,3) ids])
    show "rec_wf d2" using assms(6) d2 by (simp add: rec_wf_def)
    show "row \<in> set (recs d2)" using row(1) d2 by simp
    show "k \<notin> fst ` set p \<and> obj_get (rc_Data r') k = obj_get (r_data row) k" if "k \<notin> calc_names md t" for k
      using ck(1,2) [OF k [OF that]] row(4) by (simp add: scan_rec_def)
    show "\<forall>k. json_plain (obj_get (r_data row) k)" using assms(10) row(1) by blast
  qed
  then show ?thesis using d2 by simp
qed


definition example_task :: task where
  "example_task = \<lparr>t_ID = 1, t_TenantID = ''a'', t_TableName = ''t'', t_RecordID = ''x'', t_TargetFieldIDs = [], t_Status = 0,
     t_RetryCount = 0, t_MaxRetry = 8\<rparr>"

definition example_md :: meta_db where
  "example_md = \<lparr>lc_tables = [\<lparr>mt_tenant = ''a'', mt_base = ''b'', mt_name = ''t'', mt_vt = ''v'', mt_created = 0\<rparr>],
     lc_columns = [\<lparr>mc_tenant = ''a'', mc_base = ''b'', mc_table = ''t'', mc_id = ''c1'', mc_name = ''f'', mc_type = ''formula'',
       mc_nullable = True, mc_position = 1, mc_config = [(''expression'', VStr ''1+2'')]\<rparr>]\<rparr>"

definition example_store :: calc_db where
  "example_store = (store_of [row_of 1 ''a'' ''x'' [] 1])\<lparr>recs :=
     [\<lparr>r_vt = ''v'', r_tenant = ''a'', r_record = ''x'', r_data = [(''n'', VStr ''text'')], r_version = 1\<rparr>]\<rparr>"

definition result_doc :: goobj where
  "result_doc = [(''n'', VStr ''text''), (''f'', WrapCache (VFloat (Fin 3)) CacheValid)]"

text \<open>A codec that knows one document.\<close>

definition doc_codec :: codec where
  "doc_codec = \<lparr>cd_unmarshal = (\<lambda>s. if s = ''d'' then Inr (Some result_doc) else Inl ''invalid''),
     cd_marshal = (\<lambda>v. if v = VObj result_doc then Inr ''d'' else Inl ''unsupported''), cd_sha256 = (\<lambda>s. s)\<rparr>"

lemma doc_codec_keeps: "codec_keeps doc_codec"
  by (auto simp: codec_keeps_def json_store_def doc_codec_def split: if_splits)

lemma map_Name_enumerates: "distinct (map Name defs) \<Longrightarrow> enumerates (map Name defs) defs"
  by (simp add: enumerates_def names_def)


section \<open>Tasks are not lost\<close>

text \<open>The queue does not change before the last statement of a calculation.\<close>

interpretation same_queue: db_patch "\<lambda>db. queue db = Q" for Q
  by unfold_locales (simp_all add: st_patch_def Let_def)

definition err_keeps :: "(calc_db \<Rightarrow> bool) \<Rightarrow> 'a db_op \<Rightarrow> bool" where
  "err_keeps I m \<longleftrightarrow> (\<forall>db e db'. m db = (Inl e, db') \<longrightarrow> I db \<longrightarrow> I db')"

lemma err_keeps_bind: "keeps I m \<Longrightarrow> (\<And>x. err_keeps I (f x)) \<Longrightarrow> err_keeps I (dbind m f)"
  unfolding err_keeps_def by (auto elim!: dbind_Inl dest: keepsD)

lemma keeps_err_keeps: "keeps I m \<Longrightarrow> err_keeps I m"
  unfolding err_keeps_def by (auto dest: keepsD)

lemma err_keeps_if: "err_keeps I a \<Longrightarrow> err_keeps I b \<Longrightarrow> err_keeps I (if c then a else b)"
  by simp

lemma err_keeps_prod: "(\<And>x y. err_keeps I (f x y)) \<Longrightarrow> err_keeps I (case p of (x, y) \<Rightarrow> f x y)"
  by (cases p) simp

lemma MarkCompleted_err: "err_keeps (\<lambda>db. queue db = Q) (MarkCompleted i)"
  unfolding err_keeps_def MarkCompleted_def by (auto elim: dexec_Inl)

lemma Process_err: "err_keeps (\<lambda>db. queue db = Q) (Process rt cd ords md t)"
  unfolding Process_def Let_def
  by (intro err_keeps_bind err_keeps_if err_keeps_prod MarkCompleted_err same_queue.keeps_loadTableMeta same_queue.keeps_loadVTMap
      same_queue.keeps_ReadRecord same_queue.keeps_ComputeFields same_queue.keeps_PatchCalcFields keeps_err_keeps [OF keeps_fail])



section \<open>The store stays well formed\<close>

lemma rec_wf_patch: "rec_wf db \<Longrightarrow> rec_wf (snd (st_patch vt t r v doc db))"
proof -
  assume "rec_wf db"
  moreover have "map (\<lambda>r. (r_vt r, r_record r)) (recs (snd (st_patch vt t r v doc db))) = map (\<lambda>r. (r_vt r, r_record r)) (recs db)"
    by (simp add: st_patch_def Let_def)
  moreover have "\<forall>x \<in> set (recs (snd (st_patch vt t r v doc db))). 1 \<le> r_version x" if "\<forall>x \<in> set (recs db). 1 \<le> r_version x"
    using that by (auto simp: st_patch_def Let_def)
  ultimately show ?thesis unfolding rec_wf_def by simp
qed

interpretation rec_inv: db_inv rec_wf
  by unfold_locales (auto simp: rec_wf_patch, simp_all add: rec_wf_def statement_defs Let_def)

definition store_wf :: "calc_db \<Rightarrow> bool" where
  "store_wf db \<longleftrightarrow> queue_wf db \<and> link_wf db \<and> rec_wf db"

text \<open>Two properties that all statements keep are kept together.\<close>

lemma db_inv_conj: "db_inv P \<Longrightarrow> db_inv Q \<Longrightarrow> db_inv (\<lambda>db. P db \<and> Q db)"
  unfolding db_inv_def db_side_def db_side_axioms_def db_patch_def db_patch_axioms_def db_frame_def by simp

interpretation store_inv: db_inv store_wf
  unfolding store_wf_def
  by (intro db_inv_conj queue_inv.db_inv_axioms link_inv.db_inv_axioms rec_inv.db_inv_axioms)


lemma keeps_Replay: "keeps store_wf (\<lambda>db. map_prod Inr id (ReplayDeadLetters tenant limit db))"
  by (simp add: keeps_def store_inv.Replay_inv)

section \<open>Two defects\<close>

text \<open>\<open>withUnwrapped\<close> does not unwrap: every value that is an object is put back as it was.\<close>

lemma withUnwrapped_id: "withUnwrapped cd data = data"
  by (auto simp: withUnwrapped_def UnwrapCache_def split: option.splits intro!: map_idI)

text \<open>
  A statement that fails while a lookup is computed is not retried: the task completes and the
  cached value is replaced by an error cell without a value.
\<close>

definition lookup_md :: meta_db where
  "lookup_md = \<lparr>lc_tables = [\<lparr>mt_tenant = ''a'', mt_base = ''b'', mt_name = ''t'', mt_vt = ''v'', mt_created = 0\<rparr>],
     lc_columns = [\<lparr>mc_tenant = ''a'', mc_base = ''b'', mc_table = ''t'', mc_id = ''c1'', mc_name = ''l'', mc_type = ''lookup'',
       mc_nullable = True, mc_position = 1, mc_config = [(''link_field_id'', VStr ''k''), (''target_field_id'', VStr ''n''), (''to_table_name'', VStr ''t'')]\<rparr>]\<rparr>"

definition transparent_codec :: "goobj \<Rightarrow> codec" where
  "transparent_codec doc = \<lparr>cd_unmarshal = (\<lambda>s. Inr (Some doc)), cd_marshal = (\<lambda>v. if v = VObj doc then Inr [] else Inl ''other document''),
     cd_sha256 = (\<lambda>s. s)\<rparr>"

lemma transient_fault_overwrites_cache:
  "let db = example_store\<lparr>faults := [None, None, None, None, Some ''timeout''],
         recs := [\<lparr>r_vt = ''v'', r_tenant = ''a'', r_record = ''x'', r_data = [(''l'', WrapCache (VStr ''Alice'') CacheValid)], r_version = 1\<rparr>]\<rparr>;
       r = Process example_rt (transparent_codec [(''l'', WrapCache VNil CacheError)]) (map Name) lookup_md example_task db
   in fst r = Inr () \<and> queue (snd r) = [] \<and> map r_data (recs (snd r)) = [[(''l'', WrapCache VNil CacheError)]]"
  by code_simp

end
