(* ===== verification/Row_Store.thy ===== *)
theory Row_Store
  imports Row_Cells Calc_Results
begin

text \<open>
  The handlers of single rows and of bulk requests (\<open>internal/service/data\<close>: \<open>vr_rows.go\<close>,
  \<open>bulk.go\<close>, \<open>limits.go\<close>): create, update, delete, read, and their loops over many rows.

  The context of a request is resolved by queries that may fail like any other. A fresh record
  id is an argument, since \<open>uuid.NewString\<close> is random. Events are left out: they are sent after
  the store has changed and are not looked at again. The read pool reads the same store as the
  write pool.
\<close>

section \<open>Statements\<close>

text \<open>\<open>INSERT INTO record\<close>: false when the primary key exists.\<close>

definition st_insert_rec :: "string \<Rightarrow> string \<Rightarrow> string \<Rightarrow> goobj \<Rightarrow> calc_db \<Rightarrow> bool \<times> calc_db" where
  "st_insert_rec rid tenant vt doc db =
     (if list_ex (\<lambda>r. r_vt r = vt \<and> r_record r = rid) (recs db) then (False, db)
      else (True, db\<lparr>recs := recs db @ [\<lparr>r_vt = vt, r_tenant = tenant, r_record = rid, r_data = doc, r_version = 1\<rparr>]\<rparr>))"

text \<open>\<open>DELETE FROM record\<close> with the trigger that removes the links of every deleted record.\<close>

definition st_delete_rec :: "string \<Rightarrow> string \<Rightarrow> string \<Rightarrow> calc_db \<Rightarrow> nat \<times> calc_db" where
  "st_delete_rec rid vt tenant db =
     (let hit = (\<lambda>r. r_record r = rid \<and> r_vt r = vt \<and> r_tenant r = tenant); n = length (filter hit (recs db)) in
      (n, if n = 0 then db
          else db\<lparr>recs := filter (\<lambda>r. \<not> hit r) (recs db),
                  links := filter (\<lambda>l. l_from_record l \<noteq> rid \<and> l_to_record l \<noteq> rid) (links db)\<rparr>))"

section \<open>The context of a request\<close>

definition resolveVRContext :: "service_env \<Rightarrow> request_ctx \<Rightarrow> string \<Rightarrow> (string \<times> string) db_op" where
  "resolveVRContext sv rq tableName =
     dbind (TenantID sv rq) (\<lambda>_.
     dbind (TenantID sv rq) (\<lambda>tenantID.
     dbind (BaseID sv rq) (\<lambda>baseID.
     dbind (TableVTID sv tenantID baseID tableName) (\<lambda>vtID. ret (tenantID, vtID)))))"

text \<open>The write pool: the last step stands for connecting, which may fail.\<close>

definition DataPool :: "service_env \<Rightarrow> request_ctx \<Rightarrow> unit db_op" where
  "DataPool sv rq =
     dbind (TenantID sv rq) (\<lambda>tenantID.
     dbind (loadProfile (sv_tenants sv) tenantID) (\<lambda>p.
       if trim_space (tp_writeDSN p) = [] then fail (CalcErr (''tenant '' @ quoted tenantID @ '' has no data_dsn''))
       else dquery (\<lambda>_. ())))"

definition row_context :: "service_env \<Rightarrow> request_ctx \<Rightarrow> string \<Rightarrow> (string \<times> string) db_op" where
  "row_context sv rq tableName =
     dbind (DataTables (sv_tenants sv) rq) (\<lambda>_.
     dbind (resolveVRContext sv rq tableName) (\<lambda>c.
     dbind (DataPool sv rq) (\<lambda>_. ret c)))"

section \<open>Handlers\<close>

record row =
  rw_Id :: string
  rw_Version :: int
  rw_Pending :: bool
  rw_Cells :: cells

text \<open>
  The document and the link cells of a request: the cells that are no link and no calculated
  column, and all cells but the link cells when there is none of them.
\<close>

definition request_cells ::
    "runtime \<Rightarrow> service_env \<Rightarrow> request_ctx \<Rightarrow> string \<Rightarrow> cells \<Rightarrow> (goobj \<times> link_cells \<times> full_column_meta list) db_op" where
  "request_cells rt sv rq tableName cells =
     dbind (LoadColumns rt sv rq tableName) (\<lambda>cols.
       if cells = [] then fail (CalcErr ''cells is empty'')
       else
         dbind (cellsToNativeMap rt sv rq cells cols) (\<lambda>native.
         dbind (or_nil (LoadAllColumnMeta rt sv rq tableName)) (\<lambda>allCols.
         dbind (numericSpecsByColumn sv rq allCols []) (\<lambda>numSpecs.
           case splitLinkCells rt cells allCols numSpecs of
             Inl p \<Rightarrow> fail (CalcPanic p)
           | Inr (data, lks) \<Rightarrow>
               ret (if data = [] then filter (\<lambda>(k, _). \<not> map_has k lks) native else data, lks, allCols)))))"

text \<open>What both writing handlers do after the record is stored; the errors are ignored.\<close>

definition after_write ::
    "runtime \<Rightarrow> meta_db \<Rightarrow> string \<Rightarrow> string \<Rightarrow> string \<Rightarrow> string list \<Rightarrow> bool \<Rightarrow> link_peer list \<Rightarrow> calc_db \<Rightarrow> calc_db" where
  "after_write rt md tenantID tableName rid changed linked peers db =
     enqueueLinkPeers tenantID tableName rid peers (snd (EnqueueAfterUserEdit rt md tenantID tableName rid changed linked db))"

definition or_false :: "bool db_op \<Rightarrow> bool db_op" where
  "or_false m db = (case m db of (Inl _, db') \<Rightarrow> (Inr False, db') | r \<Rightarrow> r)"

definition CreateRow ::
    "runtime \<Rightarrow> codec \<Rightarrow> uuid_lib \<Rightarrow> service_env \<Rightarrow> request_ctx \<Rightarrow> string \<Rightarrow> string \<Rightarrow> cells \<Rightarrow> row db_op" where
  "CreateRow rt cd ul sv rq recordID tableName cells =
     dbind (row_context sv rq tableName) (\<lambda>(tenantID, vtID).
     dbind (request_cells rt sv rq tableName cells) (\<lambda>(data0, lks, allCols).
     dbind (applyFulltextOnWrite rt sv rq tableName data0) (\<lambda>data.
       case json_store cd data of
         Inl e \<Rightarrow> fail e
       | Inr doc \<Rightarrow>
           dbind (dexec (st_insert_rec recordID tenantID vtID doc)) (\<lambda>ok.
             if \<not> ok then fail (DbFault ''duplicate key value violates unique constraint'')
             else dbind (persistLinks rt tenantID tableName recordID allCols lks) (\<lambda>peers.
               dbind (\<lambda>db. (Inr (), after_write rt (sv_meta sv) tenantID tableName recordID (changedKeys data) (lks \<noteq> []) peers db)) (\<lambda>_.
               dbind (or_false (HasPending recordID)) (\<lambda>pend.
                 ret \<lparr>rw_Id = recordID, rw_Version = 1, rw_Pending = pend,
                      rw_Cells = hydrateCells rt cd ul data allCols lks\<rparr>)))))))"

text \<open>The row as it is read before it is written.\<close>

definition read_row :: "string \<Rightarrow> string \<Rightarrow> string \<Rightarrow> rec_row db_op" where
  "read_row rid vtID tenantID =
     dbind (dquery (\<lambda>db. find (\<lambda>r. r_record r = rid \<and> r_vt r = vtID \<and> r_tenant r = tenantID) (recs db))) (\<lambda>r.
       case r of None \<Rightarrow> fail (CalcErr ''row not found'') | Some r \<Rightarrow> ret r)"

definition UpdateRow ::
    "runtime \<Rightarrow> codec \<Rightarrow> uuid_lib \<Rightarrow> service_env \<Rightarrow> request_ctx \<Rightarrow> string \<Rightarrow> string \<Rightarrow> cells \<Rightarrow> row db_op" where
  "UpdateRow rt cd ul sv rq tableName rid cells =
     dbind (row_context sv rq tableName) (\<lambda>(tenantID, vtID).
     dbind (request_cells rt sv rq tableName cells) (\<lambda>(patch, lks, allCols).
     dbind (read_row rid vtID tenantID) (\<lambda>old.
     dbind (applyFulltextOnWrite rt sv rq tableName (map_merge (r_data old) patch)) (\<lambda>merged.
       case json_store cd merged of
         Inl e \<Rightarrow> fail e
       | Inr doc \<Rightarrow>
           dbind (dexec (st_patch vtID tenantID rid (r_version old) doc)) (\<lambda>n.
             if n = 0 then fail (CalcErr ''row not found or version conflict'')
             else dbind (persistLinks rt tenantID tableName rid allCols lks) (\<lambda>peers.
               dbind (\<lambda>db. (Inr (), after_write rt (sv_meta sv) tenantID tableName rid (changedKeys patch) (lks \<noteq> []) peers db)) (\<lambda>_.
               dbind (or_false (HasPending rid)) (\<lambda>pend.
               dbind (or_nil (LinksByRecords tenantID [rid])) (\<lambda>ls.
                 ret \<lparr>rw_Id = rid, rw_Version = r_version old + 1, rw_Pending = pend,
                      rw_Cells = hydrateCells rt cd ul merged allCols (case map_of ls rid of None \<Rightarrow> [] | Some m \<Rightarrow> m)\<rparr>)))))))))"

text \<open>The two loops of \<open>DeleteRow\<close>, which share the set of records seen.\<close>

fun enqueue_incoming :: "string \<Rightarrow> link_edge list \<Rightarrow> string list \<Rightarrow> calc_db \<Rightarrow> string list \<times> calc_db" where
  "enqueue_incoming tenantID [] seen db = (seen, db)"
| "enqueue_incoming tenantID (e # es) seen db =
     (if le_FromRecordID e \<in> set seen then enqueue_incoming tenantID es seen db
      else enqueue_incoming tenantID es (le_FromRecordID e # seen)
        (snd (Enqueue tenantID (le_FromTableName e) (le_FromRecordID e) [] db)))"

fun enqueue_outgoing :: "string \<Rightarrow> string \<Rightarrow> link_edge list \<Rightarrow> string list \<Rightarrow> calc_db \<Rightarrow> calc_db" where
  "enqueue_outgoing tenantID rid [] seen db = db"
| "enqueue_outgoing tenantID rid (e # es) seen db =
     (if le_ToTableName e = [] \<or> le_ToRecordID e = [] \<or> le_ToRecordID e = rid \<or> le_ToRecordID e \<in> set seen
      then enqueue_outgoing tenantID rid es seen db
      else enqueue_outgoing tenantID rid es (le_ToRecordID e # seen)
        (snd (Enqueue tenantID (le_ToTableName e) (le_ToRecordID e) [] db)))"

definition DeleteRow :: "service_env \<Rightarrow> request_ctx \<Rightarrow> string \<Rightarrow> string \<Rightarrow> unit db_op" where
  "DeleteRow sv rq tableName rid =
     dbind (row_context sv rq tableName) (\<lambda>(tenantID, vtID).
     dbind (or_nil (ListIncoming tenantID rid)) (\<lambda>incoming.
     dbind (or_nil (ListOutgoing tenantID rid)) (\<lambda>outgoing.
     dbind (dexec (st_delete_rec rid vtID tenantID)) (\<lambda>n.
       if n = 0 then fail (CalcErr ''row not found'')
       else (\<lambda>db. case enqueue_incoming tenantID incoming [] db of
           (seen, db') \<Rightarrow> (Inr (), enqueue_outgoing tenantID rid outgoing seen db'))))))"

definition fieldsFromMeta :: "full_column_meta list \<Rightarrow> field list" where
  "fieldsFromMeta cols = map (\<lambda>c. \<lparr>f_ID = fc_Id c, f_Name = fc_Name c, f_TypeID = fc_TypeId c, f_Config = fc_Config c\<rparr>) cols"

text \<open>\<open>DataReadPool\<close> and, when a recalculation is asked for, \<open>DataPool\<close>.\<close>

definition refresh_cache :: "service_env \<Rightarrow> request_ctx \<Rightarrow> string \<Rightarrow> string \<Rightarrow> string \<Rightarrow> bool db_op" where
  "refresh_cache sv rq tenantID tableName rid db =
     (case DataPool sv rq db of
        (Inl _, db') \<Rightarrow> (Inr False, db')
      | (Inr _, db') \<Rightarrow> (Inr True, snd (Enqueue tenantID tableName rid [] db')))"

definition GetRow ::
    "runtime \<Rightarrow> codec \<Rightarrow> uuid_lib \<Rightarrow> (fdef list \<Rightarrow> string list) \<Rightarrow> service_env \<Rightarrow> request_ctx \<Rightarrow> string \<Rightarrow> string \<Rightarrow> row db_op" where
  "GetRow rt cd ul ords sv rq tableName rid =
     dbind (row_context sv rq tableName) (\<lambda>(tenantID, vtID).
     dbind (LoadAllColumnMeta rt sv rq tableName) (\<lambda>allCols.
     dbind (LiveCompute rt cd ords (sv_meta sv) tenantID tableName rid) (\<lambda>(live, ver).
     dbind (ReadRecord tenantID vtID rid) (\<lambda>r.
     dbind (or_false (HasPending rid)) (\<lambda>pend0.
     dbind (if \<not> pend0 \<and> CacheMismatch rt cd (rc_Data r) live (fieldsFromMeta allCols)
            then refresh_cache sv rq tenantID tableName rid else ret pend0) (\<lambda>pend.
     dbind (or_nil (LinksByRecords tenantID [rid])) (\<lambda>ls.
       ret \<lparr>rw_Id = rid, rw_Version = ver, rw_Pending = pend,
            rw_Cells = hydrateCells rt cd ul live allCols (case map_of ls rid of None \<Rightarrow> [] | Some m \<Rightarrow> m)\<rparr>)))))))"

section \<open>Bulk requests\<close>

definition maxBulkItems :: "int \<Rightarrow> int" where
  "maxBulkItems configured = (if configured > 0 then configured else 500)"

definition checkBulkSize :: "int \<Rightarrow> nat \<Rightarrow> string \<Rightarrow> unit db_op" where
  "checkBulkSize configured n kind =
     (if int n > maxBulkItems configured
      then fail (CalcErr (kind @ '' size '' @ itoa (int n) @ '' exceeds hard limit '' @ itoa (maxBulkItems configured)))
      else ret ())"

text \<open>An item is nil, or a row id, empty for a new row, with cells; the fresh ids are used in turn.\<close>

fun upsert_items ::
    "(string \<Rightarrow> cells \<Rightarrow> row db_op) \<Rightarrow> (string \<Rightarrow> cells \<Rightarrow> row db_op) \<Rightarrow> string list \<Rightarrow> (string \<times> cells) option list \<Rightarrow> row list db_op" where
  "upsert_items create update uuids [] = ret []"
| "upsert_items create update uuids (None # its) = upsert_items create update uuids its"
| "upsert_items create update uuids (Some (rid, cells) # its) =
     (if rid = [] then
        dbind (create (case uuids of [] \<Rightarrow> [] | u # _ \<Rightarrow> u) cells) (\<lambda>r.
        dbind (upsert_items create update (tl uuids) its) (\<lambda>rs. ret (r # rs)))
      else
        dbind (update rid cells) (\<lambda>r.
        dbind (upsert_items create update uuids its) (\<lambda>rs. ret (r # rs))))"

definition BulkUpsertRows ::
    "runtime \<Rightarrow> codec \<Rightarrow> uuid_lib \<Rightarrow> service_env \<Rightarrow> request_ctx \<Rightarrow> int \<Rightarrow> string list \<Rightarrow> string \<Rightarrow> (string \<times> cells) option list \<Rightarrow> row list db_op" where
  "BulkUpsertRows rt cd ul sv rq limit uuids tableName items =
     dbind (checkBulkSize limit (length items) ''bulkUpsert'') (\<lambda>_.
       if tableName = [] then fail (CalcErr ''table_name is required'')
       else upsert_items (\<lambda>u cells. CreateRow rt cd ul sv rq u tableName cells)
         (\<lambda>rid cells. UpdateRow rt cd ul sv rq tableName rid cells) uuids items)"

definition BulkDeleteRows :: "service_env \<Rightarrow> request_ctx \<Rightarrow> int \<Rightarrow> string \<Rightarrow> string list \<Rightarrow> unit db_op" where
  "BulkDeleteRows sv rq limit tableName ids =
     dbind (checkBulkSize limit (length ids) ''bulkDelete'') (\<lambda>_.
       if tableName = [] then fail (CalcErr ''table_name is required'')
       else dloop (DeleteRow sv rq tableName) ids)"

section \<open>Handlers keep the invariants\<close>

lemma keeps_or_false [keep_rules]: "keeps I m \<Longrightarrow> keeps I (or_false m)"
  unfolding keeps_def or_false_def by (auto split: prod.splits sum.splits)

lemma keeps_checkBulkSize [keep_rules]: "keeps I (checkBulkSize l n k)"
  unfolding checkBulkSize_def by (intro keep_rules)

lemma keeps_upsert_items:
  "(\<And>u c. keeps I (create u c)) \<Longrightarrow> (\<And>u c. keeps I (update u c)) \<Longrightarrow> keeps I (upsert_items create update us its)"
proof (induction create update us its rule: upsert_items.induct)
  case (3 create update us rid cells its)
  then show ?case by (auto intro!: keep_rules)
qed (auto intro!: keep_rules)

context db_read
begin

lemma keeps_row_context [keep_rules]: "keeps I (row_context sv rq t)"
  unfolding row_context_def resolveVRContext_def DataPool_def by (intro keep_rules)

lemma keeps_DataPool [keep_rules]: "keeps I (DataPool sv rq)"
  unfolding DataPool_def by (intro keep_rules)

lemma keeps_numericSpecs [keep_rules]: "keeps I (numericSpecsByColumn sv rq cols out)"
  by (induction cols arbitrary: out) (auto intro!: keep_rules)

lemma keeps_cellsToNativeMap [keep_rules]: "keeps I (cellsToNativeMap rt sv rq cells cols)"
  unfolding cellsToNativeMap_def cell_native_def by (intro keep_rules)

lemma keeps_request_cells [keep_rules]: "keeps I (request_cells rt sv rq t cells)"
  unfolding request_cells_def by (intro keep_rules)

lemma keeps_fulltext [keep_rules]: "keeps I (applyFulltextOnWrite rt sv rq t n)"
  unfolding applyFulltextOnWrite_def by (intro keep_rules)

lemma keeps_row_reads [keep_rules]: "keeps I (read_row rid vt t)" "keeps I (HasPending rid)"
    "keeps I (LinksByRecords t ids)" "keeps I (ListOutgoing t rid)"
  unfolding read_row_def HasPending_def LinksByRecords_def ListOutgoing_def by (intro keep_rules)+

end

context db_side
begin

lemma Enqueue_inv: "I db \<Longrightarrow> I (snd (Enqueue t tb r ids db))"
  using keeps_Enqueue unfolding keeps_def by blast

lemma enqueue_incoming_inv: "I db \<Longrightarrow> I (snd (enqueue_incoming t es seen db))"
  by (induction es arbitrary: db seen) (simp_all add: Enqueue_inv)

lemma enqueue_outgoing_inv: "I db \<Longrightarrow> I (enqueue_outgoing t rid es seen db)"
  by (induction es arbitrary: db seen) (simp_all add: Enqueue_inv)

lemma keeps_after_write [keep_rules]: "keeps I (\<lambda>db. (Inr (), after_write rt md t tb r ch lc ps db))"
  using keeps_EnqueueAfterUserEdit enqueueLinkPeers_inv by (simp add: keeps_def after_write_def)

end

text \<open>The interface of the row handlers: kept also by inserting and deleting records.\<close>

locale db_rows = db_inv +
  assumes inv_insert_rec: "I db \<Longrightarrow> I (snd (st_insert_rec rid tenant vt doc db))"
    and inv_delete_rec: "I db \<Longrightarrow> I (snd (st_delete_rec rid vt tenant db))"
begin

lemma keeps_row_statements [keep_rules]:
  "keeps I (dexec (st_insert_rec rid tenant vt doc))" "keeps I (dexec (st_delete_rec rid vt tenant))"
  by (auto intro!: keeps_exec intro: inv_insert_rec inv_delete_rec)

lemma keeps_CreateRow [keep_rules]: "keeps I (CreateRow rt cd ul sv rq u t cells)"
  unfolding CreateRow_def by (intro keep_rules)

lemma keeps_UpdateRow [keep_rules]: "keeps I (UpdateRow rt cd ul sv rq t rid cells)"
  unfolding UpdateRow_def by (intro keep_rules)

lemma keeps_DeleteRow [keep_rules]: "keeps I (DeleteRow sv rq t rid)"
proof -
  have "keeps I (\<lambda>db. case enqueue_incoming t inc [] db of (seen, db') \<Rightarrow> (Inr (), enqueue_outgoing t rid out seen db'))" for t inc out
    using enqueue_incoming_inv enqueue_outgoing_inv unfolding keeps_def by (metis (no_types, lifting) case_prod_unfold snd_conv)
  then show ?thesis unfolding DeleteRow_def by (intro keep_rules)
qed

lemma keeps_GetRow [keep_rules]: "keeps I (GetRow rt cd ul ords sv rq t rid)"
proof -
  have "keeps I (refresh_cache sv rq tn tb r)" for tn tb r
    using keeps_DataPool [of sv rq] Enqueue_inv unfolding keeps_def refresh_cache_def
    by (auto split: prod.split sum.split)
  then show ?thesis unfolding GetRow_def by (intro keep_rules)
qed

lemmas keep_engine = keeps_Enqueue keeps_EnqueueTable keeps_EnqueueMany keeps_ClaimFair keeps_MarkCompleted keeps_MarkRetry
  keeps_PurgeFinished keeps_persistLinks keeps_EnqueueAfterUserEdit keeps_Process keeps_ProcessOrRetry keeps_LiveCompute keeps_Drain

lemma keeps_Bulk [keep_rules]:
  "keeps I (BulkUpsertRows rt cd ul sv rq l us t its)" "keeps I (BulkDeleteRows sv rq l t ids)"
  unfolding BulkUpsertRows_def BulkDeleteRows_def by (intro keep_rules keeps_upsert_items)+

lemmas keep_store = keeps_CreateRow keeps_UpdateRow keeps_DeleteRow keeps_GetRow keeps_Bulk

end

lemma rec_wf_insert: "rec_wf db \<Longrightarrow> rec_wf (snd (st_insert_rec rid tenant vt doc db))"
  by (auto simp: rec_wf_def st_insert_rec_def list_ex_iff)

lemma rec_wf_delete: "rec_wf db \<Longrightarrow> rec_wf (snd (st_delete_rec rid vt tenant db))"
  by (auto simp: rec_wf_def st_delete_rec_def Let_def distinct_map_filter)

lemma link_wf_delete: "link_wf db \<Longrightarrow> link_wf (snd (st_delete_rec rid vt tenant db))"
  by (auto simp: link_wf_def st_delete_rec_def Let_def distinct_map_filter sorted_map_filter)

interpretation store_rows: db_rows store_wf
proof
  show "store_wf db \<Longrightarrow> store_wf (snd (st_insert_rec rid tenant vt doc db))" for db rid tenant vt doc
    using rec_wf_insert [of db rid tenant vt doc] by (auto simp: store_wf_def st_insert_rec_def queue_wf_def link_wf_def)
  show "store_wf db \<Longrightarrow> store_wf (snd (st_delete_rec rid vt tenant db))" for db rid tenant vt
    using rec_wf_delete [of db rid vt tenant] link_wf_delete [of db rid vt tenant]
    by (auto simp: store_wf_def queue_wf_def st_delete_rec_def Let_def)
qed


end
