(* ===== verification/Row_Results.thy ===== *)
theory Row_Results
  imports Row_Store
begin

text \<open>
  What a row handler leaves behind: an update changes the cells it was given and no others, a
  deletion removes the record and all its links, and the values a client reads are those it
  wrote.
\<close>

section \<open>Reading a request\<close>

lemma dmap_Inr: "dmap f xs db = (Inr ys, db') \<Longrightarrow> list_all2 (\<lambda>x y. \<exists>d d'. f x d = (Inr y, d')) xs ys"
  by (induction xs arbitrary: ys db) (auto elim!: dbind_Inr, blast)

lemma cell_native_key: "cell_native rt sv rq cols p d = (Inr q, d') \<Longrightarrow> fst q = fst p"
  by (cases p) (auto simp: cell_native_def elim!: dbind_Inr split: sum.splits)

lemma cellsToNativeMap_keys:
  assumes "cellsToNativeMap rt sv rq cells cols db = (Inr native, db')"
  shows "fst ` set native \<subseteq> fst ` set cells"
proof -
  have "list_all2 (\<lambda>x y. fst y = fst x) (NormalizeInputCells cells) native"
    using dmap_Inr [OF assms [unfolded cellsToNativeMap_def]] by (rule list_all2_mono) (auto dest: cell_native_key)
  then have "map fst native = map fst (NormalizeInputCells cells)" by (simp add: list_all2_conv_all_nth list_eq_iff_nth_eq)
  then have "set (map fst native) = set (map fst (NormalizeInputCells cells))" by simp
  then show ?thesis by (auto simp: NormalizeInputCells_def)
qed

text \<open>Every cell of a request goes to exactly one place.\<close>

lemma splitLinkCells_keys:
  assumes "splitLinkCells rt cells cols specs = Inr (data, lks)"
  shows "map fst data = filter (\<lambda>k. k \<notin> col_keys link_col cols \<union> col_keys calc_col cols \<and> k \<noteq> fulltext_key) (map fst cells)"
    "map fst lks = filter (\<lambda>k. k \<in> col_keys link_col cols) (map fst cells)"
  using assms by (induction rt cells cols specs arbitrary: data lks rule: splitLinkCells.induct)
    (auto split: sum.splits if_splits)

lemma request_cells_Inr:
  assumes "request_cells rt sv rq tbl cells db = (Inr (patch, lks, cols), db')"
  shows "fst ` set patch \<subseteq> fst ` set cells"
proof -
  obtain phys native specs data d1 d2 d3 where n: "cellsToNativeMap rt sv rq cells phys d1 = (Inr native, d2)"
    and s: "splitLinkCells rt cells cols specs = Inr (data, lks)"
    and p: "patch = (if data = [] then filter (\<lambda>(k, _). \<not> map_has k lks) native else data)"
    using assms by (auto simp: request_cells_def elim!: dbind_Inr split: sum.splits if_splits)
  have "fst ` set data \<subseteq> fst ` set cells"
    using arg_cong [OF splitLinkCells_keys(1) [OF s], of set] by auto
  then show ?thesis using cellsToNativeMap_keys [OF n] by (auto simp: p)
qed

section \<open>Updating a row\<close>

text \<open>Writing links and tasks leaves the records alone.\<close>

interpretation same_recs: db_side "\<lambda>db. recs db = R" for R
  by unfold_locales (simp_all add: statement_defs Let_def)

lemma recs_kept: "(\<And>R. keeps (\<lambda>db. recs db = R) m) \<Longrightarrow> m db = (res, db') \<Longrightarrow> recs db' = recs db"
  using keepsD by blast

lemma read_row_Inr:
  assumes "read_row rid vt t db = (Inr r, db')"
  shows "r \<in> set (recs db) \<and> r_record r = rid \<and> r_vt r = vt \<and> r_tenant r = t"
proof -
  from assms have "find (\<lambda>r. r_record r = rid \<and> r_vt r = vt \<and> r_tenant r = t) (recs db) = Some r"
    by (auto simp: read_row_def elim!: dbind_Inr dest!: dquery_Inr split: option.splits)
  then show ?thesis by (metis (mono_tags, lifting) find_Some_iff nth_mem)
qed

text \<open>The statements of an update that succeeds: a read of the record and a conditional write of what follows from it.\<close>

lemma UpdateRow_statements:
  assumes "UpdateRow rt cd ul sv rq tbl rid cells db = (Inr row, db')"
  obtains patch vt t d2 old d3 ft d4 doc n d5 where
    "fst ` set patch \<subseteq> fst ` set cells" "recs d2 = recs db" "read_row rid vt t d2 = (Inr old, d3)" "recs d4 = recs d3"
    "\<forall>m k. k \<noteq> fulltext_key \<longrightarrow> obj_get (ft m) k = obj_get m k" "json_store cd (ft (map_merge (r_data old) patch)) = Inr doc"
    "dexec (st_patch vt t rid (r_version old) doc) d4 = (Inr n, d5)" "n \<noteq> 0" "recs db' = recs d5"
    "rw_Id row = rid" "rw_Version row = r_version old + 1"
proof -
  from assms obtain t vt patch lks cols old merged d1 d2 d3 d4 where
    1: "row_context sv rq tbl db = (Inr (t, vt), d1)" and 2: "request_cells rt sv rq tbl cells d1 = (Inr (patch, lks, cols), d2)"
    and 3: "read_row rid vt t d2 = (Inr old, d3)"
    and 4: "applyFulltextOnWrite rt sv rq tbl (map_merge (r_data old) patch) d3 = (Inr merged, d4)"
    and 5: "(case json_store cd merged of
         Inl e \<Rightarrow> fail e
       | Inr doc \<Rightarrow>
           dbind (dexec (st_patch vt t rid (r_version old) doc)) (\<lambda>n.
             if n = 0 then fail (CalcErr ''row not found or version conflict'')
             else dbind (persistLinks rt t tbl rid cols lks) (\<lambda>peers.
               dbind (\<lambda>db. (Inr (), after_write rt (sv_meta sv) t tbl rid (changedKeys patch) (lks \<noteq> []) peers db)) (\<lambda>_.
               dbind (or_false (HasPending rid)) (\<lambda>pend.
               dbind (or_nil (LinksByRecords t [rid])) (\<lambda>ls.
                 ret \<lparr>rw_Id = rid, rw_Version = r_version old + 1, rw_Pending = pend,
                      rw_Cells = hydrateCells rt cd ul merged cols (case map_of ls rid of None \<Rightarrow> [] | Some m \<Rightarrow> m)\<rparr>)))))) d4 = (Inr row, db')"
    unfolding UpdateRow_def by (auto elim!: dbind_Inr split: prod.splits)
  have c2: "recs d2 = recs db"
    using core_eqD [OF core_kept [OF reads.keeps_row_context 1]] core_eqD [OF core_kept [OF reads.keeps_request_cells 2]] by simp
  have c4: "recs d4 = recs d3" using core_eqD [OF core_kept [OF reads.keeps_fulltext 4]] by simp
  from 4 obtain r :: "cerr + full_column_meta list" where
    "(case r of Inl _ \<Rightarrow> map_merge (r_data old) patch | Inr cols \<Rightarrow> apply_fulltext rt cols (map_merge (r_data old) patch)) = merged"
    unfolding applyFulltextOnWrite_def by (elim dbind_Inr) (auto simp: that)
  moreover define ft where "ft = (case r of Inl _ \<Rightarrow> id | Inr cols \<Rightarrow> apply_fulltext rt cols)"
  ultimately have m: "merged = ft (map_merge (r_data old) patch)" by (cases r) simp_all
  have f: "\<forall>m k. k \<noteq> fulltext_key \<longrightarrow> obj_get (ft m) k = obj_get m k"
    by (auto simp: ft_def apply_fulltext_def Let_def obj_get_def map_of_map_put map_of_map_del split: sum.splits if_splits)
  from 5 obtain doc n peers u pend ls d5 d6 d7 d8 d9 where
    s: "json_store cd merged = Inr doc" and p: "dexec (st_patch vt t rid (r_version old) doc) d4 = (Inr n, d5)" and n: "n \<noteq> 0"
    and l: "persistLinks rt t tbl rid cols lks d5 = (Inr peers, d6)"
    and w: "(\<lambda>db. (Inr () :: cerr + unit, after_write rt (sv_meta sv) t tbl rid (changedKeys patch) (lks \<noteq> []) peers db)) d6 = (Inr u, d7)"
    and h: "or_false (HasPending rid) d7 = (Inr pend, d8)" and b: "or_nil (LinksByRecords t [rid]) d8 = (Inr ls, d9)"
    and r: "rw_Id row = rid" "rw_Version row = r_version old + 1" "db' = d9"
    by (auto elim!: dbind_Inr split: sum.splits if_splits)
  have "recs d6 = recs d5" by (rule recs_kept [OF same_recs.keeps_persistLinks l])
  moreover have "recs d7 = recs d6" by (rule recs_kept [OF same_recs.keeps_after_write w])
  moreover have "recs d8 = recs d7" by (rule recs_kept [OF keeps_or_false [OF same_recs.keeps_row_reads(2)] h])
  moreover have "recs d9 = recs d8" by (rule recs_kept [OF same_recs.keeps_or_nil [OF same_recs.keeps_row_reads(3)] b])
  ultimately have e: "recs db' = recs d5" using r(3) by simp
  show ?thesis by (rule that [OF request_cells_Inr [OF 2] c2 3 c4 f s [unfolded m] p n e r(1,2)])
qed

lemma UpdateRow_Inr:
  assumes "UpdateRow rt cd ul sv rq tbl rid cells db = (Inr row, db')"
  obtains t vt patch old merged doc where
    "fst ` set patch \<subseteq> fst ` set cells" "old \<in> set (recs db)" "r_record old = rid" "r_vt old = vt" "r_tenant old = t"
    "\<forall>k. k \<noteq> fulltext_key \<longrightarrow> obj_get merged k = obj_get (map_merge (r_data old) patch) k" "json_store cd merged = Inr doc"
    "recs db' = recs (snd (st_patch vt t rid (r_version old) doc db))"
    "rw_Id row = rid" "rw_Version row = r_version old + 1"
proof -
  obtain patch vt t d2 old d3 ft d4 doc n d5 where p: "fst ` set patch \<subseteq> fst ` set cells"
    and 2: "recs d2 = recs db" and 3: "read_row rid vt t d2 = (Inr old, d3)" and 4: "recs d4 = recs d3"
    and f: "\<forall>m k. k \<noteq> fulltext_key \<longrightarrow> obj_get (ft m) k = obj_get m k" and s: "json_store cd (ft (map_merge (r_data old) patch)) = Inr doc"
    and 5: "dexec (st_patch vt t rid (r_version old) doc) d4 = (Inr n, d5)" "n \<noteq> 0" and 6: "recs db' = recs d5"
    and r: "rw_Id row = rid" "rw_Version row = r_version old + 1"
    by (rule UpdateRow_statements [OF assms])
  have "recs d3 = recs d2" using core_eqD [OF core_kept [OF reads.keeps_row_reads(1) 3]] by simp
  then have e: "recs db' = recs (snd (st_patch vt t rid (r_version old) doc db))"
    using dexec_Inr [OF 5(1)] 2 4 6 by (auto simp: st_patch_def Let_def)
  have old: "old \<in> set (recs db)" "r_record old = rid" "r_vt old = vt" "r_tenant old = t" using read_row_Inr [OF 3] 2 by auto
  show ?thesis using f by (intro that [OF p old _ s e r]) blast
qed


text \<open>A table with one text column, for examples.\<close>

definition row_env :: service_env where
  "row_env =
     \<lparr>sv_tenants = \<lparr>td_tenants = [\<lparr>tn_id = ''a'', tn_dsn = ''db'', tn_dsn_write = None, tn_reads = None, tn_max_conns = 1, tn_store = None\<rparr>],
        td_bases = [\<lparr>bs_id = ''b'', bs_tenant = ''a'', bs_created = 1\<rparr>]\<rparr>,
      sv_meta = \<lparr>lc_tables = [\<lparr>mt_tenant = ''a'', mt_base = ''b'', mt_name = ''t'', mt_vt = ''v'', mt_created = 1\<rparr>],
        lc_columns = [\<lparr>mc_tenant = ''a'', mc_base = ''b'', mc_table = ''t'', mc_id = ''c1'', mc_name = ''n'', mc_type = ''text'',
          mc_nullable = True, mc_position = 1, mc_config = []\<rparr>,
          \<lparr>mc_tenant = ''a'', mc_base = ''b'', mc_table = ''t'', mc_id = ''c2'', mc_name = ''f'', mc_type = ''formula'',
          mc_nullable = True, mc_position = 2, mc_config = [(''expression'', VStr ''1+2'')]\<rparr>]\<rparr>,
      sv_types = [], sv_cache = (\<lambda>_. None)\<rparr>"

definition row_request :: request_ctx where
  "row_request = \<lparr>rq_Tenant = ''a'', rq_Base = ''b''\<rparr>"

definition no_uuids :: uuid_lib where
  "no_uuids = \<lparr>ul_parse = (\<lambda>_. None), ul_bytes = (\<lambda>_. [])\<rparr>"

definition one_doc :: "goobj \<Rightarrow> codec" where
  "one_doc doc = \<lparr>cd_unmarshal = (\<lambda>s. if s = ''d'' then Inr (Some doc) else Inl ''invalid''),
     cd_marshal = (\<lambda>v. if v = VObj doc then Inr ''d'' else Inl ''unsupported''), cd_sha256 = (\<lambda>s. s)\<rparr>"

lemma one_doc_keeps: "codec_keeps (one_doc doc)"
  by (auto simp: codec_keeps_def json_store_def one_doc_def split: if_splits)


section \<open>Deleting a row\<close>

text \<open>Enqueueing leaves records and links alone.\<close>

lemma Enqueue_other: "recs (snd (Enqueue t tb r ids db)) = recs db \<and> links (snd (Enqueue t tb r ids db)) = links db"
  by (cases rule: dexec_cases [of db "st_enqueue t tb r ids"]) (auto simp: Enqueue_def st_enqueue_def)

lemma enqueue_incoming_other:
  "recs (snd (enqueue_incoming t es seen db)) = recs db \<and> links (snd (enqueue_incoming t es seen db)) = links db"
  by (induction es arbitrary: seen db) (simp_all add: Enqueue_other)

lemma enqueue_outgoing_other:
  "recs (enqueue_outgoing t rid es seen db) = recs db \<and> links (enqueue_outgoing t rid es seen db) = links db"
  by (induction es arbitrary: seen db) (simp_all add: Enqueue_other)

lemma DeleteRow_Inr:
  assumes "DeleteRow sv rq tbl rid db = (Inr (), db')"
  obtains t vt where "fst (st_delete_rec rid vt t db) \<noteq> 0"
    "recs db' = recs (snd (st_delete_rec rid vt t db))" "links db' = links (snd (st_delete_rec rid vt t db))"
proof -
  from assms obtain t vt inc out n d1 d2 d3 d4 where
    1: "row_context sv rq tbl db = (Inr (t, vt), d1)" and 2: "or_nil (ListIncoming t rid) d1 = (Inr inc, d2)"
    and 3: "or_nil (ListOutgoing t rid) d2 = (Inr out, d3)" and 4: "dexec (st_delete_rec rid vt t) d3 = (Inr n, d4)" and n: "n \<noteq> 0"
    and 5: "db' = enqueue_outgoing t rid out (fst (enqueue_incoming t inc [] d4)) (snd (enqueue_incoming t inc [] d4))"
    unfolding DeleteRow_def by (auto elim!: dbind_Inr split: prod.splits if_splits)
  have c1: "core d1 = core db" by (rule core_kept [OF reads.keeps_row_context 1])
  have c2: "core d2 = core db" using core_kept [OF reads.keeps_or_nil [OF reads.keeps_ListIncoming] 2] c1 by simp
  have c3: "core d3 = core db" using core_kept [OF reads.keeps_or_nil [OF reads.keeps_row_reads(4)] 3] c2 by simp
  have "recs db' = recs d4" "links db' = links d4" by (simp_all add: 5 enqueue_outgoing_other enqueue_incoming_other)
  moreover have "fst (st_delete_rec rid vt t db) = n" "recs d4 = recs (snd (st_delete_rec rid vt t db))"
    "links d4 = links (snd (st_delete_rec rid vt t db))"
    using dexec_Inr [OF 4] core_eqD [OF c3] by (auto simp: st_delete_rec_def Let_def split: if_splits)
  ultimately show ?thesis using n by (intro that [of vt t]) simp_all
qed



section \<open>Reading what was written\<close>

lemma splitLinkCells_data:
  assumes "splitLinkCells rt cells cols specs = Inr (data, lks)" "map_of cells k = Some v"
    and "k \<notin> col_keys link_col cols \<union> col_keys calc_col cols" "k \<noteq> fulltext_key" "\<not> FinancialMode (spec_of specs k)"
  shows "map_of data k = Some (ValueToAnyForColumn v [])"
  using assms
proof (induction rt cells cols specs arbitrary: data lks rule: splitLinkCells.induct)
  case (2 rt k' v' cells cols specs)
  have n: "NormalizeNumberValue rt w (spec_of specs k) = Inr w" for w
    using "2.prems"(5) by (auto simp: NormalizeNumberValue_def split: option.split)
  from "2.prems"(1) obtain data' lks' where s: "splitLinkCells rt cells cols specs = Inr (data', lks')"
    by (auto split: sum.splits)
  show ?case
  proof (cases "k' = k")
    case True
    then show ?thesis using "2.prems" s n by (auto split: sum.splits if_splits)
  next
    case False
    then have "map_of data' k = Some (ValueToAnyForColumn v [])" using "2.IH" [OF s] "2.prems" by simp
    then show ?thesis using False "2.prems"(1) s by (auto split: sum.splits if_splits)
  qed
qed simp

lemma hydrate_cell_other: "k \<noteq> fc_Name c \<Longrightarrow> map_of (hydrate_cell rt cd ul native lks c out) k = map_of out k"
  by (simp add: hydrate_cell_def Let_def map_of_map_put split: option.split)

lemma hydrate_others: "k \<notin> fc_Name ` set cols \<Longrightarrow> map_of (foldl (\<lambda>out c. hydrate_cell rt cd ul native lks c out) out cols) k = map_of out k"
  by (induction cols arbitrary: out) (simp_all add: hydrate_cell_other)

lemma hydrateCells_scalar:
  assumes "c \<in> set cols" "distinct (map fc_Name cols)" "\<not> link_col c" "\<not> calc_col c" "fc_Name c \<noteq> ''id''"
    and "map_of native (fc_Name c) = Some v"
  shows "map_of (hydrateCells rt cd ul native cols lks) (fc_Name c) = Some (DBCellValue rt ul (UnwrapCache cd v) (fc_PgType c))"
proof -
  obtain as bs where cols: "cols = as @ c # bs" using assms(1) by (meson split_list)
  have "fc_Name c \<notin> fc_Name ` set bs" using assms(2) by (auto simp: cols)
  moreover have "map_of (hydrate_cell rt cd ul native lks c out) (fc_Name c) = Some (DBCellValue rt ul (UnwrapCache cd v) (fc_PgType c))" for out
    using assms(3-6) by (simp add: hydrate_cell_def map_of_map_put)
  ultimately show ?thesis by (simp add: hydrateCells_def cols hydrate_others)
qed

lemma DBCellValue_plain:
  assumes "plain_cell rt n" "\<forall>m. n \<noteq> VObj m" "\<not> isUUIDPgType pg"
  shows "ValueToNative rt (DBCellValue rt ul (UnwrapCache cd n) pg) = n"
proof -
  have "UnwrapCache cd n = n" using assms(1,2) by (cases n) (auto simp: UnwrapCache_def asMap_def)
  moreover have "PGValueToNative rt ul n pg = n" using assms by (cases n) (auto simp: PGValueToNative_def)
  ultimately show ?thesis using NativeToValue_plain [OF assms(1)] by (simp add: DBCellValue_def)
qed

lemma UnwrapCache_object: "\<not> map_has ''_cache_status'' m \<Longrightarrow> UnwrapCache cd (VObj m) = VObj m"
  by (simp add: UnwrapCache_def asMap_def)


definition text_column :: full_column_meta where
  "text_column = \<lparr>fc_Id = ''c1'', fc_TableName = ''t'', fc_Name = ''n'', fc_TypeId = ''text'', fc_Kind = [], fc_PgType = ''text'',
     fc_IsNullable = True, fc_Position = 1, fc_Config = [], fc_IsVirtual = False\<rparr>"


section \<open>Defects\<close>

text \<open>
  A request that holds only cells of calculated columns writes them: the columns are taken out of
  the document, and because it is then empty all cells are put back.
\<close>

lemma calculated_cell_overwritten:
  "map r_data (recs (snd (UpdateRow example_rt (one_doc [(''n'', VStr ''text''), (''f'', VStr ''forged'')]) no_uuids row_env row_request
     ''t'' ''x'' [(''f'', StringValue ''forged'')] example_store))) = [[(''n'', VStr ''text''), (''f'', VStr ''forged'')]]"
  by code_simp

text \<open>When the links cannot be written the handler returns an error and the new record stays.\<close>

definition link_env :: service_env where
  "link_env = row_env\<lparr>sv_meta := (sv_meta row_env)\<lparr>lc_columns := lc_columns (sv_meta row_env) @
     [\<lparr>mc_tenant = ''a'', mc_base = ''b'', mc_table = ''t'', mc_id = ''c3'', mc_name = ''l'', mc_type = ''link'', mc_nullable = True,
       mc_position = 3, mc_config = [(''to_table_name'', VStr ''t''), (''cardinality'', VStr ''many'')]\<rparr>]\<rparr>\<rparr>"

lemma failed_create_leaves_record:
  "map_prod id (\<lambda>d. map r_record (recs d)) (CreateRow example_rt (one_doc [(''n'', VStr ''a'')]) no_uuids link_env row_request ''y'' ''t''
     [(''n'', StringValue ''a''), (''l'', StringValue ''x'')] (example_store\<lparr>faults := replicate 51 None @ [Some ''down'']\<rparr>)) =
   (Inl (DbFault ''down''), [''x'', ''y''])"
  by code_simp

end
