(* ===== verification/Row_Query.thy ===== *)
theory Row_Query
  imports Row_Results SQL_Where
begin

text \<open>
  Queries over the rows of a table (\<open>internal/service/data\<close>: \<open>executeVRQuery\<close> of \<open>vr_rows.go\<close>,
  \<open>vr_filter.go\<close>, \<open>limits.go\<close>, \<open>query.go\<close>, \<open>row.go\<close> and the export of \<open>bulk.go\<close>).

  How PostgreSQL evaluates a generated condition on a row is a parameter \<open>sat\<close>, which sees the
  store because a condition may look at links. Record ids are compared character by character;
  the results hold for any linear order. The times of creation and of the last change of a
  record are a parameter \<open>stamps\<close>: the database sets them.
\<close>

section \<open>Conditions over documents\<close>

definition vrRecordAlias :: string where "vrRecordAlias = ''_r''"

text \<open>A text as an SQL literal.\<close>

definition jsonbKeyLit :: "string \<Rightarrow> string" where
  "jsonbKeyLit name = [CHR 0x27] @ replace_char CHR 0x27 [CHR 0x27, CHR 0x27] name @ [CHR 0x27]"

definition sql_str :: "string \<Rightarrow> string" where
  "sql_str s = [CHR 0x27] @ s @ [CHR 0x27]"

definition nl :: string where "nl = [CHR 0x0A]"

definition vrLinkIDsExpr :: "string \<Rightarrow> string \<Rightarrow> string" where
  "vrLinkIDsExpr linkRef fieldKey =
     ''COALESCE(('' @ nl @ [CHR 0x09, CHR 0x09] @ ''SELECT array_agg(lr.to_record_id)'' @ nl @ [CHR 0x09, CHR 0x09] @ ''FROM '' @ linkRef @ '' lr'' @ nl @
     [CHR 0x09, CHR 0x09] @ ''WHERE lr.tenant_id = '' @ vrRecordAlias @ ''.tenant_id'' @ nl @
     [CHR 0x09, CHR 0x09] @ ''  AND lr.from_record_id = '' @ vrRecordAlias @ ''.record_id'' @ nl @
     [CHR 0x09, CHR 0x09] @ ''  AND lr.from_field_id = '' @ jsonbKeyLit fieldKey @ nl @ [CHR 0x09] @ ''), '' @ sql_str ''{}'' @ ''::text[])''"

definition vrTypedScalarExpr :: "string \<Rightarrow> string \<Rightarrow> string" where
  "vrTypedScalarExpr name pgType =
     (let k = jsonbKeyLit name; d = vrRecordAlias @ ''.data'';
          base = ''(CASE WHEN jsonb_typeof('' @ d @ ''->'' @ k @ '')='' @ sql_str ''object'' @ '' AND ('' @ d @ ''->'' @ k @ '') ? '' @
            sql_str ''value'' @ '' THEN '' @ d @ ''->'' @ k @ ''->>'' @ sql_str ''value'' @ '' ELSE '' @ d @ ''->>'' @ k @ '' END)'';
          t = to_lower (trim_space pgType)
      in if t \<in> {''numeric'', ''bigint'', ''integer'', ''int4'', ''int8'', ''double precision'', ''float8''} then ''('' @ base @ '')::numeric''
         else if t \<in> {''boolean'', ''bool''} then ''('' @ base @ '')::boolean''
         else if t \<in> {''timestamptz'', ''timestamp with time zone'', ''timestamp'', ''date''} then ''('' @ base @ '')::timestamptz''
         else base)"

definition tabs :: "nat \<Rightarrow> string" where "tabs n = replicate n CHR 0x09"

definition vrArrayExpr :: "string \<Rightarrow> string \<Rightarrow> string" where
  "vrArrayExpr name arrayPgType =
     (let k = jsonbKeyLit name; d = vrRecordAlias @ ''.data->'' @ k;
          c0 = trim_space arrayPgType;
          cast = (if c0 = [] \<or> \<not> has_suffix (to_lower c0) ''[]'' then ''text[]'' else c0)
      in ''COALESCE(('' @ nl @ tabs 2 @ ''CASE'' @ nl @ tabs 3 @ ''WHEN jsonb_typeof('' @ d @ '')='' @ sql_str ''array'' @ '' THEN'' @ nl @
         tabs 4 @ ''ARRAY(SELECT jsonb_array_elements_text('' @ d @ ''))'' @ nl @
         tabs 3 @ ''WHEN jsonb_typeof('' @ d @ '')='' @ sql_str ''object'' @ '' AND ('' @ d @ '') ? '' @ sql_str ''value'' @ '' AND jsonb_typeof('' @ d @ ''->'' @
         sql_str ''value'' @ '')='' @ sql_str ''array'' @ '' THEN'' @ nl @ tabs 4 @ ''ARRAY(SELECT jsonb_array_elements_text('' @ d @ ''->'' @ sql_str ''value'' @
         ''))'' @ nl @ tabs 3 @ ''ELSE NULL'' @ nl @ tabs 2 @ ''END'' @ nl @ tabs 1 @ '')::'' @ cast @ '', '' @ sql_str ''{}'' @ ''::'' @ cast @ '')'')"

text \<open>The attributes a filter may name, with the expression and the type of each.\<close>

definition fixed_attrs :: "strmap \<times> strmap" where
  "fixed_attrs =
     ([(''id'', vrRecordAlias @ ''.record_id''), (''record_id'', vrRecordAlias @ ''.record_id''),
       (''created_at'', vrRecordAlias @ ''.created_at''), (''updated_at'', vrRecordAlias @ ''.updated_at''),
       (fulltext_key, ''COALESCE('' @ vrRecordAlias @ ''.data->>'' @ sql_str fulltext_key @ '','' @ sql_str [] @ '')'')],
      [(''id'', ''text''), (''record_id'', ''text''), (''created_at'', ''timestamptz''), (''updated_at'', ''timestamptz''), (fulltext_key, ''text'')])"

definition column_expr :: "runtime \<Rightarrow> string \<Rightarrow> phys_column \<Rightarrow> string \<times> string" where
  "column_expr rt linkRef c =
     (if IsLinkType (pc_TypeId c) then (vrLinkIDsExpr linkRef (pc_Name c), ''text[]'')
      else let p0 = trim_space (pc_PgType c); p = (if p0 = [] then VirtualColumnPgType rt (pc_TypeId c) [] else p0)
        in (if has_suffix (to_lower p) ''[]'' then vrArrayExpr (pc_Name c) p else vrTypedScalarExpr (pc_Name c) p, p))"

definition put_id :: "string \<Rightarrow> string \<Rightarrow> strmap \<Rightarrow> strmap" where
  "put_id i v m = (if i \<noteq> [] then map_put i v m else m)"

fun add_column_attrs :: "runtime \<Rightarrow> string \<Rightarrow> phys_column list \<Rightarrow> strmap \<times> strmap \<Rightarrow> strmap \<times> strmap" where
  "add_column_attrs rt linkRef [] m = m"
| "add_column_attrs rt linkRef (c # cs) (A, T) =
     (if pc_Name c \<in> {[], ''id'', ''record_id'', ''created_at'', ''updated_at''} then
        add_column_attrs rt linkRef cs
          (if pc_Name c \<in> {''created_at'', ''updated_at''} \<and> pc_Id c \<noteq> [] \<and> pc_Id c \<noteq> pc_Name c
           then (map_put (pc_Id c) (vrRecordAlias @ ''.'' @ pc_Name c) A, map_put (pc_Id c) ''timestamptz'' T) else (A, T))
      else (case column_expr rt linkRef c of (expr, pg) \<Rightarrow>
        add_column_attrs rt linkRef cs
          (put_id (pc_Id c) expr (map_put (pc_Name c) expr A),
           if pg \<noteq> [] then put_id (pc_Id c) pg (map_put (pc_Name c) pg T) else T)))"

definition vrFilterAttrMaps :: "runtime \<Rightarrow> (string \<Rightarrow> string) \<Rightarrow> phys_column list \<Rightarrow> string \<Rightarrow> strmap \<times> strmap" where
  "vrFilterAttrMaps rt san cols linkRef0 =
     add_column_attrs rt (if trim_space linkRef0 = [] then san ''link_ref'' else linkRef0) cols fixed_attrs"

definition filterColumnPgType :: "runtime \<Rightarrow> full_column_meta \<Rightarrow> string" where
  "filterColumnPgType rt c = (let pg = VirtualColumnPgType rt (fc_TypeId c) (fc_Config c) in if pg \<noteq> [] then pg else fc_PgType c)"

definition vrFilterColumns :: "runtime \<Rightarrow> phys_column list \<Rightarrow> full_column_meta list \<Rightarrow> phys_column list" where
  "vrFilterColumns rt phys all =
     (if all = [] then phys
      else map (\<lambda>c. \<lparr>pc_Id = fc_Id c, pc_TableName = fc_TableName c, pc_Name = fc_Name c, pc_TypeId = fc_TypeId c,
                     pc_PgType = filterColumnPgType rt c, pc_IsNullable = fc_IsNullable c, pc_Position = fc_Position c\<rparr>)
             (filter (\<lambda>c. fc_Name c \<noteq> []) all))"

text \<open>The condition of a filter, empty when it does not restrict anything.\<close>

definition vrFilterSQLOn ::
    "runtime \<Rightarrow> codec \<Rightarrow> (string \<Rightarrow> string) \<Rightarrow> goobj \<Rightarrow> phys_column list \<Rightarrow> string \<Rightarrow> nat \<Rightarrow> cond" where
  "vrFilterSQLOn rt cd san flt cols linkRef argN =
     (if flt = [] then Inr ([], [])
      else (case dsl_Parse rt cd (VObj flt) of
          Inl e \<Rightarrow> Inl e
        | Inr w \<Rightarrow>
            if wType w = [] then Inr ([], [])
            else (case vrFilterAttrMaps rt san cols linkRef of (A, T) \<Rightarrow>
              (case BuildWhereWithTypes rt san A T w argN of
                 Inl e \<Rightarrow> Inl e
               | Inr (sql, args) \<Rightarrow> if trim_space (render sql) = [] then Inr ([], []) else Inr (sql, args)))))"

section \<open>One page\<close>

record query_limits =
  ql_MaxRow :: int
  ql_MaxScanRows :: int

definition maxScanRows :: "query_limits \<Rightarrow> int" where
  "maxScanRows ql = (if ql_MaxScanRows ql > 0 then ql_MaxScanRows ql else if ql_MaxRow ql > 0 then ql_MaxRow ql else 1000)"

definition min32 :: "int \<Rightarrow> int \<Rightarrow> int" where
  "min32 a b = (if a < b then a else b)"

record sort_order =
  so_Attribute :: string
  so_SortOrder :: string

record query_spec =
  qs_TableName :: string
  qs_Filter :: "goobj option"
  qs_Sort :: "sort_order list"
  qs_ColumnIds :: "string list"
  qs_ColumnRestrict :: bool
  qs_PageSize :: int
  qs_PageToken :: string

definition default_page :: "query_limits \<Rightarrow> int \<Rightarrow> int" where
  "default_page ql n = (let p = (if n \<le> 0 then ql_MaxRow ql else n) in if p \<le> 0 then 100 else p)"

definition scan_error :: "int \<Rightarrow> int \<Rightarrow> string" where
  "scan_error n m = ''pageSize '' @ itoa n @ '' exceeds max scan rows '' @ itoa m"

definition page_size :: "query_limits \<Rightarrow> query_spec \<Rightarrow> string + int" where
  "page_size ql q =
     (let m = maxScanRows ql; p0 = default_page ql (qs_PageSize q); p = (if p0 > m then m else p0) in
      if qs_PageSize q > m then Inl (scan_error (qs_PageSize q) m)
      else Inr (if (qs_Filter q = None \<or> qs_Filter q = Some []) \<and> qs_PageToken q = [] \<and> qs_PageSize q \<le> 0 then min32 p m else p))"

type_synonym evaluator = "calc_db \<Rightarrow> sql \<Rightarrow> goany list \<Rightarrow> rec_row \<Rightarrow> bool"

text \<open>The rows that the query scans, in the order of their ids.\<close>

definition matching :: "evaluator \<Rightarrow> string \<Rightarrow> string \<Rightarrow> string \<Rightarrow> sql \<times> goany list \<Rightarrow> calc_db \<Rightarrow> rec_row list" where
  "matching sat vt tenant token = (\<lambda>(cond, args) db.
     sort_key r_record (filter (\<lambda>r. r_vt r = vt \<and> r_tenant r = tenant \<and> (token = [] \<or> token < r_record r) \<and> (cond = [] \<or> sat db cond args r))
       (recs db)))"

record query_result =
  qr_Rows :: "row list"
  qr_NextPageToken :: string
  qr_Count :: int

definition to_utc :: "runtime \<Rightarrow> gotime \<Rightarrow> gotime" where
  "to_utc rt t = t\<lparr>tsec := tsec t - rt_zone_offset rt (tzone t) (tsec t), tzone := ''UTC''\<rparr>"

definition put_stamp :: "runtime \<Rightarrow> string \<Rightarrow> gotime \<Rightarrow> goobj \<Rightarrow> goobj" where
  "put_stamp rt k t m =
     (if \<not> map_has k m \<and> \<not> time_IsZero rt t then map_put k (VStr (rt_format_time rt RFC3339Nano (to_utc rt t))) m else m)"

definition stamped :: "runtime \<Rightarrow> (string \<Rightarrow> gotime \<times> gotime) \<Rightarrow> rec_row \<Rightarrow> goobj" where
  "stamped rt stamps r =
     (case stamps (r_record r) of (c, u) \<Rightarrow> put_stamp rt ''updated_at'' u (put_stamp rt ''created_at'' c (r_data r)))"

definition row_of_rec ::
    "runtime \<Rightarrow> codec \<Rightarrow> uuid_lib \<Rightarrow> (string \<Rightarrow> gotime \<times> gotime) \<Rightarrow> full_column_meta list \<Rightarrow> (string \<times> bool) list \<Rightarrow>
      (string \<times> link_cells) list \<Rightarrow> rec_row \<Rightarrow> row" where
  "row_of_rec rt cd ul stamps cols pend lks r =
     (let p = (map_of pend (r_record r) = Some True) in
      \<lparr>rw_Id = r_record r, rw_Version = r_version r, rw_Pending = p,
       rw_Cells = hydrateCells rt cd ul (stamped rt stamps r) cols (case map_of lks (r_record r) of None \<Rightarrow> [] | Some m \<Rightarrow> m)\<rparr>)"

text \<open>The rows up to the page size, and the id of the last scanned row when one was cut off.\<close>

definition cut_page :: "int \<Rightarrow> row list \<Rightarrow> row list \<times> string" where
  "cut_page pageSize rows =
     (if int (length rows) > pageSize then (take (nat pageSize) rows, rw_Id (last rows)) else (rows, []))"

text \<open>What a query resolves before it looks at the page: the relations, tenant, table and columns.\<close>

definition query_context ::
    "runtime \<Rightarrow> service_env \<Rightarrow> request_ctx \<Rightarrow> string \<Rightarrow> (data_tables \<times> string \<times> string \<times> phys_column list \<times> full_column_meta list) db_op" where
  "query_context rt sv rq tableName =
     dbind (DataTables (sv_tenants sv) rq) (\<lambda>tables.
     dbind (resolveVRContext sv rq tableName) (\<lambda>(tenantID, vtID).
     dbind (DataPool sv rq) (\<lambda>_.
     dbind (LoadColumns rt sv rq tableName) (\<lambda>phys.
     dbind (or_nil (LoadAllColumnMeta rt sv rq tableName)) (\<lambda>allCols.
       ret (tables, tenantID, vtID, phys, allCols))))))"

definition query_cond ::
    "runtime \<Rightarrow> codec \<Rightarrow> (string \<Rightarrow> string) \<Rightarrow> data_tables \<Rightarrow> phys_column list \<Rightarrow> full_column_meta list \<Rightarrow> query_spec \<Rightarrow> cond" where
  "query_cond rt cd san tables phys allCols q =
     (case qs_Filter q of
        None \<Rightarrow> Inr ([], [])
      | Some f \<Rightarrow> vrFilterSQLOn rt cd san f (vrFilterColumns rt phys allCols) (san (dt_LinkRef tables)) (if qs_PageToken q = [] then 3 else 4))"

definition query_page ::
    "(full_column_meta list \<Rightarrow> (string \<times> bool) list \<Rightarrow> (string \<times> link_cells) list \<Rightarrow> rec_row \<Rightarrow> row) \<Rightarrow> query_limits \<Rightarrow> string \<Rightarrow>
      full_column_meta list \<Rightarrow> int \<Rightarrow> (calc_db \<Rightarrow> rec_row list) \<Rightarrow> query_result db_op" where
  "query_page mk ql tenantID allCols pageSize rows =
     (let lim = int32_of (pageSize + 1) in
      dbind (dquery (\<lambda>db. min (int (length (rows db))) (maxScanRows ql))) (\<lambda>total.
        if lim < 0 then fail (DbFault ''LIMIT must not be negative'')
        else
          dbind (dquery (\<lambda>db. take (nat lim) (rows db))) (\<lambda>scanned.
          dbind (or_nil (PendingRecordIDs (map r_record scanned))) (\<lambda>pend.
          dbind (or_nil (LinksByRecords tenantID (map r_record scanned))) (\<lambda>lks.
            case cut_page pageSize (map (mk allCols pend lks) scanned) of
              (page, token) \<Rightarrow> ret \<lparr>qr_Rows = page, qr_NextPageToken = token, qr_Count = total\<rparr>)))))"

definition executeVRQuery ::
    "runtime \<Rightarrow> codec \<Rightarrow> uuid_lib \<Rightarrow> (string \<Rightarrow> string) \<Rightarrow> evaluator \<Rightarrow> (string \<Rightarrow> gotime \<times> gotime) \<Rightarrow> query_limits \<Rightarrow> service_env \<Rightarrow>
      request_ctx \<Rightarrow> query_spec \<Rightarrow> query_result db_op" where
  "executeVRQuery rt cd ul san sat stamps ql sv rq q =
     dbind (query_context rt sv rq (qs_TableName q)) (\<lambda>(tables, tenantID, vtID, phys, allCols).
       case page_size ql q of
         Inl e \<Rightarrow> fail (CalcErr e)
       | Inr pageSize \<Rightarrow>
           (case query_cond rt cd san tables phys allCols q of
              Inl e \<Rightarrow> fail (CalcErr e)
            | Inr cond \<Rightarrow> query_page (row_of_rec rt cd ul stamps) ql tenantID allCols pageSize
                (matching sat vtID tenantID (qs_PageToken q) cond)))"

section \<open>Pages\<close>

text \<open>Without faults, reading leaves the store exactly as it is.\<close>

interpretation quiet: db_read "\<lambda>d. faults d0 = [] \<longrightarrow> d = d0" for d0
  by unfold_locales auto

lemma quiet_kept: "(\<And>d0. keeps (\<lambda>d. faults d0 = [] \<longrightarrow> d = d0) m) \<Longrightarrow> faults db = [] \<Longrightarrow> m db = (res, db') \<Longrightarrow> db' = db"
  using keepsD [of "\<lambda>d. faults db = [] \<longrightarrow> d = db" m db res db'] by blast

lemma min32_cap: "min32 (if a > m then m else a) m = (if a > m then m else a)"
  by (simp add: min32_def)

lemma page_size_alt:
  "page_size ql q =
     (if qs_PageSize q > maxScanRows ql then Inl (scan_error (qs_PageSize q) (maxScanRows ql))
      else Inr (if default_page ql (qs_PageSize q) > maxScanRows ql then maxScanRows ql else default_page ql (qs_PageSize q)))"
  unfolding page_size_def Let_def min32_cap if_cancel ..

lemma page_size_bounds:
  assumes "page_size ql q = Inr p"
  shows "0 < p \<and> p \<le> maxScanRows ql"
proof -
  have "0 < maxScanRows ql" by (simp add: maxScanRows_def)
  moreover have "0 < default_page ql (qs_PageSize q)" by (simp add: default_page_def Let_def)
  ultimately show ?thesis using assms by (simp add: page_size_alt split: if_splits)
qed

lemma page_size_token: "page_size ql (q\<lparr>qs_PageToken := tok\<rparr>) = page_size ql q"
  by (simp add: page_size_alt)

lemma cut_page_ids:
  assumes "0 < p" "length ids \<le> Suc (nat p)" "map rw_Id rows = ids"
  shows "map rw_Id (fst (cut_page p rows)) = take (nat p) ids \<and> snd (cut_page p rows) = (if length ids > nat p then ids ! nat p else [])"
proof -
  have l: "length rows = length ids" using assms(3) by auto
  have "rw_Id (last rows) = ids ! nat p" if "length rows > nat p"
  proof -
    have "length rows = Suc (nat p)" using that assms(2) l by simp
    moreover from this have "rows \<noteq> []" by auto
    ultimately show ?thesis using assms(3) by (metis diff_Suc_1 last_conv_nth lessI nth_map)
  qed
  note last_id = this
  have c: "int (length rows) > p \<longleftrightarrow> nat p < length rows" using assms(1) by linarith
  show ?thesis
  proof (cases "nat p < length rows")
    case True
    then have "cut_page p rows = (take (nat p) rows, rw_Id (last rows))" by (simp add: cut_page_def c)
    moreover have "map rw_Id (take (nat p) rows) = take (nat p) ids" by (metis assms(3) take_map)
    moreover have "rw_Id (last rows) = ids ! nat p" by (rule last_id [OF True])
    moreover have "nat p < length ids" using True l by simp
    ultimately show ?thesis by (simp only: fst_conv snd_conv if_True simp_thms)
  next
    case False
    then have "cut_page p rows = (rows, [])" by (simp add: cut_page_def c)
    then show ?thesis using False l assms(3) by simp
  qed
qed

lemma int32_next: "0 < p \<Longrightarrow> p + 1 < 2 ^ 31 \<Longrightarrow> int32_of (p + 1) = p + 1"
  by (rule int32_of_id) simp_all

text \<open>A page that is delivered: the first ids after the token, and the id of the next row as the new token.\<close>

lemma query_page_ids:
  assumes "query_page mk ql t cols p rows db = (r, db')" "faults db = []" "0 < p" "p + 1 < 2 ^ 31"
    and mk: "\<And>pend lks x. rw_Id (mk cols pend lks x) = r_record x"
  shows "db' = db \<and> (\<exists>res. r = Inr res \<and> map rw_Id (qr_Rows res) = take (nat p) (map r_record (rows db)) \<and>
    qr_NextPageToken res = (if length (rows db) > nat p then r_record (rows db ! nat p) else []))"
proof -
  let ?sc = "take (nat (p + 1)) (rows db)"
  obtain pend d1 where p1: "or_nil (PendingRecordIDs (map r_record ?sc)) db = (pend, d1)" by fastforce
  have "keeps (\<lambda>d. faults d0 = [] \<longrightarrow> d = d0) (PendingRecordIDs ids)" for d0 ids
    unfolding PendingRecordIDs_def by (intro keep_rules quiet.read_query)
  from quiet_kept [OF quiet.keeps_or_nil [OF this] assms(2) p1] have d1: "d1 = db" .
  have "\<exists>x. pend = Inr x" using p1 unfolding or_nil_def by (auto split: prod.splits sum.splits)
  then obtain pe where pe: "pend = Inr pe" by blast
  obtain lk d2 where p2: "or_nil (LinksByRecords t (map r_record ?sc)) db = (lk, d2)" by fastforce
  from quiet_kept [OF quiet.keeps_or_nil [OF quiet.keeps_row_reads(3)] assms(2) p2] have d2: "d2 = db" .
  have "\<exists>x. lk = Inr x" using p2 unfolding or_nil_def by (auto split: prod.splits sum.splits)
  then obtain lks where lk: "lk = Inr lks" by blast
  let ?rows = "map (mk cols pe lks) ?sc"
  have q: "query_page mk ql t cols p rows db =
      (Inr \<lparr>qr_Rows = fst (cut_page p ?rows), qr_NextPageToken = snd (cut_page p ?rows),
        qr_Count = min (int (length (rows db))) (maxScanRows ql)\<rparr>, db)"
    using assms(2-4) p1 p2 d1 d2 pe lk
    by (simp add: query_page_def Let_def int32_next dbind_def dquery_ok split: prod.split)
  have i: "map rw_Id ?rows = map r_record ?sc" by (simp add: mk)
  have n: "nat (p + 1) = Suc (nat p)" using assms(3) by simp
  from cut_page_ids [OF assms(3) _ i] have
    "map rw_Id (fst (cut_page p ?rows)) = take (nat p) (map r_record ?sc)"
    "snd (cut_page p ?rows) = (if length ?sc > nat p then map r_record ?sc ! nat p else [])"
    by (simp_all add: n)
  then show ?thesis using q assms(1) by (auto simp: n take_map)
qed

end
