(* ===== verification/Row_Export.thy ===== *)
theory Row_Export
  imports Row_Query
begin

text \<open>
  The requests that build on a query: listing, full text search and the export of a table
  (\<open>internal/service/data\<close>: \<open>row.go\<close>, \<open>query.go\<close>, \<open>bulk.go\<close>, \<open>RowToMap\<close> of \<open>row_types.go\<close>,
  \<open>mergeFilters\<close> of \<open>query_exec.go\<close>). The export walks over the pages of a query and writes JSON
  or CSV (\<open>encoding/csv\<close>: fields are quoted when they hold a comma, a quote or a line break, or
  start with a space) to a buffer, which never fails.

  The loop of the export runs on fuel: every round exports a row, so the rows that are still
  allowed are enough of it (\<open>export_fuel\<close>).
\<close>

section \<open>Requests over queries\<close>

text \<open>A handler of queries; \<open>executeVRQuery\<close> with its environment is one.\<close>

type_synonym query_handler = "query_spec \<Rightarrow> query_result db_op"

definition mergeFilters :: "goobj option \<Rightarrow> goobj option \<Rightarrow> goobj option" where
  "mergeFilters base extra =
     (case base of None \<Rightarrow> extra | Some b \<Rightarrow> if b = [] then extra else
     (case extra of None \<Rightarrow> base | Some e \<Rightarrow> if e = [] then base else
       Some [(''type'', VStr ''AND''), (''val'', VArr [VObj b, VObj e])]))"

definition QueryRows ::
    "query_handler \<Rightarrow> string \<Rightarrow> goobj option \<Rightarrow> sort_order list \<Rightarrow> string list \<Rightarrow> int \<Rightarrow> string \<Rightarrow> query_result db_op" where
  "QueryRows executeQuery tableName flt srt colIds pageSize pageToken =
     executeQuery \<lparr>qs_TableName = tableName, qs_Filter = flt, qs_Sort = srt, qs_ColumnIds = colIds, qs_ColumnRestrict = False,
       qs_PageSize = pageSize, qs_PageToken = pageToken\<rparr>"

definition ListRows :: "query_handler \<Rightarrow> string \<Rightarrow> int \<Rightarrow> string \<Rightarrow> (row list \<times> string) db_op" where
  "ListRows qh tableName pageSize pageToken =
     dbind (QueryRows qh tableName None [] [] pageSize pageToken) (\<lambda>q. ret (qr_Rows q, qr_NextPageToken q))"

definition SearchRows :: "query_handler \<Rightarrow> string \<Rightarrow> string \<Rightarrow> goobj option \<Rightarrow> int \<Rightarrow> string \<Rightarrow> (row list \<times> string) db_op" where
  "SearchRows qh tableName query flt pageSize pageToken =
     (let q = trim_space query; f = Some [(''type'', VStr ''FTS''), (''attr'', VStr fulltext_key), (''val'', VStr q)] in
      if tableName = [] then fail (CalcErr ''table_name is required'')
      else if q = [] then fail (CalcErr ''query is required'')
      else dbind (QueryRows qh tableName (if flt = None then f else mergeFilters f flt) [] [] pageSize pageToken)
        (\<lambda>r. ret (qr_Rows r, qr_NextPageToken r)))"

section \<open>Writing rows\<close>

definition RowToMap :: "runtime \<Rightarrow> row \<Rightarrow> goobj" where
  "RowToMap rt r = fold (\<lambda>(k, v). map_put k (ValueToNative rt v)) (rw_Cells r) [(''id'', VStr (rw_Id r))]"

text \<open>Columns in the order in which they are first met.\<close>

definition csvColumnOrder :: "goobj list \<Rightarrow> string list" where
  "csvColumnOrder rows =
     fold (\<lambda>row order. fold (\<lambda>(k, _) o'. if k \<in> set o' then o' else o' @ [k]) row order) rows [''id'']"

definition csv_special :: "char \<Rightarrow> bool" where
  "csv_special c = (c \<in> {CHR '','', CHR 0x22, CHR 0x0A, CHR 0x0D})"

definition fieldNeedsQuotes :: "string \<Rightarrow> bool" where
  "fieldNeedsQuotes s = (s \<noteq> [] \<and> (s = [CHR 0x5C, CHR ''.''] \<or> list_ex csv_special s \<or> is_space (hd s)))"

definition csv_field :: "string \<Rightarrow> string" where
  "csv_field s =
     (if fieldNeedsQuotes s then [CHR 0x22] @ replace_char CHR 0x22 [CHR 0x22, CHR 0x22] s @ [CHR 0x22] else s)"

definition csv_line :: "string list \<Rightarrow> string" where
  "csv_line fs = join '','' (map csv_field fs) @ [CHR 0x0A]"

definition csv_record :: "runtime \<Rightarrow> string list \<Rightarrow> goobj \<Rightarrow> string list" where
  "csv_record rt cols m =
     map (\<lambda>c. case map_of m c of None \<Rightarrow> [] | Some v \<Rightarrow> if v = VNil then [] else sprint rt v) cols"

record export_state =
  es_out :: string
  es_exported :: int
  es_jsonStarted :: bool
  es_comma :: bool
  es_csvCols :: "string list option"

definition export_start :: export_state where
  "export_start = \<lparr>es_out = [], es_exported = 0, es_jsonStarted = False, es_comma = False, es_csvCols = None\<rparr>"

definition write_row :: "runtime \<Rightarrow> codec \<Rightarrow> string \<Rightarrow> row \<Rightarrow> export_state \<Rightarrow> cerr + export_state" where
  "write_row rt cd fmt r st =
     (let m = RowToMap rt r in
      if fmt = ''json'' then
        (case cd_marshal cd (VObj m) of
           Inl e \<Rightarrow> Inl (ErrMarshal e)
         | Inr b \<Rightarrow> Inr (st\<lparr>es_out := es_out st @ (if es_jsonStarted st then [] else ''['') @ (if es_comma st then '','' else []) @ b,
             es_jsonStarted := True, es_comma := True, es_exported := es_exported st + 1\<rparr>))
      else
        (case es_csvCols st of
           None \<Rightarrow> let cols = csvColumnOrder [m] in
             Inr (st\<lparr>es_out := es_out st @ csv_line cols @ csv_line (csv_record rt cols m), es_csvCols := Some cols,
               es_exported := es_exported st + 1\<rparr>)
         | Some cols \<Rightarrow> Inr (st\<lparr>es_out := es_out st @ csv_line (csv_record rt cols m), es_exported := es_exported st + 1\<rparr>)))"

fun write_page :: "(row \<Rightarrow> export_state \<Rightarrow> cerr + export_state) \<Rightarrow> int \<Rightarrow> row list \<Rightarrow> export_state \<Rightarrow> cerr + export_state" where
  "write_page wr maxRows [] st = Inr st"
| "write_page wr maxRows (r # rs) st =
     (case wr r st of
        Inl e \<Rightarrow> Inl e
      | Inr st' \<Rightarrow> if es_exported st' \<ge> maxRows then Inr st' else write_page wr maxRows rs st')"

section \<open>The export\<close>

definition lift_result :: "cerr + 'a \<Rightarrow> 'a db_op" where
  "lift_result r = (case r of Inl e \<Rightarrow> fail e | Inr x \<Rightarrow> ret x)"

fun export_loop ::
    "(int \<Rightarrow> string \<Rightarrow> query_result db_op) \<Rightarrow> (row \<Rightarrow> export_state \<Rightarrow> cerr + export_state) \<Rightarrow> int \<Rightarrow> int \<Rightarrow> nat \<Rightarrow> string \<Rightarrow> export_state \<Rightarrow>
      export_state db_op" where
  "export_loop qry wr maxRows pageSize 0 token st = ret st"
| "export_loop qry wr maxRows pageSize (Suc n) token st =
     (if es_exported st \<ge> maxRows then ret st
      else dbind (qry (min (int32_of (maxRows - es_exported st)) pageSize) token) (\<lambda>q.
        if qr_Rows q = [] then ret st
        else dbind (lift_result (write_page wr maxRows (qr_Rows q) st)) (\<lambda>st'.
          if qr_NextPageToken q = [] then ret st'
          else export_loop qry wr maxRows pageSize n (qr_NextPageToken q) st')))"

definition export_end :: "string \<Rightarrow> export_state \<Rightarrow> string" where
  "export_end fmt st =
     (if fmt = ''json'' then es_out st @ (if es_jsonStarted st then '']'' else ''[]'') else es_out st)"

definition export_limit :: "int \<Rightarrow> int" where
  "export_limit n = (if n \<le> 0 then 100000 else n)"

definition ExportRows ::
    "runtime \<Rightarrow> codec \<Rightarrow> query_handler \<Rightarrow> query_limits \<Rightarrow> int \<Rightarrow> string \<Rightarrow> string \<Rightarrow> goobj option \<Rightarrow> string list \<Rightarrow> (string \<times> string) db_op" where
  "ExportRows rt cd qh ql maxExportRows tableName fmt0 flt colIds =
     (if tableName = [] then fail (CalcErr ''table_name is required'')
      else let f = to_lower (trim_space fmt0); fmt = (if f = [] then ''json'' else f); m = export_limit maxExportRows in
        if fmt \<noteq> ''json'' \<and> fmt \<noteq> ''csv'' then fail (CalcErr (''unsupported export format '' @ quoted fmt0))
        else dbind (export_loop (QueryRows qh tableName flt [] colIds) (write_row rt cd fmt) m (maxScanRows ql) (nat m) [] export_start)
          (\<lambda>st. ret (fmt, export_end fmt st)))"

section \<open>The rounds of the export\<close>

fun write_all :: "(row \<Rightarrow> export_state \<Rightarrow> cerr + export_state) \<Rightarrow> row list \<Rightarrow> export_state \<Rightarrow> cerr + export_state" where
  "write_all wr [] st = Inr st"
| "write_all wr (r # rs) st = (case wr r st of Inl e \<Rightarrow> Inl e | Inr st' \<Rightarrow> write_all wr rs st')"

definition counts :: "(row \<Rightarrow> export_state \<Rightarrow> cerr + export_state) \<Rightarrow> bool" where
  "counts wr \<longleftrightarrow> (\<forall>r st st'. wr r st = Inr st' \<longrightarrow> es_exported st' = es_exported st + 1)"

lemma write_row_counts: "counts (write_row rt cd fmt)"
  unfolding counts_def write_row_def Let_def by (auto split: if_splits sum.splits option.splits)

lemma write_all_append:
  "write_all wr (xs @ ys) st = (case write_all wr xs st of Inl e \<Rightarrow> Inl e | Inr st' \<Rightarrow> write_all wr ys st')"
  by (induction xs arbitrary: st) (auto split: sum.split)

lemma write_all_count: "counts wr \<Longrightarrow> write_all wr rows st = Inr st' \<Longrightarrow> es_exported st' = es_exported st + int (length rows)"
  by (induction rows arbitrary: st) (auto simp: counts_def split: sum.splits)

lemma write_page_all:
  "counts wr \<Longrightarrow> es_exported st < m \<Longrightarrow> write_page wr m rows st = write_all wr (take (nat (m - es_exported st)) rows) st"
proof (induction rows arbitrary: st)
  case (Cons r rs)
  show ?case
  proof (cases "wr r st")
    case (Inr st')
    then have c: "es_exported st' = es_exported st + 1" using Cons.prems(1) by (simp add: counts_def)
    have n: "nat (m - es_exported st) = Suc (nat (m - es_exported st'))" using c Cons.prems(2) by simp
    show ?thesis using Cons.IH [OF Cons.prems(1), of st'] Inr by (auto simp: n)
  qed (use Cons.prems in \<open>simp add: take_Cons split: nat.split\<close>)
qed simp

text \<open>Every round exports a row: more fuel than the rows still allowed changes nothing.\<close>

lemma export_fuel:
  assumes "counts wr" "nat (m - es_exported st) \<le> n"
  shows "export_loop qry wr m p n tok st = export_loop qry wr m p (nat (m - es_exported st)) tok st"
  using assms(2)
proof (induction n arbitrary: tok st rule: less_induct)
  case (less n)
  show ?case
  proof (cases "es_exported st \<ge> m")
    case True
    then show ?thesis by (cases n) simp_all
  next
    case False
    then obtain k where k: "nat (m - es_exported st) = Suc k" by (metis not_le gr0_conv_Suc zero_less_nat_eq diff_gt_0_iff_gt)
    then obtain n' where n': "n = Suc n'" "k \<le> n'" using less.prems by (cases n) auto
    have "export_loop qry wr m p n' t s = export_loop qry wr m p k t s"
      if "write_page wr m rows st = Inr s" "rows \<noteq> []" for t s rows
    proof -
      have "es_exported s = es_exported st + int (length (take (Suc k) rows))"
        using write_all_count [OF assms(1)] that(1) write_page_all [OF assms(1)] False k by (metis not_le)
      moreover have "length (take (Suc k) rows) > 0" using that(2) by simp
      ultimately have "nat (m - es_exported s) \<le> k" using k by linarith
      then show ?thesis using less.IH [of n' s t] less.IH [of k s t] n' less.prems k by simp
    qed
    then show ?thesis
      unfolding k n'(1) export_loop.simps lift_result_def dbind_def fail_def ret_def fun_eq_iff
      by (auto split: sum.split prod.split)
  qed
qed

section \<open>What an export contains\<close>

text \<open>The pages of the given size, each followed by an element that is left out.\<close>

function skip_every :: "nat \<Rightarrow> 'a list \<Rightarrow> 'a list" where
  "skip_every p [] = []"
| "skip_every p (x # xs) = take p (x # xs) @ skip_every p (drop (Suc p) (x # xs))"
  by pat_completeness auto
termination by (relation "measure (length \<circ> snd)") auto

lemma skip_every_unfold: "skip_every p xs = take p xs @ skip_every p (drop (Suc p) xs)"
  by (cases xs) simp_all

lemma skip_every_all: "length xs \<le> p \<Longrightarrow> skip_every p xs = xs"
  by (subst skip_every_unfold) simp

declare skip_every.simps(2) [simp del]

definition after :: "string \<Rightarrow> string list \<Rightarrow> string list" where
  "after tok ids = filter (\<lambda>i. tok = [] \<or> tok < i) ids"

lemma filter_beyond:
  fixes xs :: "'a::linorder list"
  assumes "sorted_wrt (<) xs" "k < length xs"
  shows "filter (\<lambda>i. xs ! k < i) xs = drop (Suc k) xs"
proof -
  have "filter (\<lambda>i. xs ! k < i) (take (Suc k) xs) = []"
    using assms by (auto simp: filter_empty_conv in_set_conv_nth sorted_wrt_iff_nth_less not_less less_Suc_eq_le le_less)
  moreover have "filter (\<lambda>i. xs ! k < i) (drop (Suc k) xs) = drop (Suc k) xs"
    using assms by (auto simp: filter_id_conv in_set_conv_nth sorted_wrt_iff_nth_less)
  ultimately show ?thesis by (metis append_take_drop_id filter_append append_Nil)
qed

lemma after_next:
  assumes "sorted_wrt (<) ids" "[] \<notin> set ids" "k < length (after tok ids)"
  shows "after (after tok ids ! k) ids = drop (Suc k) (after tok ids)"
proof -
  let ?t = "after tok ids ! k"
  have m: "?t \<in> set (after tok ids)" using assms(3) by simp
  then have "?t \<noteq> []" "tok = [] \<or> tok < ?t" using assms(2) unfolding after_def by (metis filter_is_subset subsetD, simp)
  then have "after ?t ids = filter (\<lambda>i. ?t < i) (after tok ids)"
    unfolding after_def filter_filter by (auto intro!: filter_cong)
  then show ?thesis using filter_beyond [OF _ assms(3)] assms(1) by (simp add: after_def sorted_wrt_filter)
qed

text \<open>A row without cells stands for one that is never reached after a failed write.\<close>

definition blank_row :: "string \<Rightarrow> row" where
  "blank_row i = \<lparr>rw_Id = i, rw_Version = 0, rw_Pending = False, rw_Cells = []\<rparr>"

lemma export_walk:
  assumes page: "\<And>q tok. 0 < q \<Longrightarrow> q \<le> p \<Longrightarrow> \<exists>res. qry q tok db = (Inr res, db) \<and>
      map rw_Id (qr_Rows res) = take (nat q) (after tok ids) \<and>
      qr_NextPageToken res = (if length (after tok ids) > nat q then after tok ids ! nat q else [])"
    and ids: "sorted_wrt (<) ids" "[] \<notin> set ids"
    and lim: "0 < p" "m < 2 ^ 31" "counts wr" "0 \<le> es_exported st" "nat (m - es_exported st) \<le> n"
  shows "\<exists>rows. map rw_Id rows = take (nat (m - es_exported st)) (skip_every (nat p) (after tok ids)) \<and>
    export_loop qry wr m p n tok st db = (write_all wr rows st, db)"
  using lim(4,5)
proof (induction n arbitrary: tok st)
  case 0
  then show ?case by (simp add: ret_def)
next
  case (Suc n)
  let ?xs = "after tok ids" and ?k = "m - es_exported st"
  show ?case
  proof (cases "es_exported st \<ge> m")
    case True
    then show ?thesis by (simp add: ret_def)
  next
    case False
    let ?q = "min ?k p"
    have q: "min (int32_of ?k) p = ?q" "0 < ?q" "?q \<le> p"
      using False lim(1,2) Suc.prems(1) by (simp_all add: int32_of_id)
    from page [OF q(2,3), of tok] obtain res where
      res: "qry ?q tok db = (Inr res, db)" "map rw_Id (qr_Rows res) = take (nat ?q) ?xs"
        "qr_NextPageToken res = (if length ?xs > nat ?q then ?xs ! nat ?q else [])" by blast
    have len: "length (qr_Rows res) \<le> nat ?q" using arg_cong [OF res(2), of length] by simp
    have wp: "write_page wr m (qr_Rows res) st = write_all wr (qr_Rows res) st"
      using write_page_all [OF lim(3)] False len by simp
    have empty: "qr_Rows res = [] \<longleftrightarrow> ?xs = []"
    proof -
      have "nat ?q \<noteq> 0" using q(2) by linarith
      then have "take (nat ?q) ?xs = [] \<longleftrightarrow> ?xs = []" by (simp only: take_eq_Nil simp_thms)
      then show ?thesis unfolding res(2) [symmetric] by (simp only: map_is_Nil_conv)
    qed
    have "min (nat ?k) (nat p) = nat ?q" using False lim(1) by (simp add: min_def nat_le_iff)
    then have split: "take (nat ?k) (skip_every (nat p) ?xs) =
        take (nat ?q) ?xs @ take (nat ?k - length (take (nat p) ?xs)) (skip_every (nat p) (drop (Suc (nat p)) ?xs))"
      by (subst skip_every_unfold) (simp add: min.commute)
    show ?thesis
    proof (cases "length ?xs > nat ?q \<and> is_ok (write_all wr (qr_Rows res) st)")
      case True
      then obtain st' where st': "write_all wr (qr_Rows res) st = Inr st'" by (auto simp: is_ok_iff)
      have lq: "length (qr_Rows res) = nat ?q" using arg_cong [OF res(2), of length] True by simp
      have c: "es_exported st' = es_exported st + ?q"
        using write_all_count [OF lim(3) st'] lq q(2) by simp
      let ?t = "?xs ! nat ?q"
      have t: "?t \<noteq> []" using True ids(2) unfolding after_def by (metis filter_is_subset nth_mem subsetD)
      have "0 \<le> es_exported st'" "nat (m - es_exported st') \<le> n" using c Suc.prems q(2) by linarith+
      from Suc.IH [OF this, of ?t] obtain rows where
        rows: "map rw_Id rows = take (nat (m - es_exported st')) (skip_every (nat p) (after ?t ids))"
          "export_loop qry wr m p n ?t st' db = (write_all wr rows st', db)"
        by blast
      have "take (nat ?k - length (take (nat p) ?xs)) (skip_every (nat p) (drop (Suc (nat p)) ?xs)) =
        take (nat (m - es_exported st')) (skip_every (nat p) (after ?t ids))"
      proof (cases "?k \<le> p")
        case le: True
        then have "nat (m - es_exported st') = 0" using c by simp
        moreover have "nat ?k \<le> length (take (nat p) ?xs)" using le True by simp
        ultimately show ?thesis by simp
      next
        case False
        then have p: "?q = p" by simp
        moreover have "length (take (nat p) ?xs) = nat p" using True p by simp
        moreover have "nat ?k - nat p = nat (m - es_exported st')" using c p lim(1) by (simp add: nat_diff_distrib')
        moreover have "after ?t ids = drop (Suc (nat ?q)) ?xs" using after_next [OF ids] True by blast
        ultimately show ?thesis by simp
      qed
      note rest = this
      have "map rw_Id (qr_Rows res @ rows) = take (nat ?k) (skip_every (nat p) ?xs)" using res(2) rows(1) unfolding split rest by simp
      moreover have "export_loop qry wr m p (Suc n) tok st db = (write_all wr (qr_Rows res @ rows) st, db)"
        using False res st' wp rows(2) empty True t lq
        by (auto simp add: q(1) dbind_def lift_result_def ret_def write_all_append)
      ultimately show ?thesis by blast
    next
      case stop: False
      let ?more = "map blank_row (drop (length (qr_Rows res)) (take (nat ?k) (skip_every (nat p) ?xs)))"
      have "map rw_Id (qr_Rows res @ ?more) = take (nat ?k) (skip_every (nat p) ?xs)"
      proof -
        have "length (qr_Rows res) = length (take (nat ?q) ?xs)" using arg_cong [OF res(2), of length] by simp
        then show ?thesis using res(2) unfolding split by (simp add: comp_def blank_row_def)
      qed
      moreover have "export_loop qry wr m p (Suc n) tok st db = (write_all wr (qr_Rows res @ ?more) st, db)"
      proof (cases "write_all wr (qr_Rows res) st")
        case (Inl e)
        then have "qr_Rows res \<noteq> []" by auto
        then show ?thesis using Inl False res(1) wp by (simp add: q(1) dbind_def lift_result_def fail_def write_all_append)
      next
        case (Inr st')
        then have l: "length ?xs \<le> nat ?q" using stop by (simp add: is_ok_def)
        then have "nat ?q \<ge> length (take (nat ?k) (skip_every (nat p) ?xs))"
          by (subst skip_every_all) auto
        moreover have "length (qr_Rows res) = length ?xs" using arg_cong [OF res(2), of length] l by simp
        moreover have "take (nat ?k) (skip_every (nat p) ?xs) = ?xs" using l by (subst skip_every_all) auto
        ultimately have "?more = []" by simp
        then show ?thesis using Inr False res wp l by (auto simp: q(1) dbind_def lift_result_def ret_def)
      qed
      ultimately show ?thesis by blast
    qed
  qed
qed

text \<open>The text of an export: the rows as a JSON array, or lines under the columns of the first row.\<close>

definition export_text :: "runtime \<Rightarrow> (row \<Rightarrow> string) \<Rightarrow> string \<Rightarrow> row list \<Rightarrow> string" where
  "export_text rt txt fmt rows =
     (if fmt = ''json'' then ''['' @ join '','' (map txt rows) @ '']''
      else if rows = [] then []
      else let cols = csvColumnOrder [RowToMap rt (hd rows)]
        in csv_line cols @ concat (map (\<lambda>r. csv_line (csv_record rt cols (RowToMap rt r))) rows))"

lemma write_all_json:
  assumes "\<And>r. cd_marshal cd (VObj (RowToMap rt r)) = Inr (txt r)" "es_jsonStarted st" "es_comma st"
  shows "\<exists>st'. write_all (write_row rt cd ''json'') rows st = Inr st' \<and> es_jsonStarted st' \<and>
    es_out st' = es_out st @ concat (map (\<lambda>r. '','' @ txt r) rows)"
  using assms(2,3)
proof (induction rows arbitrary: st)
  case (Cons r rs)
  let ?st = "st\<lparr>es_out := es_out st @ '','' @ txt r, es_jsonStarted := True, es_comma := True, es_exported := es_exported st + 1\<rparr>"
  have "write_row rt cd ''json'' r st = Inr ?st" using Cons.prems by (simp add: write_row_def Let_def assms(1))
  then show ?case using Cons.IH [of ?st] by simp
qed simp

lemma join_rest: "join sep (x # xs) = x @ concat (map (\<lambda>y. sep @ y) xs)"
  by (induction xs arbitrary: x) simp_all

lemma export_json:
  assumes "\<And>r. cd_marshal cd (VObj (RowToMap rt r)) = Inr (txt r)"
  shows "\<exists>st. write_all (write_row rt cd ''json'') rows export_start = Inr st \<and> export_end ''json'' st = export_text rt txt ''json'' rows"
proof (cases rows)
  case Nil
  then show ?thesis by (simp add: export_end_def export_text_def export_start_def)
next
  case (Cons r rs)
  let ?st = "\<lparr>es_out = ''['' @ txt r, es_exported = 1, es_jsonStarted = True, es_comma = True, es_csvCols = None\<rparr>"
  have "write_row rt cd ''json'' r export_start = Inr ?st" by (simp add: write_row_def Let_def assms export_start_def)
  moreover from write_all_json [OF assms, of ?st rs] obtain st where
    "write_all (write_row rt cd ''json'') rs ?st = Inr st" "es_jsonStarted st"
    "es_out st = ''['' @ txt r @ concat (map (\<lambda>r. '','' @ txt r) rs)" by auto
  ultimately show ?thesis using Cons by (simp add: export_end_def export_text_def join_rest comp_def)
qed

lemma write_all_csv:
  assumes "fmt \<noteq> ''json''" "es_csvCols st = Some cols"
  shows "\<exists>st'. write_all (write_row rt cd fmt) rows st = Inr st' \<and>
    es_out st' = es_out st @ concat (map (\<lambda>r. csv_line (csv_record rt cols (RowToMap rt r))) rows)"
  using assms(2)
proof (induction rows arbitrary: st)
  case (Cons r rs)
  let ?st = "st\<lparr>es_out := es_out st @ csv_line (csv_record rt cols (RowToMap rt r)), es_exported := es_exported st + 1\<rparr>"
  have "write_row rt cd fmt r st = Inr ?st" using Cons.prems by (simp add: write_row_def Let_def assms(1))
  then show ?case using Cons.IH [of ?st] Cons.prems by simp
qed simp

lemma export_csv:
  assumes "fmt \<noteq> ''json''"
  shows "\<exists>st. write_all (write_row rt cd fmt) rows export_start = Inr st \<and> export_end fmt st = export_text rt txt fmt rows"
proof (cases rows)
  case Nil
  then show ?thesis using assms by (simp add: export_end_def export_text_def export_start_def)
next
  case (Cons r rs)
  let ?cols = "csvColumnOrder [RowToMap rt r]"
  let ?st = "\<lparr>es_out = csv_line ?cols @ csv_line (csv_record rt ?cols (RowToMap rt r)), es_exported = 1, es_jsonStarted = False, es_comma = False,
    es_csvCols = Some ?cols\<rparr>"
  have "write_row rt cd fmt r export_start = Inr ?st" by (simp add: write_row_def Let_def assms export_start_def)
  moreover from write_all_csv [OF assms, of ?st ?cols rt cd rs] obtain st where
    "write_all (write_row rt cd fmt) rs ?st = Inr st"
    "es_out st = es_out ?st @ concat (map (\<lambda>r. csv_line (csv_record rt ?cols (RowToMap rt r))) rs)" by auto
  ultimately show ?thesis using Cons assms by (simp add: export_end_def export_text_def Let_def)
qed

text \<open>The ids of the records of a table, in the order of a query.\<close>

definition table_ids :: "string \<Rightarrow> string \<Rightarrow> calc_db \<Rightarrow> string list" where
  "table_ids vt tenant db = sort (map r_record (filter (\<lambda>r. r_vt r = vt \<and> r_tenant r = tenant) (recs db)))"

lemma map_sort_key: "map f (sort_key f xs) = sort (map f xs)"
proof -
  have i: "map f (insort_key f x ys) = insort (f x) (map f ys)" for x ys by (induction ys) simp_all
  show ?thesis by (induction xs) (simp_all add: i)
qed

lemma table_ids_sorted: "rec_wf db \<Longrightarrow> sorted_wrt (<) (table_ids vt tenant db)"
proof -
  assume "rec_wf db"
  then have "distinct (map (\<lambda>r. (r_vt r, r_record r)) (filter (\<lambda>r. r_vt r = vt \<and> r_tenant r = tenant) (recs db)))"
    by (simp add: rec_wf_def distinct_map_filter)
  then have "distinct (map r_record (filter (\<lambda>r. r_vt r = vt \<and> r_tenant r = tenant) (recs db)))"
    by (auto simp: distinct_map inj_on_def)
  then show ?thesis by (simp add: table_ids_def strict_sorted_iff)
qed

lemma matching_ids: "map r_record (matching sat vt tenant tok ([], []) db) = after tok (table_ids vt tenant db)"
  unfolding matching_def after_def table_ids_def
  by (simp add: map_sort_key filter_sort filter_map comp_def conj_assoc)

lemma page_size_given: "0 < qs_PageSize q \<Longrightarrow> qs_PageSize q \<le> maxScanRows ql \<Longrightarrow> page_size ql q = Inr (qs_PageSize q)"
  by (simp add: page_size_alt default_page_def Let_def)

lemma unfiltered_page:
  assumes "query_context rt sv rq t db = (Inr (tables, tenant, vt, phys, cols), db)" "faults db = []"
    and "0 < q" "q \<le> maxScanRows ql" "maxScanRows ql + 1 < 2 ^ 31"
  shows "\<exists>res. QueryRows (executeVRQuery rt cd ul san sat stamps ql sv rq) t None srt colIds q tok db = (Inr res, db) \<and>
    map rw_Id (qr_Rows res) = take (nat q) (after tok (table_ids vt tenant db)) \<and>
    qr_NextPageToken res = (if length (after tok (table_ids vt tenant db)) > nat q then after tok (table_ids vt tenant db) ! nat q else [])"
proof -
  let ?rows = "matching sat vt tenant tok ([], [])"
  have e: "QueryRows (executeVRQuery rt cd ul san sat stamps ql sv rq) t None srt colIds q tok db =
      query_page (row_of_rec rt cd ul stamps) ql tenant cols q ?rows db"
    using assms(1,3,4) by (simp add: QueryRows_def executeVRQuery_def dbind_def page_size_given query_cond_def)
  obtain r db' where r: "query_page (row_of_rec rt cd ul stamps) ql tenant cols q ?rows db = (r, db')" by fastforce
  have "q + 1 < 2 ^ 31" using assms(4,5) by simp
  from query_page_ids [OF r assms(2,3) this] have
    "db' = db \<and> (\<exists>res. r = Inr res \<and> map rw_Id (qr_Rows res) = take (nat q) (map r_record (?rows db)) \<and>
      qr_NextPageToken res = (if length (?rows db) > nat q then r_record (?rows db ! nat q) else []))"
    by (simp add: row_of_rec_def Let_def)
  moreover have "length (?rows db) = length (after tok (table_ids vt tenant db))" by (metis length_map matching_ids)
  moreover have "nat q < length (?rows db) \<Longrightarrow> r_record (?rows db ! nat q) = after tok (table_ids vt tenant db) ! nat q"
    by (metis matching_ids nth_map)
  ultimately show ?thesis using e r by (auto simp: matching_ids)
qed


text \<open>Four records, pages of two, and an encoder that writes the id of a row.\<close>

definition export_store :: "string list \<Rightarrow> calc_db" where
  "export_store ids = example_store\<lparr>recs := map (\<lambda>i. \<lparr>r_vt = ''v'', r_tenant = ''a'', r_record = i, r_data = [], r_version = 1\<rparr>) ids\<rparr>"

definition id_text :: "goany \<Rightarrow> string" where
  "id_text v = (case v of VObj m \<Rightarrow> (case map_of m ''id'' of Some (VStr s) \<Rightarrow> s | _ \<Rightarrow> []) | _ \<Rightarrow> [])"

definition id_codec :: codec where
  "id_codec = \<lparr>cd_unmarshal = (\<lambda>_. Inl []), cd_marshal = (\<lambda>v. Inr (id_text v)), cd_sha256 = (\<lambda>s. s)\<rparr>"

definition page_of_two :: query_limits where
  "page_of_two = \<lparr>ql_MaxRow = 2, ql_MaxScanRows = 2\<rparr>"

definition no_stamps :: "string \<Rightarrow> gotime \<times> gotime" where
  "no_stamps _ = (let z = \<lparr>tsec = - 62135596800, tnano = 0, tzone = ''UTC''\<rparr> in (z, z))"

definition example_query :: query_handler where
  "example_query = executeVRQuery example_rt id_codec no_uuids id (\<lambda>_ _ _ _. True) no_stamps page_of_two row_env row_request"


section \<open>Defects\<close>

text \<open>The token of a page is the id of the row after it, and the next page starts behind the token: the row is in no page.\<close>

lemma export_loses_row:
  "fst (ExportRows example_rt id_codec example_query page_of_two 5 ''t'' ''json'' None [] (export_store [''4'', ''2'', ''3'', ''1''])) =
     Inr (''json'', ''[1,2,4]'')"
  by code_simp

text \<open>Sorting and projection of a request have no effect: the rows come in the order of their ids with all cells.\<close>

lemma query_ignores_sort:
  "executeVRQuery rt cd ul san sat stamps ql sv rq (q\<lparr>qs_Sort := s, qs_ColumnIds := c, qs_ColumnRestrict := b\<rparr>) =
     executeVRQuery rt cd ul san sat stamps ql sv rq q"
proof -
  let ?q = "q\<lparr>qs_Sort := s, qs_ColumnIds := c, qs_ColumnRestrict := b\<rparr>"
  have r: "qs_TableName ?q = qs_TableName q" "qs_PageToken ?q = qs_PageToken q" "page_size ql ?q = page_size ql q" by (simp_all add: page_size_alt)
  have "query_cond rt cd san tables phys cols ?q = query_cond rt cd san tables phys cols q" for tables phys cols
    by (simp add: query_cond_def)
  then show ?thesis unfolding executeVRQuery_def r by presburger
qed

text \<open>The columns of a CSV file are those of its first row: cells of other columns are left out.\<close>

lemma csv_drops_columns:
  "export_text example_rt (\<lambda>_. []) ''csv''
     [\<lparr>rw_Id = ''1'', rw_Version = 1, rw_Pending = False, rw_Cells = []\<rparr>,
      \<lparr>rw_Id = ''2'', rw_Version = 1, rw_Pending = False, rw_Cells = [(''n'', StringValue ''x'')]\<rparr>] =
   ''id'' @ nl @ ''1'' @ nl @ ''2'' @ nl"
  by code_simp

end
