(* ===== verification/Row_Sessions.thy ===== *)
theory Row_Sessions
  imports Row_Results
begin

text \<open>
  Concurrent writers of records. \<open>UpdateRow\<close> (\<open>vr_rows.go\<close>) and the calculation engine
  (\<open>ReadRecord\<close>, \<open>PatchCalcFields\<close> of \<open>calc/store.go\<close>) read a record and later write it back with
  a condition on its version, in two statements of their own; \<open>CreateRow\<close> and \<open>DeleteRow\<close> use one
  statement. A world is the store with what the open requests have read; every statement of a
  request is a step, so the requests interleave in any order, and any of them may stop in between.

  The specification is a table of documents on which every operation is one atomic change. The
  result is that the store always holds what the successful operations give when they are applied
  one after another: no write is lost and none is based on old data. Record ids are never used
  twice (\<open>uuid.NewString\<close>); with reused ids it would not hold, because versions start again at one.
\<close>

section \<open>The atomic table\<close>

type_synonym rkey = "string \<times> string \<times> string"

definition key_of :: "rec_row \<Rightarrow> rkey" where
  "key_of r = (r_vt r, r_tenant r, r_record r)"

definition content :: "calc_db \<Rightarrow> (rkey \<rightharpoonup> goobj)" where
  "content db = map_of (map (\<lambda>r. (key_of r, r_data r)) (recs db))"

datatype event =
    Changed rkey "goobj \<Rightarrow> cerr + goobj"
  | Inserted rkey goobj
  | Deleted rkey
  | Quiet

text \<open>The effect of an operation that was reported as done; \<open>None\<close> when it could not have been.\<close>

fun apply_event :: "event \<Rightarrow> (rkey \<rightharpoonup> goobj) \<Rightarrow> (rkey \<rightharpoonup> goobj) option" where
  "apply_event (Changed k f) m =
     (case m k of None \<Rightarrow> None | Some d \<Rightarrow> (case f d of Inl _ \<Rightarrow> None | Inr doc \<Rightarrow> Some (m(k \<mapsto> doc))))"
| "apply_event (Inserted k d) m = (if m k = None then Some (m(k \<mapsto> d)) else None)"
| "apply_event (Deleted k) m = (if m k = None then None else Some (m(k := None)))"
| "apply_event Quiet m = Some m"

fun replay_events :: "event list \<Rightarrow> (rkey \<rightharpoonup> goobj) \<Rightarrow> (rkey \<rightharpoonup> goobj) option" where
  "replay_events [] m = Some m"
| "replay_events (e # es) m = (case apply_event e m of None \<Rightarrow> None | Some m' \<Rightarrow> replay_events es m')"

lemma replay_events_append:
  "replay_events (es @ es') m = (case replay_events es m of None \<Rightarrow> None | Some m' \<Rightarrow> replay_events es' m')"
  by (induction es arbitrary: m) (auto split: option.split)

section \<open>Interleaved requests\<close>

record world =
  w_db :: calc_db
  w_rows :: "nat \<Rightarrow> rec_row option" \<comment> \<open>read by an open \<open>UpdateRow\<close>\<close>
  w_recs :: "nat \<Rightarrow> rec option" \<comment> \<open>read by an open \<open>Process\<close> or \<open>writeErrorCaches\<close>\<close>
  w_used :: "(string \<times> string) set" \<comment> \<open>the ids that were ever given to a record of a table\<close>

text \<open>The document that \<open>UpdateRow\<close> and \<open>PatchCalcFields\<close> write, as a function of the one read.\<close>

definition edit :: "codec \<Rightarrow> (goobj \<Rightarrow> goobj) \<Rightarrow> goobj \<Rightarrow> goobj \<Rightarrow> cerr + goobj" where
  "edit cd ft patch d = json_store cd (ft (map_merge d patch))"

inductive session_step :: "codec \<Rightarrow> world \<Rightarrow> event \<Rightarrow> world \<Rightarrow> bool" for cd where
  update_reads:
    "read_row rid vt tenant (w_db w) = (Inr old, db') \<Longrightarrow>
     session_step cd w Quiet (w\<lparr>w_db := db', w_rows := (w_rows w)(s \<mapsto> old)\<rparr>)"
| update_writes:
    "w_rows w s = Some old \<Longrightarrow> edit cd ft patch (r_data old) = Inr doc \<Longrightarrow>
     dexec (st_patch (r_vt old) (r_tenant old) (r_record old) (r_version old) doc) (w_db w) = (res, db') \<Longrightarrow>
     session_step cd w (case res of Inr n \<Rightarrow> if n = 0 then Quiet else Changed (key_of old) (edit cd ft patch) | Inl _ \<Rightarrow> Quiet)
       (w\<lparr>w_db := db', w_rows := (w_rows w)(s := None)\<rparr>)"
| engine_reads:
    "ReadRecord tenant vt rid (w_db w) = (Inr r, db') \<Longrightarrow>
     session_step cd w Quiet (w\<lparr>w_db := db', w_recs := (w_recs w)(s \<mapsto> r)\<rparr>)"
| engine_writes:
    "w_recs w s = Some r \<Longrightarrow> PatchCalcFields cd r patched (w_db w) = (res, db') \<Longrightarrow>
     session_step cd w (if res = Inr True then Changed (rc_VTID r, rc_WSID r, rc_ID r) (edit cd id patched) else Quiet)
       (w\<lparr>w_db := db', w_recs := (w_recs w)(s := None)\<rparr>)"
| creates:
    "(vt, rid) \<notin> w_used w \<Longrightarrow> dexec (st_insert_rec rid tenant vt doc) (w_db w) = (res, db') \<Longrightarrow>
     session_step cd w (if res = Inr True then Inserted (vt, tenant, rid) doc else Quiet)
       (w\<lparr>w_db := db', w_used := insert (vt, rid) (w_used w)\<rparr>)"
| deletes:
    "dexec (st_delete_rec rid vt tenant) (w_db w) = (res, db') \<Longrightarrow>
     session_step cd w (case res of Inr n \<Rightarrow> if n = 0 then Quiet else Deleted (vt, tenant, rid) | Inl _ \<Rightarrow> Quiet) (w\<lparr>w_db := db'\<rparr>)"
| stops: "session_step cd w Quiet (w\<lparr>w_rows := (w_rows w)(s := None), w_recs := (w_recs w)(s' := None)\<rparr>)"
| others: "recs db' = recs (w_db w) \<Longrightarrow> session_step cd w Quiet (w\<lparr>w_db := db'\<rparr>)"

inductive session_run :: "codec \<Rightarrow> world \<Rightarrow> event list \<Rightarrow> world \<Rightarrow> bool" for cd where
  start: "session_run cd w [] w"
| step: "session_run cd w es w' \<Longrightarrow> session_step cd w' e w'' \<Longrightarrow> session_run cd w (es @ [e]) w''"

section \<open>What a request has read stays valid\<close>

definition keyed :: "calc_db \<Rightarrow> (string \<times> string) set \<Rightarrow> bool" where
  "keyed db used \<longleftrightarrow> distinct (map (\<lambda>r. (r_vt r, r_record r)) (recs db)) \<and> (\<lambda>r. (r_vt r, r_record r)) ` set (recs db) \<subseteq> used"

text \<open>A record was read with a version: it is unchanged, has a higher version or is gone.\<close>

definition seen :: "calc_db \<Rightarrow> (string \<times> string) set \<Rightarrow> rkey \<Rightarrow> int \<Rightarrow> goobj \<Rightarrow> bool" where
  "seen db used k v d \<longleftrightarrow>
     (fst k, snd (snd k)) \<in> used \<and> (\<forall>r \<in> set (recs db). key_of r = k \<longrightarrow> v \<le> r_version r \<and> (r_version r = v \<longrightarrow> r_data r = d))"

definition world_ok :: "world \<Rightarrow> bool" where
  "world_ok w \<longleftrightarrow> keyed (w_db w) (w_used w) \<and>
     (\<forall>s old. w_rows w s = Some old \<longrightarrow> seen (w_db w) (w_used w) (key_of old) (r_version old) (r_data old)) \<and>
     (\<forall>s r. w_recs w s = Some r \<longrightarrow> seen (w_db w) (w_used w) (rc_VTID r, rc_WSID r, rc_ID r) (rc_Version r) (rc_Data r))"

text \<open>The ways in which a step may change the records.\<close>

definition extends :: "calc_db \<Rightarrow> (string \<times> string) set \<Rightarrow> calc_db \<Rightarrow> (string \<times> string) set \<Rightarrow> bool" where
  "extends db used db' used' \<longleftrightarrow> used \<subseteq> used' \<and> (keyed db used \<longrightarrow> keyed db' used') \<and> (\<forall>k v d. seen db used k v d \<longrightarrow> seen db' used' k v d)"

lemma world_ok_extends:
  assumes "world_ok w" "extends (w_db w) (w_used w) (w_db w') (w_used w')"
    and "\<And>s old. w_rows w' s = Some old \<Longrightarrow> w_rows w s = Some old \<or> seen (w_db w') (w_used w') (key_of old) (r_version old) (r_data old)"
    and "\<And>s r. w_recs w' s = Some r \<Longrightarrow>
      w_recs w s = Some r \<or> seen (w_db w') (w_used w') (rc_VTID r, rc_WSID r, rc_ID r) (rc_Version r) (rc_Data r)"
  shows "world_ok w'"
proof -
  have e: "keyed (w_db w') (w_used w')" "\<And>k v d. seen (w_db w) (w_used w) k v d \<Longrightarrow> seen (w_db w') (w_used w') k v d"
    using assms(1,2) by (simp_all add: world_ok_def extends_def del: split_paired_All)
  have "seen (w_db w') (w_used w') (key_of old) (r_version old) (r_data old)" if "w_rows w' s = Some old" for s old
    using assms(1) assms(3) [OF that] e(2) unfolding world_ok_def by blast
  moreover have "seen (w_db w') (w_used w') (rc_VTID r, rc_WSID r, rc_ID r) (rc_Version r) (rc_Data r)" if "w_recs w' s = Some r" for s r
    using assms(1) assms(4) [OF that] e(2) unfolding world_ok_def by blast
  ultimately show ?thesis using e(1) by (simp add: world_ok_def)
qed

lemma extends_same: "recs db' = recs db \<Longrightarrow> extends db used db' used"
  by (simp add: extends_def keyed_def seen_def)

lemma extends_patch: "extends db used (snd (st_patch vt tenant rid v doc db)) used"
proof -
  let ?g = "\<lambda>r. if r_vt r = vt \<and> r_tenant r = tenant \<and> r_record r = rid \<and> r_version r = v then r\<lparr>r_data := doc, r_version := r_version r + 1\<rparr> else r"
  have recs: "recs (snd (st_patch vt tenant rid v doc db)) = map ?g (recs db)" by (simp add: st_patch_def Let_def)
  have k: "(r_vt (?g r), r_record (?g r)) = (r_vt r, r_record r)" "key_of (?g r) = key_of r" for r by (simp_all add: key_of_def)
  have "keyed (snd (st_patch vt tenant rid v doc db)) used = keyed db used"
    unfolding keyed_def recs map_map comp_def k set_map image_image ..
  moreover have "seen (snd (st_patch vt tenant rid v doc db)) used k' v' d" if "seen db used k' v' d" for k' v' d
    using that unfolding seen_def recs set_map ball_simps k by (auto split: if_splits)
  ultimately show ?thesis by (simp add: extends_def)
qed

lemma extends_insert:
  assumes "(vt, rid) \<notin> used"
  shows "extends db used (snd (st_insert_rec rid tenant vt doc db)) (insert (vt, rid) used)"
  using assms unfolding extends_def keyed_def seen_def st_insert_rec_def key_of_def by (auto simp: image_iff)

lemma extends_delete: "extends db used (snd (st_delete_rec rid vt tenant db)) used"
  unfolding extends_def keyed_def seen_def st_delete_rec_def Let_def by (auto simp: distinct_map_filter)

section \<open>Steps are atomic changes\<close>

lemma keyed_distinct: "keyed db used \<Longrightarrow> distinct (map key_of (recs db))"
  unfolding keyed_def key_of_def by (auto simp: distinct_map inj_on_def)

lemma content_iff: "keyed db used \<Longrightarrow> content db k = Some d \<longleftrightarrow> (\<exists>r \<in> set (recs db). key_of r = k \<and> r_data r = d)"
  using keyed_distinct [of db used] by (auto simp: content_def comp_def map_of_eq_Some_iff image_iff)

lemma content_none: "content db k = None \<longleftrightarrow> (\<forall>r \<in> set (recs db). key_of r \<noteq> k)"
  by (auto simp: content_def map_of_eq_None_iff image_iff)

lemma content_same: "recs db' = recs db \<Longrightarrow> content db' = content db"
  by (simp add: content_def)

text \<open>A conditional write that changes a row changes the document that was read.\<close>

lemma patch_content:
  assumes "keyed db used" "seen db used (vt, tenant, rid) v d" "st_patch vt tenant rid v doc db = (n, db')"
  shows "if n = 0 then content db' = content db else content db (vt, tenant, rid) = Some d \<and> content db' = (content db)((vt, tenant, rid) \<mapsto> doc)"
proof -
  let ?k = "(vt, tenant, rid)" and ?hit = "\<lambda>r. r_vt r = vt \<and> r_tenant r = tenant \<and> r_record r = rid \<and> r_version r = v"
  let ?g = "\<lambda>r. if ?hit r then r\<lparr>r_data := doc, r_version := r_version r + 1\<rparr> else r"
  have n: "n = length (filter ?hit (recs db))" and recs: "recs db' = map ?g (recs db)"
    using assms(3) by (auto simp: st_patch_def Let_def)
  have key: "key_of (?g r) = key_of r" for r by (simp add: key_of_def)
  show ?thesis
  proof (cases "n = 0")
    case True
    then have "map ?g (recs db) = recs db" using n by (intro map_idI) (auto simp: filter_empty_conv)
    then have "recs db' = recs db" unfolding recs .
    from content_same [OF this] show ?thesis using True by simp
  next
    case False
    then obtain r where r: "r \<in> set (recs db)" "?hit r" using n by (auto simp: filter_empty_conv)
    then have "r_data r = d" using assms(2) by (auto simp: seen_def key_of_def)
    then have c: "content db ?k = Some d" using r content_iff [OF assms(1)] by (auto simp: key_of_def)
    have k': "keyed db' used" using assms(1) extends_patch [of db used vt tenant rid v doc] assms(3) by (simp add: extends_def)
    have "content db' k = ((content db)(?k \<mapsto> doc)) k" for k
    proof (cases "k = ?k")
      case True
      have "\<exists>r' \<in> set (recs db'). key_of r' = ?k \<and> r_data r' = doc"
        unfolding recs using r by (intro bexI [of _ "?g r"]) (auto simp: key_of_def)
      then show ?thesis using content_iff [OF k'] True by simp
    next
      case False
      have "content db' k = Some x \<longleftrightarrow> content db k = Some x" for x
      proof -
        have "r_data (?g r') = r_data r'" if "key_of r' = k" for r' using that False by (auto simp: key_of_def)
        then show ?thesis unfolding content_iff [OF k'] content_iff [OF assms(1)] recs set_map bex_simps key by metis
      qed
      then show ?thesis using False by (metis fun_upd_other not_Some_eq)
    qed
    then show ?thesis using False c by auto
  qed
qed

lemma insert_content:
  assumes "(vt, rid) \<notin> used" "keyed db used" "st_insert_rec rid tenant vt doc db = (ok, db')"
  shows "ok \<and> content db (vt, tenant, rid) = None \<and> content db' = (content db)((vt, tenant, rid) \<mapsto> doc)"
proof -
  have "\<not> list_ex (\<lambda>r. r_vt r = vt \<and> r_record r = rid) (recs db)"
    using assms(1,2) by (auto simp: keyed_def list_ex_iff image_iff)
  then have o: "ok" "recs db' = recs db @ [\<lparr>r_vt = vt, r_tenant = tenant, r_record = rid, r_data = doc, r_version = 1\<rparr>]"
    using assms(3) by (auto simp: st_insert_rec_def)
  moreover have c: "content db (vt, tenant, rid) = None"
    using assms(1,2) by (auto simp: content_none keyed_def key_of_def image_iff)
  ultimately show ?thesis by (auto simp: content_def key_of_def map_add_def fun_eq_iff split: option.splits)
qed

lemma delete_content:
  assumes "st_delete_rec rid vt tenant db = (n, db')"
  shows "if n = 0 then content db' = content db
    else content db (vt, tenant, rid) \<noteq> None \<and> content db' = (content db)((vt, tenant, rid) := None)"
proof -
  let ?k = "(vt, tenant, rid)"
  have n: "n = length (filter (\<lambda>r. key_of r = ?k) (recs db))"
    and recs: "recs db' = (if n = 0 then recs db else filter (\<lambda>r. key_of r \<noteq> ?k) (recs db))"
    using assms by (auto simp: st_delete_rec_def Let_def key_of_def conj_commute conj_left_commute)
  have "map_of (map (\<lambda>r. (key_of r, r_data r)) (filter (\<lambda>r. key_of r \<noteq> ?k) rs)) = (map_of (map (\<lambda>r. (key_of r, r_data r)) rs))(?k := None)" for rs
    by (induction rs) auto
  then have "content db' = (content db)(?k := None)" if "n \<noteq> 0" using recs that by (simp add: content_def)
  moreover have "n = 0 \<longleftrightarrow> content db ?k = None" unfolding n content_none by (simp add: filter_empty_conv)
  moreover have "content db' = content db" if "n = 0" using recs that by (intro content_same) simp
  ultimately show ?thesis by auto
qed

lemma recs_faults:
  "content (db\<lparr>faults := fs\<rparr>) = content db" "keyed (db\<lparr>faults := fs\<rparr>) used = keyed db used"
  "seen (db\<lparr>faults := fs\<rparr>) used k v d = seen db used k v d" "extends (db\<lparr>faults := fs\<rparr>) used db' used' = extends db used db' used'"
  by (simp_all add: content_def keyed_def seen_def extends_def)

lemma patch_step:
  assumes "dexec (st_patch vt tenant rid v doc) db = (res, db')" "keyed db used" "seen db used (vt, tenant, rid) v d" "f d = Inr doc"
  shows "extends db used db' used \<and>
    apply_event (case res of Inr n \<Rightarrow> if n = 0 then Quiet else Changed (vt, tenant, rid) f | Inl _ \<Rightarrow> Quiet) (content db) = Some (content db')"
proof (cases rule: dexec_cases [of db "st_patch vt tenant rid v doc"])
  case failed
  then show ?thesis using assms(1) by (auto simp: recs_faults intro: extends_same)
next
  case (ran n d2)
  then have r: "res = Inr n" "db' = d2" using assms(1) by auto
  let ?db = "db\<lparr>faults := tl (faults db)\<rparr>"
  have "extends ?db used d2 used" using extends_patch [of ?db used vt tenant rid v doc] ran(1) by simp
  moreover have "keyed ?db used" "seen ?db used (vt, tenant, rid) v d" using assms(2,3) by (simp_all add: recs_faults)
  from patch_content [OF this ran(1)] have
    "if n = 0 then content d2 = content db else content db (vt, tenant, rid) = Some d \<and> content d2 = (content db)((vt, tenant, rid) \<mapsto> doc)"
    unfolding recs_faults .
  ultimately show ?thesis using assms(4) by (auto simp: r recs_faults split: if_splits)
qed

lemma read_row_seen:
  assumes "read_row rid vt tenant db = (Inr old, db')" "keyed db used"
  shows "recs db' = recs db \<and> seen db' used (key_of old) (r_version old) (r_data old)"
proof -
  obtain fs where d: "db' = db\<lparr>faults := fs\<rparr>" and f: "find (\<lambda>r. r_record r = rid \<and> r_vt r = vt \<and> r_tenant r = tenant) (recs db) = Some old"
    using assms(1) unfolding read_row_def dquery_def dbind_def fail_def ret_def
    by (cases rule: dexec_cases [of db "\<lambda>db. (find (\<lambda>r. r_record r = rid \<and> r_vt r = vt \<and> r_tenant r = tenant) (recs db), db)"])
      (auto split: option.splits)
  have o: "old \<in> set (recs db)" using f by (auto simp: find_Some_iff)
  have "r = old" if "r \<in> set (recs db)" "key_of r = key_of old" for r
    using keyed_distinct [OF assms(2)] o that by (auto simp: distinct_map dest: inj_onD)
  then have "seen db used (key_of old) (r_version old) (r_data old)"
    using o assms(2) by (auto simp: seen_def keyed_def key_of_def)
  then show ?thesis using d by (simp add: recs_faults)
qed

lemma ReadRecord_row: "fst (ReadRecord tenant vt rid db) = Inr r \<Longrightarrow>
    \<exists>old. read_row rid vt tenant db = (Inr old, snd (ReadRecord tenant vt rid db)) \<and> r = scan_rec old"
proof -
  have e: "(\<lambda>r. r_vt r = vt \<and> r_tenant r = tenant \<and> r_record r = rid) = (\<lambda>r. r_record r = rid \<and> r_vt r = vt \<and> r_tenant r = tenant)" by auto
  show "fst (ReadRecord tenant vt rid db) = Inr r \<Longrightarrow> ?thesis"
    unfolding ReadRecord_def read_row_def dbind_def fail_def ret_def e by (auto split: prod.splits sum.splits option.splits)
qed

lemma engine_patch_step:
  assumes "PatchCalcFields cd r patched db = (res, db')" "keyed db used" "seen db used (rc_VTID r, rc_WSID r, rc_ID r) (rc_Version r) (rc_Data r)"
  shows "extends db used db' used \<and>
    apply_event (if res = Inr True then Changed (rc_VTID r, rc_WSID r, rc_ID r) (edit cd id patched) else Quiet) (content db) = Some (content db')"
proof (cases "json_store cd (map_merge (rc_Data r) patched)")
  case (Inl e)
  then show ?thesis using assms(1) by (auto simp: PatchCalcFields_def fail_def intro: extends_same)
next
  case (Inr doc)
  obtain n d' where p: "dexec (st_patch (rc_VTID r) (rc_WSID r) (rc_ID r) (rc_Version r) doc) db = (n, d')" by fastforce
  have "edit cd id patched (rc_Data r) = Inr doc" using Inr by (simp add: edit_def)
  from patch_step [OF p assms(2,3), of "edit cd id patched", OF this] show ?thesis
    using assms(1) p Inr by (auto simp: PatchCalcFields_def dbind_def ret_def split: sum.splits if_splits)
qed

lemma create_step:
  assumes "dexec (st_insert_rec rid tenant vt doc) db = (res, db')" "keyed db used" "(vt, rid) \<notin> used"
  shows "extends db used db' (insert (vt, rid) used) \<and>
    apply_event (if res = Inr True then Inserted (vt, tenant, rid) doc else Quiet) (content db) = Some (content db')"
proof (cases rule: dexec_cases [of db "st_insert_rec rid tenant vt doc"])
  case failed
  have "extends db used (db\<lparr>faults := fs\<rparr>) (insert (vt, rid) used)" for fs by (auto simp: extends_def keyed_def seen_def)
  then show ?thesis using assms(1) failed by (auto simp: recs_faults)
next
  case (ran ok d2)
  let ?db = "db\<lparr>faults := tl (faults db)\<rparr>"
  have "keyed ?db used" using assms(2) by (simp add: recs_faults)
  from insert_content [OF assms(3) this ran(1)] extends_insert [OF assms(3), of ?db tenant doc] assms(1) ran
  show ?thesis by (auto simp: recs_faults)
qed

lemma delete_step:
  assumes "dexec (st_delete_rec rid vt tenant) db = (res, db')"
  shows "extends db used db' used \<and>
    apply_event (case res of Inr n \<Rightarrow> if n = 0 then Quiet else Deleted (vt, tenant, rid) | Inl _ \<Rightarrow> Quiet) (content db) = Some (content db')"
proof (cases rule: dexec_cases [of db "st_delete_rec rid vt tenant"])
  case failed
  then show ?thesis using assms by (auto simp: recs_faults intro: extends_same)
next
  case (ran n d2)
  from delete_content [OF ran(1)] extends_delete [of "db\<lparr>faults := tl (faults db)\<rparr>" used rid vt tenant] assms ran
  show ?thesis by (auto simp: recs_faults split: if_splits)
qed

text \<open>Every step keeps what was read valid, and is one atomic change of the table or none.\<close>

lemma step_atomic:
  assumes "session_step cd w e w'" "world_ok w"
  shows "world_ok w' \<and> apply_event e (content (w_db w)) = Some (content (w_db w'))"
  using assms
proof (induction rule: session_step.induct)
  case (update_reads rid vt tenant w old db' s)
  then have "keyed (w_db w) (w_used w)" by (simp add: world_ok_def)
  note r = read_row_seen [OF update_reads.hyps this]
  show ?case using r content_same [OF conjunct1 [OF r]]
    by (auto intro!: world_ok_extends [OF update_reads.prems] extends_same split: if_splits)
next
  case (update_writes w s old ft patch doc res db')
  then have o: "keyed (w_db w) (w_used w)" "seen (w_db w) (w_used w) (r_vt old, r_tenant old, r_record old) (r_version old) (r_data old)"
    by (auto simp: world_ok_def key_of_def)
  from patch_step [OF update_writes.hyps(3) o, of "edit cd ft patch", OF update_writes.hyps(2)] show ?case
    unfolding key_of_def by (auto intro!: world_ok_extends [OF update_writes.prems] split: if_splits)
next
  case (engine_reads tenant vt rid w r db' s)
  then have k: "keyed (w_db w) (w_used w)" by (simp add: world_ok_def)
  obtain old where o: "read_row rid vt tenant (w_db w) = (Inr old, db')" "r = scan_rec old"
    using ReadRecord_row [of tenant vt rid "w_db w" r] engine_reads.hyps by auto
  note r = read_row_seen [OF o(1) k]
  show ?case using r content_same [OF conjunct1 [OF r]]
    by (auto intro!: world_ok_extends [OF engine_reads.prems] extends_same simp: o(2) scan_rec_def key_of_def split: if_splits)
next
  case (engine_writes w s r patched res db')
  then have o: "keyed (w_db w) (w_used w)" "seen (w_db w) (w_used w) (rc_VTID r, rc_WSID r, rc_ID r) (rc_Version r) (rc_Data r)"
    by (auto simp: world_ok_def)
  from engine_patch_step [OF engine_writes.hyps(2) o] show ?case
    by (auto intro!: world_ok_extends [OF engine_writes.prems] split: if_splits)
next
  case (creates vt rid w tenant doc res db')
  then have "keyed (w_db w) (w_used w)" by (simp add: world_ok_def)
  from create_step [OF creates.hyps(2) this creates.hyps(1)] show ?case
    by (auto intro!: world_ok_extends [OF creates.prems])
next
  case (deletes rid vt tenant w res db')
  from delete_step [OF deletes.hyps, of "w_used w"] show ?case by (auto intro!: world_ok_extends [OF deletes.prems])
next
  case (stops w s s')
  then show ?case by (auto intro!: world_ok_extends [OF stops.prems] extends_same split: if_splits)
next
  case (others db' w)
  then show ?case using content_same [OF others.hyps] by (auto intro!: world_ok_extends [OF others.prems] extends_same)
qed

lemma run_atomic:
  assumes "session_run cd w es w'" "world_ok w"
  shows "world_ok w' \<and> replay_events es (content (w_db w)) = Some (content (w_db w'))"
  using assms
proof (induction rule: session_run.induct)
  case (step w es w' e w'')
  then show ?case using step_atomic [of cd w' e w''] by (simp add: replay_events_append)
qed simp

text \<open>An update that succeeds is a run with one change, of the record it was asked for.\<close>

lemma UpdateRow_session:
  assumes "UpdateRow rt cd ul sv rq tbl rid cells (w_db w) = (Inr row, db')"
  shows "\<exists>w' vt t ft patch. w_db w' = db' \<and> fst ` set patch \<subseteq> fst ` set cells \<and>
    session_run cd w ([] @ [Quiet] @ [Quiet] @ [Quiet] @ [Changed (vt, t, rid) (edit cd ft patch)] @ [Quiet]) w'"
proof -
  obtain patch vt t d2 old d3 ft d4 doc n d5 where p: "fst ` set patch \<subseteq> fst ` set cells"
    and 2: "recs d2 = recs (w_db w)" and 3: "read_row rid vt t d2 = (Inr old, d3)" and 4: "recs d4 = recs d3"
    and s: "json_store cd (ft (map_merge (r_data old) patch)) = Inr doc"
    and 5: "dexec (st_patch vt t rid (r_version old) doc) d4 = (Inr n, d5)" "n \<noteq> 0" and 6: "recs db' = recs d5"
    by (rule UpdateRow_statements [OF assms])
  have old: "r_record old = rid" "r_vt old = vt" "r_tenant old = t" using read_row_Inr [OF 3] by auto
  define w1 w2 w3 w4 where "w1 = w\<lparr>w_db := d2\<rparr>" and "w2 = w1\<lparr>w_db := d3, w_rows := (w_rows w1)(0 \<mapsto> old)\<rparr>"
    and "w3 = w2\<lparr>w_db := d4\<rparr>" and "w4 = w3\<lparr>w_db := d5, w_rows := (w_rows w3)(0 := None)\<rparr>"
  note ws = w1_def w2_def w3_def w4_def
  have "session_step cd w Quiet w1" "session_step cd w2 Quiet w3" "session_step cd w4 Quiet (w4\<lparr>w_db := db'\<rparr>)"
  proof -
    have "w_db w2 = d3" "w_db w4 = d5" by (simp_all add: ws)
    then show "session_step cd w Quiet w1" "session_step cd w2 Quiet w3" "session_step cd w4 Quiet (w4\<lparr>w_db := db'\<rparr>)"
      unfolding w1_def w3_def using 2 4 6 by (auto intro: session_step.others)
  qed
  moreover have "session_step cd w1 Quiet w2"
    unfolding w2_def by (rule session_step.update_reads [of rid vt t]) (simp add: w1_def 3)
  moreover have "session_step cd w3 (Changed (vt, t, rid) (edit cd ft patch)) w4"
    using session_step.update_writes [of w3 0 old cd ft patch doc "Inr n" d5] 5 s
    by (simp add: ws old edit_def key_of_def)
  ultimately have "session_run cd w ([] @ [Quiet] @ [Quiet] @ [Quiet] @ [Changed (vt, t, rid) (edit cd ft patch)] @ [Quiet]) (w4\<lparr>w_db := db'\<rparr>)"
    using session_run.step [OF session_run.step [OF session_run.step [OF session_run.step [OF session_run.step [OF session_run.start]]]]] by fastforce
  then show ?thesis using p by (intro exI [of _ "w4\<lparr>w_db := db'\<rparr>"]) auto
qed

text \<open>
  C38. Record writes are serialisable: however the statements of concurrent requests interleave,
  with failing statements and requests that stop in between, the documents in the store are what
  the operations that were reported as done give when each is applied at once, in the order in
  which they were done. An update is computed from the document it replaces.
\<close>

theorem record_writes_serialise:
  assumes "session_run cd w es w'" "keyed (w_db w) (w_used w)" "\<And>s. w_rows w s = None" "\<And>s. w_recs w s = None"
  shows "replay_events es (content (w_db w)) = Some (content (w_db w'))"
  using run_atomic [OF assms(1)] assms(2-4) by (simp add: world_ok_def)

text \<open>Two updates that read the same version: the second is refused.\<close>

definition session_row :: rec_row where
  "session_row = \<lparr>r_vt = ''v'', r_tenant = ''a'', r_record = ''x'', r_data = [(''n'', VStr ''text'')], r_version = 1\<rparr>"

definition session_world :: "calc_db \<Rightarrow> (nat \<Rightarrow> rec_row option) \<Rightarrow> world" where
  "session_world db rows = \<lparr>w_db = db, w_rows = rows, w_recs = (\<lambda>_. None), w_used = {(''v'', ''x'')}\<rparr>"

definition session_edit :: "goobj \<Rightarrow> cerr + goobj" where
  "session_edit = edit (one_doc [(''n'', VStr ''new'')]) id [(''n'', VStr ''new'')]"

definition edited_store :: calc_db where
  "edited_store = example_store\<lparr>recs := [session_row\<lparr>r_data := [(''n'', VStr ''new'')], r_version := 2\<rparr>]\<rparr>"

lemma session_example:
  "session_run (one_doc [(''n'', VStr ''new'')]) (session_world example_store (\<lambda>_. None))
     ([] @ [Quiet] @ [Quiet] @ [Changed (key_of session_row) session_edit] @ [Quiet])
     (session_world edited_store ((\<lambda>_. None)(0 \<mapsto> session_row, 1 \<mapsto> session_row, 0 := None, 1 := None)))"
proof -
  let ?cd = "one_doc [(''n'', VStr ''new'')]" and ?doc = "[(''n'', VStr ''new'')]"
  have read: "read_row ''x'' ''v'' ''a'' example_store = (Inr session_row, example_store)" by code_simp
  have doc: "edit ?cd id ?doc (r_data session_row) = Inr ?doc" by code_simp
  have w: "dexec (st_patch (r_vt session_row) (r_tenant session_row) (r_record session_row) (r_version session_row) ?doc) example_store =
      (Inr 1, edited_store)"
    "dexec (st_patch (r_vt session_row) (r_tenant session_row) (r_record session_row) (r_version session_row) ?doc) edited_store =
      (Inr 0, edited_store)" by code_simp+
  let ?n = "\<lambda>_. None" and ?r = session_row
  have 1: "session_step ?cd (session_world example_store ?n) Quiet (session_world example_store (?n(0 \<mapsto> ?r)))"
    using session_step.update_reads [of "''x''" "''v''" "''a''" "session_world example_store ?n" ?r example_store ?cd 0] read
    by (simp add: session_world_def)
  have 2: "session_step ?cd (session_world example_store (?n(0 \<mapsto> ?r))) Quiet (session_world example_store (?n(0 \<mapsto> ?r, 1 \<mapsto> ?r)))"
    using session_step.update_reads [of "''x''" "''v''" "''a''" "session_world example_store (?n(0 \<mapsto> ?r))" ?r example_store ?cd 1] read
    by (simp add: session_world_def)
  have 3: "session_step ?cd (session_world example_store (?n(0 \<mapsto> ?r, 1 \<mapsto> ?r))) (Changed (key_of ?r) session_edit)
      (session_world edited_store (?n(0 \<mapsto> ?r, 1 \<mapsto> ?r, 0 := None)))"
    using session_step.update_writes [of "session_world example_store (?n(0 \<mapsto> ?r, 1 \<mapsto> ?r))" 0 ?r ?cd id ?doc ?doc "Inr 1" edited_store] doc w(1)
    by (simp add: session_world_def session_edit_def)
  have 4: "session_step ?cd (session_world edited_store (?n(0 \<mapsto> ?r, 1 \<mapsto> ?r, 0 := None))) Quiet
      (session_world edited_store (?n(0 \<mapsto> ?r, 1 \<mapsto> ?r, 0 := None, 1 := None)))"
    using session_step.update_writes [of "session_world edited_store (?n(0 \<mapsto> ?r, 1 \<mapsto> ?r, 0 := None))" 1 ?r ?cd id ?doc ?doc "Inr 0" edited_store] doc w(2)
    by (simp add: session_world_def)
  show ?thesis
    using session_run.step [OF session_run.step [OF session_run.step [OF session_run.step [OF session_run.start 1] 2] 3] 4] by simp
qed

theorem record_writes_serialise_witness:
  "replay_events ([] @ [Quiet] @ [Quiet] @ [Changed (key_of session_row) session_edit] @ [Quiet]) (content example_store) =
     Some (content edited_store)"
proof -
  have "keyed example_store {(''v'', ''x'')}" by (simp add: keyed_def example_store_def)
  then show ?thesis using record_writes_serialise [OF session_example] by (simp add: session_world_def)
qed

end
