(* ===== verification/Calc_Workers.thy ===== *)
theory Calc_Workers
  imports Calc_Engine
begin

text \<open>
  Several workers on one queue (\<open>calc/queue.go\<close>, \<open>worker.go\<close>). \<open>ClaimFair\<close> selects due rows with
  \<open>FOR UPDATE SKIP LOCKED\<close> in a transaction and marks them; between the two statements the rows are
  locked for the others. A pool is the store with what every worker has locked, selected and
  claimed; the statements of the workers interleave with each other and with requests that
  enqueue, replay or purge tasks, and any statement may fail.
\<close>

section \<open>Steps\<close>

record worker_pool =
  p_db :: calc_db
  p_lock :: "nat \<Rightarrow> int list" \<comment> \<open>rows locked by the open transaction of a worker\<close>
  p_out :: "nat \<Rightarrow> int list" \<comment> \<open>rows the transaction has selected\<close>
  p_work :: "nat \<Rightarrow> int list" \<comment> \<open>claimed rows that are not finished\<close>

definition unlock :: "int list \<Rightarrow> calc_db \<Rightarrow> calc_db" where
  "unlock is db = db\<lparr>locked := filter (\<lambda>i. i \<notin> set is) (locked db)\<rparr>"

inductive worker_step :: "worker_pool \<Rightarrow> worker_pool \<Rightarrow> bool" where
  selects:
    "p_lock P s = [] \<Longrightarrow> p_work P s = [] \<Longrightarrow> due = take (nat (batch * 4)) (due_rows (p_db P)) \<Longrightarrow>
     worker_step P (P\<lparr>p_db := (p_db P)\<lparr>locked := map q_id due @ locked (p_db P)\<rparr>, p_lock := (p_lock P)(s := map q_id due),
       p_out := (p_out P)(s := map q_id (claim_rows batch perTenant (p_db P)))\<rparr>)"
| commits:
    "p_work P s = [] \<Longrightarrow>
     worker_step P (P\<lparr>p_db := unlock (p_lock P s) (snd (st_mark (p_out P s) (p_db P))), p_lock := (p_lock P)(s := []),
       p_out := (p_out P)(s := []), p_work := (p_work P)(s := p_out P s)\<rparr>)"
| rolls_back:
    "worker_step P (P\<lparr>p_db := unlock (p_lock P s) (p_db P), p_lock := (p_lock P)(s := []), p_out := (p_out P)(s := [])\<rparr>)"
| completes:
    "i \<in> set (p_work P s) \<Longrightarrow> MarkCompleted i (p_db P) = (res, db') \<Longrightarrow>
     worker_step P (P\<lparr>p_db := db', p_work := (p_work P)(s := removeAll i (p_work P s))\<rparr>)"
| retries:
    "t_ID t \<in> set (p_work P s) \<Longrightarrow> MarkRetry t cause (p_db P) = (res, db') \<Longrightarrow>
     worker_step P (P\<lparr>p_db := db', p_work := (p_work P)(s := removeAll (t_ID t) (p_work P s))\<rparr>)"
| dies:
    "worker_step P (P\<lparr>p_db := unlock (p_lock P s) (p_db P), p_lock := (p_lock P)(s := []), p_out := (p_out P)(s := []),
       p_work := (p_work P)(s := [])\<rparr>)"
| enqueues: "Enqueue tenant tbl rid ids (p_db P) = (res, db') \<Longrightarrow> worker_step P (P\<lparr>p_db := db'\<rparr>)"
| enqueues_table: "EnqueueTable tenant tbl vt ids (p_db P) = (res, db') \<Longrightarrow> worker_step P (P\<lparr>p_db := db'\<rparr>)"
| purges: "PurgeFinished (p_db P) = (res, db') \<Longrightarrow> worker_step P (P\<lparr>p_db := db'\<rparr>)"
| replays: "ReplayDeadLetters tenant limit (p_db P) = (out, db') \<Longrightarrow> worker_step P (P\<lparr>p_db := db'\<rparr>)"
| ticks: "worker_step P (P\<lparr>p_db := (p_db P)\<lparr>clock := c\<rparr>\<rparr>)"

inductive worker_run :: "worker_pool \<Rightarrow> worker_pool \<Rightarrow> bool" for P where
  start: "worker_run P P"
| step: "worker_run P P' \<Longrightarrow> worker_step P' P'' \<Longrightarrow> worker_run P P''"

section \<open>Claimed rows\<close>

text \<open>Rows that are worked on are not pending, and no new row gets their number.\<close>

definition busy :: "int set \<Rightarrow> int list \<Rightarrow> int \<Rightarrow> calc_db \<Rightarrow> bool" where
  "busy W L n db \<longleftrightarrow> queue_wf db \<and> (\<forall>r \<in> set (queue db). q_id r \<in> W \<longrightarrow> q_status r \<noteq> StatusPending) \<and> (\<forall>i \<in> W. i < n) \<and>
     n \<le> queue_seq db \<and> locked db = L"

interpretation busy: db_frame "busy W L n" for W L n
  by unfold_locales (simp_all add: busy_def)

lemma busyI:
  assumes "busy W L n db" "queue_wf db \<Longrightarrow> queue_wf db'" "queue_seq db \<le> queue_seq db'" "locked db' = locked db"
    and "\<And>r. r \<in> set (queue db') \<Longrightarrow>
      (\<exists>r0 \<in> set (queue db). q_id r0 = q_id r \<and> (q_status r = StatusPending \<longrightarrow> q_status r0 = StatusPending)) \<or> queue_seq db \<le> q_id r \<or> q_id r \<notin> W"
  shows "busy W L n db'"
proof -
  have "q_status r \<noteq> StatusPending" if "r \<in> set (queue db')" "q_id r \<in> W" for r
    using assms(1) assms(5) [OF that(1)] that(2) unfolding busy_def by fastforce
  then show ?thesis using assms(1-4) by (auto simp: busy_def)
qed

text \<open>The statements that concern no claimed row.\<close>

lemma busy_statements:
  assumes b: "busy W L n db"
  shows "busy W L n (snd (st_enqueue tenant tbl rid ids db))"
    "busy W L n (snd (st_widen tenant tbl db))"
    "busy W L n (snd (st_enqueue_table tenant tbl vt ids db))"
    "busy W L n (snd (st_delete_task i db))"
    "busy W L n (snd (st_bury i m msg db))"
    "busy W L n (snd (st_purge db))"
    "busy W L n (snd (st_delete_dead i db))"
    "i \<notin> W \<Longrightarrow> 0 \<le> m \<Longrightarrow> busy W L n (snd (st_requeue i m secs msg db))"
proof -
  show "busy W L n (snd (st_enqueue tenant tbl rid ids db))"
    by (rule busyI [OF b queue_inv.inv_enqueue]) (auto simp: st_enqueue_def new_task_def split: if_splits)
  show "busy W L n (snd (st_widen tenant tbl db))"
    by (rule busyI [OF b queue_inv.inv_widen]) (auto simp: st_widen_def)
  show "busy W L n (snd (st_enqueue_table tenant tbl vt ids db))"
    by (rule busyI [OF b queue_inv.inv_enqueue_table])
      (auto simp: st_enqueue_table_def Let_def dest!: conjunct2 [OF number_tasks_sorted, rule_format])
  show "busy W L n (snd (st_delete_task i db))" by (rule busyI [OF b queue_inv.inv_delete_task]) (auto simp: st_delete_task_def)
  show "busy W L n (snd (st_bury i m msg db))" by (rule busyI [OF b queue_inv.inv_bury]) (auto simp: st_bury_def Let_def)
  show "busy W L n (snd (st_purge db))" by (rule busyI [OF b queue_inv.inv_purge]) (auto simp: st_purge_def)
  show "busy W L n (snd (st_delete_dead i db))" by (rule busyI [OF b queue_inv.inv_delete_dead]) (auto simp: st_delete_dead_def)
  show "i \<notin> W \<Longrightarrow> 0 \<le> m \<Longrightarrow> busy W L n (snd (st_requeue i m secs msg db))"
    by (rule busyI [OF b queue_inv.inv_requeue]) (auto simp: st_requeue_def)
qed

text \<open>The operations between the claims of the workers.\<close>

lemma busy_operations:
  "keeps (busy W L n) (Enqueue tenant tbl rid ids)" "keeps (busy W L n) (EnqueueTable tenant tbl vt ids)"
  "keeps (busy W L n) (MarkCompleted i)" "keeps (busy W L n) PurgeFinished"
  "t_ID t \<notin> W \<Longrightarrow> keeps (busy W L n) (MarkRetry t cause)"
proof -
  note st = busy.keeps_exec busy_statements
  show "keeps (busy W L n) (Enqueue tenant tbl rid ids)" "keeps (busy W L n) (EnqueueTable tenant tbl vt ids)"
    "keeps (busy W L n) (MarkCompleted i)" "keeps (busy W L n) PurgeFinished"
    unfolding Enqueue_def EnqueueTable_def MarkCompleted_def PurgeFinished_def by (auto intro!: keep_rules st)
  assume t: "t_ID t \<notin> W"
  have "0 \<le> t_RetryCount t + 1" if "backoff (t_RetryCount t + 1) = Inr secs" for secs
    using that by (auto simp: backoff_def Let_def split: if_splits)
  then show "keeps (busy W L n) (MarkRetry t cause)"
    unfolding MarkRetry_def Let_def by (auto intro!: keep_rules st t split: sum.split)
qed

lemma replay_keeps:
  assumes "\<And>t tb r ids. keeps I (Enqueue t tb r ids)" "\<And>j. keeps I (dexec (st_delete_dead j))"
  shows "I db \<Longrightarrow> I (snd (replay m rs db))"
proof (induction m rs db rule: replay.induct)
  case (2 m r rs db)
  obtain res db1 where e: "Enqueue (d_tenant r) (d_table r) (d_record r) (d_fields r) db = (res, db1)" by fastforce
  obtain res' db2 where d: "dexec (st_delete_dead (d_id r)) db1 = (res', db2)" by fastforce
  have 1: "I db1" by (rule keepsD [OF assms(1) e "2.prems"])
  have 2: "I db2" by (rule keepsD [OF assms(2) d 1])
  show ?case using "2.IH" e d 1 2 by (auto split: sum.splits)
qed simp

lemma Replay_keeps:
  assumes "\<And>t tb r ids. keeps I (Enqueue t tb r ids)" "\<And>j. keeps I (dexec (st_delete_dead j))" "\<And>f :: calc_db \<Rightarrow> dead_row list. keeps I (dquery f)"
  shows "I db \<Longrightarrow> I (snd (ReplayDeadLetters tenant limit db))"
  unfolding ReplayDeadLetters_def Let_def
  by (auto split: prod.splits sum.splits dest: keepsD [OF assms(3)] replay_keeps [OF assms(1,2)])

lemma busy_Replay: "busy W L n db \<Longrightarrow> busy W L n (snd (ReplayDeadLetters tenant limit db))"
  by (rule Replay_keeps) (auto intro!: busy_operations busy.keeps_exec busy.keeps_query busy_statements)

section \<open>Workers do not share rows\<close>

abbreviation all_work :: "worker_pool \<Rightarrow> int set" where
  "all_work P \<equiv> (\<Union>s. set (p_work P s))"

definition pool_ok :: "worker_pool \<Rightarrow> bool" where
  "pool_ok P \<longleftrightarrow>
     busy (all_work P) (locked (p_db P)) (queue_seq (p_db P)) (p_db P) \<and>
     (\<forall>s. set (p_lock P s) \<subseteq> set (locked (p_db P)) \<and> set (p_out P s) \<subseteq> set (p_lock P s) \<and> (\<forall>i \<in> set (p_lock P s). i < queue_seq (p_db P))) \<and>
     (\<forall>s s'. s \<noteq> s' \<longrightarrow> set (p_lock P s) \<inter> set (p_lock P s') = {} \<and> set (p_work P s) \<inter> set (p_work P s') = {}) \<and>
     (\<forall>s s'. set (p_lock P s) \<inter> set (p_work P s') = {})"

lemma pool_okI:
  assumes "busy (all_work P) (locked (p_db P)) (queue_seq (p_db P)) (p_db P)"
    and "\<And>s. set (p_lock P s) \<subseteq> set (locked (p_db P))" "\<And>s. set (p_out P s) \<subseteq> set (p_lock P s)"
    and "\<And>s i. i \<in> set (p_lock P s) \<Longrightarrow> i < queue_seq (p_db P)"
    and "\<And>s s' i. i \<in> set (p_lock P s) \<Longrightarrow> i \<in> set (p_lock P s') \<Longrightarrow> s = s'"
    and "\<And>s s' i. i \<in> set (p_work P s) \<Longrightarrow> i \<in> set (p_work P s') \<Longrightarrow> s = s'"
    and "\<And>s s' i. i \<in> set (p_lock P s) \<Longrightarrow> i \<notin> set (p_work P s')"
  shows "pool_ok P"
  unfolding pool_ok_def using assms by (meson disjoint_iff)

lemma pool_okD:
  assumes "pool_ok P"
  shows "busy (all_work P) (locked (p_db P)) (queue_seq (p_db P)) (p_db P)"
    and "set (p_lock P s) \<subseteq> set (locked (p_db P))" "set (p_out P s) \<subseteq> set (p_lock P s)"
    and "i \<in> set (p_lock P s) \<Longrightarrow> i < queue_seq (p_db P)"
    and "i \<in> set (p_lock P s) \<Longrightarrow> i \<in> set (p_lock P s') \<Longrightarrow> s = s'"
    and "i \<in> set (p_work P s) \<Longrightarrow> i \<in> set (p_work P s') \<Longrightarrow> s = s'"
    and "i \<in> set (p_lock P s) \<Longrightarrow> i \<notin> set (p_work P s')"
  using assms unfolding pool_ok_def by blast+

lemma busy_later: "busy W L n db \<Longrightarrow> busy W (locked db) (queue_seq db) db"
  by (fastforce simp: busy_def)

lemma pool_other:
  assumes "pool_ok P" "busy (all_work P) (locked (p_db P)) (queue_seq (p_db P)) db'"
  shows "pool_ok (P\<lparr>p_db := db'\<rparr>)"
proof (rule pool_okI, goal_cases)
  case 1
  then show ?case using busy_later [OF assms(2)] by simp
next
  case (4 s i)
  then have "i < queue_seq (p_db P)" using pool_okD(4) [OF assms(1)] by simp
  then show ?case using assms(2) by (simp add: busy_def)
qed (use pool_okD [OF assms(1)] assms(2) in \<open>simp_all add: busy_def\<close>)

lemma pool_shrink:
  assumes "pool_ok P" "\<And>s. set (work s) \<subseteq> set (p_work P s)"
  shows "pool_ok (P\<lparr>p_work := work\<rparr>)"
proof (rule pool_okI, goal_cases)
  case 1
  have "(\<Union>s. set (work s)) \<subseteq> all_work P" using assms(2) by blast
  then show ?case using pool_okD(1) [OF assms(1)] unfolding busy_def by simp blast
next
  case (6 s s' i)
  then show ?case using pool_okD(6) [OF assms(1)] assms(2) by simp blast
next
  case (7 s s' i)
  then show ?case using pool_okD(7) [OF assms(1)] assms(2) by simp blast
qed (use pool_okD(2-5) [OF assms(1)] in simp_all)

lemma busy_locked: "busy W L n db \<Longrightarrow> busy W L' n (db\<lparr>locked := L'\<rparr>)"
  by (simp add: busy_def queue_wf_def)

text \<open>The end of a transaction: its locks are released, those of the other workers stay.\<close>

lemma pool_unlock:
  assumes "pool_ok P"
  shows "pool_ok (P\<lparr>p_db := unlock (p_lock P s) (p_db P), p_lock := (p_lock P)(s := []), p_out := (p_out P)(s := [])\<rparr>)"
proof (rule pool_okI, goal_cases)
  case 1
  then show ?case using busy_locked [OF pool_okD(1) [OF assms]] by (simp add: unlock_def)
next
  case (2 s')
  then show ?case using pool_okD(2,5) [OF assms] by (auto simp: unlock_def)
qed (use pool_okD(3-7) [OF assms] in \<open>auto simp: unlock_def split: if_splits\<close>)

lemma due_rows_in: "r \<in> set (take k (due_rows db)) \<Longrightarrow> r \<in> set (queue db) \<and> q_status r = StatusPending \<and> q_id r \<notin> set (locked db)"
  by (auto simp: due_rows_def dest!: in_set_takeD)

lemma claim_rows_due: "set (claim_rows batch perTenant db) \<subseteq> set (take (nat (batch * 4)) (due_rows db))"
  unfolding claim_rows_def Let_def by (auto dest!: in_set_takeD)

lemma pool_select:
  assumes "pool_ok P" "p_lock P s = []" "due = take (nat (batch * 4)) (due_rows (p_db P))"
  shows "pool_ok (P\<lparr>p_db := (p_db P)\<lparr>locked := map q_id due @ locked (p_db P)\<rparr>, p_lock := (p_lock P)(s := map q_id due),
       p_out := (p_out P)(s := map q_id (claim_rows batch perTenant (p_db P)))\<rparr>)"
proof -
  have due: "r \<in> set (queue (p_db P)) \<and> q_status r = StatusPending \<and> q_id r \<notin> set (locked (p_db P))" if "r \<in> set due" for r
    using due_rows_in that unfolding assms(3) by blast
  have free: "q_id r \<notin> set (p_lock P s') \<and> q_id r \<notin> set (p_work P s') \<and> q_id r < queue_seq (p_db P)" if "r \<in> set due" for r s'
  proof -
    have "\<forall>r \<in> set (queue (p_db P)). q_id r \<in> all_work P \<longrightarrow> q_status r \<noteq> StatusPending"
      "\<forall>r \<in> set (queue (p_db P)). q_id r < queue_seq (p_db P)"
      using pool_okD(1) [OF assms(1)] by (simp_all add: busy_def queue_wf_def)
    then show ?thesis using due [OF that] pool_okD(2) [OF assms(1), of s'] by blast
  qed
  have out: "set (map q_id (claim_rows batch perTenant (p_db P))) \<subseteq> set (map q_id due)"
    using claim_rows_due unfolding assms(3) by fastforce
  show ?thesis
  proof (rule pool_okI, goal_cases)
    case 1
    then show ?case using busy_locked [OF pool_okD(1) [OF assms(1)]] by simp
  next
    case (2 s')
    then show ?case using pool_okD(2) [OF assms(1)] by auto
  next
    case (3 s')
    then show ?case using out pool_okD(3) [OF assms(1)] by simp
  next
    case (4 s' i)
    then show ?case using free pool_okD(4) [OF assms(1)] by (auto split: if_splits)
  next
    case (5 s' s'' i)
    then show ?case using free pool_okD(5) [OF assms(1)] by (auto split: if_splits)
  next
    case (6 s' s'' i)
    then show ?case using pool_okD(6) [OF assms(1)] by simp
  next
    case (7 s' s'' i)
    then show ?case using free pool_okD(7) [OF assms(1)] by (auto split: if_splits)
  qed
qed

lemma pool_commit:
  assumes "pool_ok P" "p_work P s = []"
  shows "pool_ok (P\<lparr>p_db := unlock (p_lock P s) (snd (st_mark (p_out P s) (p_db P))), p_lock := (p_lock P)(s := []),
       p_out := (p_out P)(s := []), p_work := (p_work P)(s := p_out P s)\<rparr>)"
proof -
  let ?db = "snd (st_mark (p_out P s) (p_db P))"
  note D = pool_okD [OF assms(1)]
  have W: "(\<Union>s'. set (((p_work P)(s := p_out P s)) s')) = all_work P \<union> set (p_out P s)"
    using assms(2) by (auto split: if_splits) (metis empty_iff list.set(1))
  have out: "i < queue_seq (p_db P)" "i \<notin> set (p_work P s')" "i \<in> set (p_lock P s') \<Longrightarrow> s = s'" if "i \<in> set (p_out P s)" for i s'
    using D(3) [of s] D(4,5,7) that by blast+
  have "queue_wf ?db" using D(1) queue_inv.inv_mark unfolding busy_def by blast
  then have b: "busy (all_work P \<union> set (p_out P s)) (locked (p_db P)) (queue_seq (p_db P)) ?db"
    using D(1) out unfolding busy_def by (auto simp: st_mark_def status_defs split: if_splits)
  show ?thesis
  proof (rule pool_okI, goal_cases)
    case 1
    then show ?case using busy_locked [OF b] W by (simp add: unlock_def st_mark_def)
  next
    case (2 s')
    then show ?case using D(2,5) by (auto simp: unlock_def st_mark_def)
  next
    case (6 s' s'' i)
    then show ?case using D(6) out by (auto split: if_splits)
  next
    case (7 s' s'' i)
    then show ?case using D(7) out(3) by (auto split: if_splits; metis)
  qed (use D(3-7) in \<open>auto simp: unlock_def st_mark_def split: if_splits\<close>)
qed

lemma step_pool_ok: "worker_step P P' \<Longrightarrow> pool_ok P \<Longrightarrow> pool_ok P'"
proof (induction rule: worker_step.induct)
  case (selects P s due batch perTenant)
  then show ?case by (intro pool_select)
next
  case (commits P s)
  then show ?case by (intro pool_commit)
next
  case (rolls_back P s)
  then show ?case by (rule pool_unlock)
next
  case (completes i P s res db')
  from pool_shrink [OF pool_other [OF completes.prems keepsD [OF busy_operations(3) completes.hyps(2) pool_okD(1) [OF completes.prems]]],
      of "(p_work P)(s := removeAll i (p_work P s))"]
  show ?case by simp
next
  case (retries t P s cause res db')
  let ?P = "P\<lparr>p_work := (p_work P)(s := removeAll (t_ID t) (p_work P s))\<rparr>"
  have P: "pool_ok ?P" by (rule pool_shrink [OF retries.prems]) auto
  have "t_ID t \<notin> all_work ?P" using pool_okD(6) [OF retries.prems] retries.hyps(1) by auto
  have "busy (all_work ?P) (locked (p_db ?P)) (queue_seq (p_db ?P)) db'"
    by (rule keepsD [OF busy_operations(5) [OF \<open>t_ID t \<notin> all_work ?P\<close>] _ pool_okD(1) [OF P]]) (simp, rule retries.hyps(2))
  from pool_other [OF P this] show ?case by (cases P) simp
next
  case (dies P s)
  from pool_shrink [OF pool_unlock [OF dies.prems, of s], of "(p_work P)(s := [])"] show ?case by simp
next
  case (enqueues tenant tbl rid ids P res db')
  show ?case by (rule pool_other [OF enqueues.prems keepsD [OF busy_operations(1) enqueues.hyps pool_okD(1) [OF enqueues.prems]]])
next
  case (enqueues_table tenant tbl vt ids P res db')
  show ?case by (rule pool_other [OF enqueues_table.prems keepsD [OF busy_operations(2) enqueues_table.hyps pool_okD(1) [OF enqueues_table.prems]]])
next
  case (purges P res db')
  show ?case by (rule pool_other [OF purges.prems keepsD [OF busy_operations(4) purges.hyps pool_okD(1) [OF purges.prems]]])
next
  case (replays tenant limit P out db')
  then show ?case using busy_Replay [OF pool_okD(1), of P tenant limit] by (intro pool_other) auto
next
  case (ticks P c)
  from pool_okD(1) [OF ticks] have "busy (all_work P) (locked (p_db P)) (queue_seq (p_db P)) ((p_db P)\<lparr>clock := c\<rparr>)"
    by (simp add: busy_def queue_wf_def)
  then show ?case by (rule pool_other [OF ticks])
qed

lemma run_pool_ok: "worker_run P P' \<Longrightarrow> pool_ok P \<Longrightarrow> pool_ok P'"
  by (induction rule: worker_run.induct) (auto intro: step_pool_ok)

definition idle_pool :: "calc_db \<Rightarrow> worker_pool" where
  "idle_pool db = \<lparr>p_db = db, p_lock = (\<lambda>_. []), p_out = (\<lambda>_. []), p_work = (\<lambda>_. [])\<rparr>"

lemma idle_pool_ok: "queue_wf db \<Longrightarrow> pool_ok (idle_pool db)"
  by (simp add: pool_ok_def idle_pool_def busy_def)

text \<open>
  C39. No task is processed twice at the same time: however the transactions, finished tasks,
  retries and crashes of any number of workers interleave with requests to the queue, the rows
  claimed by different workers are distinct, and so are the rows that their open transactions
  have selected; a claimed row is not pending, so nobody can claim it until its worker gives it
  back.
\<close>

theorem claims_exclusive:
  assumes "worker_run (idle_pool db) P" "queue_wf db" "s \<noteq> s'"
  shows "set (p_work P s) \<inter> (set (p_work P s') \<union> set (p_out P s')) = {} \<and> set (p_out P s) \<inter> set (p_out P s') = {} \<and>
    (\<forall>r \<in> set (queue (p_db P)). q_id r \<in> set (p_work P s) \<longrightarrow> q_status r \<noteq> StatusPending)"
proof -
  note D = pool_okD [OF run_pool_ok [OF assms(1) idle_pool_ok [OF assms(2)]]]
  have "\<forall>r \<in> set (queue (p_db P)). q_id r \<in> set (p_work P s) \<longrightarrow> q_status r \<noteq> StatusPending" using D(1) unfolding busy_def by blast
  moreover have "set (p_work P s) \<inter> (set (p_work P s') \<union> set (p_out P s')) = {}" "set (p_out P s) \<inter> set (p_out P s') = {}"
    using D(3) [of s] D(3) [of s'] D(5-7) assms(3) by blast+
  ultimately show ?thesis by blast
qed

text \<open>Two workers take one task each.\<close>

definition claimed_pool :: "calc_db \<Rightarrow> (nat \<Rightarrow> int list) \<Rightarrow> worker_pool" where
  "claimed_pool db work = (idle_pool db)\<lparr>p_work := work\<rparr>"

lemma claim_steps:
  assumes "work s = []" "due = take (nat (batch * 4)) (due_rows db)" "out = map q_id (claim_rows batch perTenant db)"
  shows "worker_run P (claimed_pool db work) \<Longrightarrow>
    worker_run P (claimed_pool (unlock (map q_id due) (snd (st_mark out (db\<lparr>locked := map q_id due @ locked db\<rparr>)))) (work(s := out)))"
proof -
  let ?P = "claimed_pool db work"
  let ?Q = "?P\<lparr>p_db := db\<lparr>locked := map q_id due @ locked db\<rparr>, p_lock := (\<lambda>_. [])(s := map q_id due), p_out := (\<lambda>_. [])(s := out)\<rparr>"
  have "worker_step ?P ?Q"
    using worker_step.selects [of ?P s due batch perTenant] assms by (simp add: claimed_pool_def idle_pool_def)
  moreover have "worker_step ?Q (claimed_pool (unlock (map q_id due) (snd (st_mark out (db\<lparr>locked := map q_id due @ locked db\<rparr>)))) (work(s := out)))"
    using worker_step.commits [of ?Q s] assms(1) by (simp add: claimed_pool_def idle_pool_def fun_upd_idem)
  ultimately show "worker_run P ?P \<Longrightarrow> ?thesis" by (meson worker_run.step)
qed

text \<open>\<open>ClaimFair\<close> is a selection and a commit, with the rows it returns as the claim.\<close>

lemma ClaimFair_steps:
  assumes "ClaimFair b p db = (Inr ts, db')" "work s = []"
  shows "\<exists>db2. worker_run (claimed_pool db work) (claimed_pool db2 (work(s := map t_ID ts))) \<and> queue db2 = queue db' \<and> locked db2 = locked db'"
proof -
  define batch share where "batch = or_default b 16" and "share = or_default p (or_default b 16)"
  note res = ClaimFair_Inr [OF assms(1), folded batch_def share_def]
  let ?due = "take (nat (batch * 4)) (due_rows db)"
  let ?db2 = "unlock (map q_id ?due) (snd (st_mark (map t_ID ts) (db\<lparr>locked := map q_id ?due @ locked db\<rparr>)))"
  have "map t_ID ts = map q_id (claim_rows batch share db)" by (simp add: res(1) scan_task_def)
  from claim_steps [of work s, OF assms(2) refl this worker_run.start]
  have "worker_run (claimed_pool db work) (claimed_pool ?db2 (work(s := map t_ID ts)))" .
  moreover have "queue ?db2 = queue db'" by (subst res(2)) (simp add: unlock_def st_mark_def)
  moreover have "locked ?db2 = locked db'"
  proof -
    have "filter (\<lambda>i. i \<notin> q_id ` set ?due) (locked db) = locked db"
      using due_rows_in by (intro filter_True) fastforce
    moreover have "locked db' = locked db" by (subst res(2)) simp
    ultimately show ?thesis by (simp add: unlock_def st_mark_def filter_empty_conv)
  qed
  ultimately show ?thesis by blast
qed

definition two_claimed :: "int \<Rightarrow> int \<Rightarrow> calc_db" where
  "two_claimed a b = store_of [row_of 1 ''a'' ''x'' [] a, row_of 2 ''a'' ''y'' [] b]"

lemma two_claims: "worker_run (idle_pool (two_claimed 0 0)) (claimed_pool (two_claimed 1 1) ((\<lambda>_. [])(0 := [1], 1 := [2])))"
proof -
  have 0: "worker_run (idle_pool (two_claimed 0 0)) (claimed_pool (two_claimed 0 0) (\<lambda>_. []))"
    using worker_run.start by (simp add: claimed_pool_def idle_pool_def)
  have a: "[1] = map q_id (claim_rows 1 1 (two_claimed 0 0))"
    "unlock (map q_id (take (nat (1 * 4)) (due_rows (two_claimed 0 0))))
      (snd (st_mark [1] ((two_claimed 0 0)\<lparr>locked := map q_id (take (nat (1 * 4)) (due_rows (two_claimed 0 0))) @ locked (two_claimed 0 0)\<rparr>))) = two_claimed 1 0"
    by code_simp+
  have b: "[2] = map q_id (claim_rows 1 1 (two_claimed 1 0))"
    "unlock (map q_id (take (nat (1 * 4)) (due_rows (two_claimed 1 0))))
      (snd (st_mark [2] ((two_claimed 1 0)\<lparr>locked := map q_id (take (nat (1 * 4)) (due_rows (two_claimed 1 0))) @ locked (two_claimed 1 0)\<rparr>))) = two_claimed 1 1"
    by code_simp+
  have 1: "worker_run (idle_pool (two_claimed 0 0)) (claimed_pool (two_claimed 1 0) ((\<lambda>_. [])(0 := [1])))"
    using claim_steps [of "\<lambda>_. []" 0, OF _ refl a(1) 0] unfolding a(2) by simp
  show ?thesis using claim_steps [of "(\<lambda>_. [])(0 := [1])" 1, OF _ refl b(1) 1] unfolding b(2) by simp
qed

theorem claims_exclusive_witness:
  "let P = claimed_pool (two_claimed 1 1) ((\<lambda>_. [])(0 := [1], 1 := [2]))
   in set (p_work P 0) = {1} \<and> set (p_work P 0) \<inter> (set (p_work P 1) \<union> set (p_out P 1)) = {}"
proof -
  have "queue_wf (two_claimed 0 0)" by (simp add: two_claimed_def queue_wf_def store_of_def row_of_def default_max_retry_def)
  from claims_exclusive [OF two_claims this, of 0 1] show ?thesis by (simp add: claimed_pool_def Let_def)
qed

section \<open>Defects\<close>

text \<open>A claimed row whose worker died is never pending again and never leaves the queue.\<close>

definition processing :: "int \<Rightarrow> calc_db \<Rightarrow> bool" where
  "processing i db \<longleftrightarrow> (\<exists>r \<in> set (queue db). q_id r = i \<and> q_status r = StatusProcessing)"

interpretation processing: db_frame "processing i" for i
  by unfold_locales (simp_all add: processing_def)

lemma processing_statements:
  assumes p: "processing i db"
  shows "processing i (snd (st_enqueue tenant tbl rid ids db))" "processing i (snd (st_widen tenant tbl db))"
    "processing i (snd (st_enqueue_table tenant tbl vt ids db))" "processing i (snd (st_bury j m msg db))"
    "processing i (snd (st_purge db))" "processing i (snd (st_delete_dead j db))"
    "j \<noteq> i \<Longrightarrow> processing i (snd (st_delete_task j db))" "j \<noteq> i \<Longrightarrow> processing i (snd (st_requeue j m secs msg db))"
  using p by (auto simp: processing_def statement_defs status_defs Let_def)

lemma processing_mark: "processing i db \<Longrightarrow> processing i (snd (st_mark ids db))"
proof -
  assume "processing i db"
  then obtain r where r: "r \<in> set (queue db)" "q_id r = i" "q_status r = StatusProcessing" by (auto simp: processing_def)
  let ?g = "\<lambda>r. if q_id r \<in> set ids then r\<lparr>q_status := StatusProcessing\<rparr> else r"
  have "?g r \<in> set (map ?g (queue db))" using r(1) by (simp only: set_map) (rule imageI)
  moreover have "q_id (?g r) = i" "q_status (?g r) = StatusProcessing" using r by simp_all
  ultimately show ?thesis unfolding processing_def st_mark_def by auto
qed

lemma processing_operations:
  "keeps (processing i) (Enqueue tenant tbl rid ids)" "keeps (processing i) (EnqueueTable tenant tbl vt ids)"
  "keeps (processing i) PurgeFinished" "j \<noteq> i \<Longrightarrow> keeps (processing i) (MarkCompleted j)"
  "t_ID t \<noteq> i \<Longrightarrow> keeps (processing i) (MarkRetry t cause)" "keeps (processing i) (dexec (st_delete_dead j))"
proof -
  note st = processing.keeps_exec processing_statements
  show "keeps (processing i) (Enqueue tenant tbl rid ids)" "keeps (processing i) (EnqueueTable tenant tbl vt ids)"
    "keeps (processing i) PurgeFinished" "j \<noteq> i \<Longrightarrow> keeps (processing i) (MarkCompleted j)" "keeps (processing i) (dexec (st_delete_dead j))"
    unfolding Enqueue_def EnqueueTable_def MarkCompleted_def PurgeFinished_def by (auto intro!: keep_rules st)
  show "t_ID t \<noteq> i \<Longrightarrow> keeps (processing i) (MarkRetry t cause)"
    unfolding MarkRetry_def Let_def by (auto intro!: keep_rules st split: sum.split)
qed

lemma due_not_processing:
  assumes "queue_wf db" "processing i db" "r \<in> set (take k (due_rows db))"
  shows "q_id r \<noteq> i"
proof -
  obtain r' where r': "r' \<in> set (queue db)" "q_id r' = i" "q_status r' = StatusProcessing" using assms(2) by (auto simp: processing_def)
  have "inj_on q_id (set (queue db))" using assms(1) unfolding queue_wf_def by (meson strict_sorted_iff distinct_map)
  then have "q_id r = q_id r' \<longrightarrow> r = r'" using r'(1) due_rows_in [OF assms(3)] by (meson inj_onD)
  moreover have "r \<noteq> r'" using r'(3) due_rows_in [OF assms(3)] by (auto simp: status_defs)
  ultimately show ?thesis using r'(2) by metis
qed

definition stranded :: "int \<Rightarrow> worker_pool \<Rightarrow> bool" where
  "stranded i P \<longleftrightarrow> pool_ok P \<and> processing i (p_db P) \<and> (\<forall>s. i \<notin> set (p_lock P s) \<and> i \<notin> set (p_work P s))"

lemma stranded_step: "worker_step P P' \<Longrightarrow> stranded i P \<Longrightarrow> stranded i P'"
proof -
  assume st: "worker_step P P'" and "stranded i P"
  then have P: "pool_ok P" "processing i (p_db P)" "\<And>s. i \<notin> set (p_lock P s)" "\<And>s. i \<notin> set (p_work P s)" by (auto simp: stranded_def)
  have out: "i \<notin> set (p_out P s)" for s using pool_okD(3) [OF P(1)] P(3) by blast
  have wf: "queue_wf (p_db P)" using pool_okD(1) [OF P(1)] by (simp add: busy_def)
  have frame: "processing i (db\<lparr>locked := L\<rparr>) = processing i db" "processing i (db\<lparr>clock := c\<rparr>) = processing i db" for db L c
    by (simp_all add: processing_def)
  have "processing i (p_db P') \<and> (\<forall>s. i \<notin> set (p_lock P' s) \<and> i \<notin> set (p_work P' s))"
    using st P(2-4) out wf
  proof (induction rule: worker_step.induct)
    case (selects P s due batch perTenant)
    then show ?case using due_not_processing [of "p_db P" i _ "nat (batch * 4)"] by (auto simp: frame)
  next
    case (completes j P s res db')
    then have "j \<noteq> i" by auto
    from keepsD [OF processing_operations(4) [OF this] completes.hyps(2)] completes show ?case by auto
  next
    case (retries t P s cause res db')
    then have "t_ID t \<noteq> i" by auto
    from keepsD [OF processing_operations(5) [OF this] retries.hyps(2)] retries show ?case by auto
  next
    case (replays tenant limit P out db')
    have "processing i (snd (ReplayDeadLetters tenant limit (p_db P)))"
      by (rule Replay_keeps [OF processing_operations(1,6) processing.keeps_query replays.prems(1)])
    then show ?case using replays by simp
  qed (auto simp: unlock_def frame processing_mark dest: keepsD [OF processing_operations(1)] keepsD [OF processing_operations(2)]
      keepsD [OF processing_operations(3)] split: if_splits)
  then show ?thesis using step_pool_ok [OF st P(1)] by (simp add: stranded_def)
qed

lemma stranded_for_ever: "worker_run P P' \<Longrightarrow> stranded i P \<Longrightarrow> stranded i P'"
  by (induction rule: worker_run.induct) (auto intro: stranded_step)

text \<open>A worker that dies after its claim leaves such a row.\<close>

lemma dead_worker_strands_task: "\<exists>P. worker_run (idle_pool (two_claimed 0 0)) P \<and> stranded 1 P"
proof -
  let ?P = "claimed_pool (two_claimed 1 1) ((\<lambda>_. [])(0 := [1], 1 := [2]))"
  let ?Q = "?P\<lparr>p_db := unlock (p_lock ?P 0) (p_db ?P), p_lock := (p_lock ?P)(0 := []), p_out := (p_out ?P)(0 := []), p_work := (p_work ?P)(0 := [])\<rparr>"
  have run: "worker_run (idle_pool (two_claimed 0 0)) ?Q" by (rule worker_run.step [OF two_claims worker_step.dies])
  have "queue_wf (two_claimed 0 0)" by (simp add: two_claimed_def queue_wf_def store_of_def row_of_def default_max_retry_def)
  then have "pool_ok ?Q" by (intro run_pool_ok [OF run] idle_pool_ok)
  moreover have "processing 1 (two_claimed 1 1)" by (simp add: processing_def two_claimed_def store_of_def row_of_def status_defs)
  ultimately show ?thesis using run by (intro exI [of _ ?Q]) (auto simp: stranded_def claimed_pool_def idle_pool_def unlock_def processing_def)
qed

end
