(* ===== verification/Schema_Config.thy ===== *)
theory Schema_Config
  imports Row_Store
begin

text \<open>
  Checking column configurations against the metadata (\<open>internal/service/schema\<close>:
  \<open>column_virtual.go\<close> but for the two loaders of relationships, \<open>formula.go\<close>). All of it reads: the
  operations take the metadata as a value and only use up the schedule of failing statements.

  The lemmas say that a normalised configuration names columns that exist, and that a formula that
  was accepted and stored can always be calculated: the engine finds an order of the formulas of
  the table, for any subset of fields it is asked for.
\<close>

section \<open>Columns by name and id\<close>

definition lift_op :: "string + 'a \<Rightarrow> 'a db_op" where
  "lift_op r = (case r of Inl e \<Rightarrow> fail (CalcErr e) | Inr x \<Rightarrow> ret x)"

text \<open>\<open>fmt.Errorf("prefix: %w", err)\<close>\<close>

definition prefixed :: "string \<Rightarrow> cerr \<Rightarrow> cerr" where
  "prefixed p e = CalcErr (p @ '': '' @ cerr_text e)"

definition column_at :: "service_env \<Rightarrow> string \<Rightarrow> string \<Rightarrow> string \<Rightarrow> string \<Rightarrow> column_row option" where
  "column_at sv tid baseID tbl name =
     find (\<lambda>c. mc_tenant c = tid \<and> mc_base c = baseID \<and> mc_table c = tbl \<and> mc_name c = name) (lc_columns (sv_meta sv))"

definition link_at :: "service_env \<Rightarrow> string \<Rightarrow> string \<Rightarrow> string \<Rightarrow> string \<Rightarrow> column_row option" where
  "link_at sv tid baseID tbl name =
     find (\<lambda>c. mc_tenant c = tid \<and> mc_base c = baseID \<and> mc_table c = tbl \<and> mc_name c = name \<and> mc_type c = ''link'') (lc_columns (sv_meta sv))"

definition column_missing :: "string \<Rightarrow> string \<Rightarrow> cerr" where
  "column_missing ref tbl = CalcErr (''column '' @ quoted ref @ '' not found on table '' @ quoted tbl)"

text \<open>
  \<open>id = $4::uuid\<close>: two texts denote the same id when they parse to the same one. PostgreSQL reads
  the forms \<open>uuid.Parse\<close> reads, but for the prefix \<open>urn:uuid:\<close>, which is left out.
\<close>

definition same_uuid :: "uuid_lib \<Rightarrow> string \<Rightarrow> string \<Rightarrow> bool" where
  "same_uuid ul a b = (ul_parse ul a \<noteq> None \<and> ul_parse ul a = ul_parse ul b)"

definition ResolveColumnName :: "uuid_lib \<Rightarrow> service_env \<Rightarrow> request_ctx \<Rightarrow> string \<Rightarrow> string \<Rightarrow> string \<Rightarrow> string db_op" where
  "ResolveColumnName ul sv rq tid tableKey ref =
     (if ref = [] then fail (CalcErr ''column ref is required'')
      else
        dbind (ResolveTableName sv rq tableKey) (\<lambda>tbl.
        dbind (BaseID sv rq) (\<lambda>baseID.
        dbind (dquery (\<lambda>_. column_at sv tid baseID tbl ref)) (\<lambda>r.
          case r of
            Some c \<Rightarrow> ret (mc_name c)
          | None \<Rightarrow>
              if ul_parse ul ref = None then fail (column_missing ref tbl)
              else dbind (dquery (\<lambda>_. find (\<lambda>c. mc_tenant c = tid \<and> mc_base c = baseID \<and> mc_table c = tbl \<and> same_uuid ul ref (mc_id c))
                     (lc_columns (sv_meta sv)))) (\<lambda>r.
                case r of Some c \<Rightarrow> ret (mc_name c) | None \<Rightarrow> fail (column_missing ref tbl))))))"

definition ResolveColumnUUID :: "uuid_lib \<Rightarrow> service_env \<Rightarrow> request_ctx \<Rightarrow> string \<Rightarrow> string \<Rightarrow> string \<Rightarrow> string db_op" where
  "ResolveColumnUUID ul sv rq tid tableKey ref =
     dbind (ResolveColumnName ul sv rq tid tableKey ref) (\<lambda>name.
     dbind (ResolveTableName sv rq tableKey) (\<lambda>tbl.
     dbind (BaseID sv rq) (\<lambda>baseID.
     dbind (dquery (\<lambda>_. column_at sv tid baseID tbl name)) (\<lambda>r.
       case r of Some c \<Rightarrow> ret (mc_id c) | None \<Rightarrow> fail NoRows))))"

definition ResolveColumnDBID :: "uuid_lib \<Rightarrow> service_env \<Rightarrow> request_ctx \<Rightarrow> string \<Rightarrow> string \<Rightarrow> string \<Rightarrow> string db_op" where
  "ResolveColumnDBID ul sv rq tid tableKey ref =
     (if ref = [] then fail (CalcErr ''column ref is required'')
      else if ul_parse ul ref \<noteq> None then
        dbind (BaseID sv rq) (\<lambda>baseID.
        dbind (dquery (\<lambda>_. find (\<lambda>c. same_uuid ul ref (mc_id c) \<and> mc_tenant c = tid \<and> mc_base c = baseID) (lc_columns (sv_meta sv)))) (\<lambda>r.
          case r of Some c \<Rightarrow> ret (mc_id c) | None \<Rightarrow> fail (CalcErr ''column not found'')))
      else if tableKey = [] then fail (CalcErr ''table_name is required when column ref is a name'')
      else ResolveColumnUUID ul sv rq tid tableKey ref)"

fun normalize_names :: "(string \<Rightarrow> string db_op) \<Rightarrow> string list \<Rightarrow> string set \<Rightarrow> string list db_op" where
  "normalize_names res [] seen = ret []"
| "normalize_names res (ref # refs) seen =
     (if ref = [] then normalize_names res refs seen
      else dbind (res ref) (\<lambda>name.
        if name \<in> seen then normalize_names res refs seen
        else dbind (normalize_names res refs (insert name seen)) (\<lambda>ns. ret (name # ns))))"

definition NormalizeColumnNames ::
    "uuid_lib \<Rightarrow> service_env \<Rightarrow> request_ctx \<Rightarrow> string \<Rightarrow> string \<Rightarrow> string list \<Rightarrow> string list db_op" where
  "NormalizeColumnNames ul sv rq tid tableKey refs = normalize_names (ResolveColumnName ul sv rq tid tableKey) refs {}"

section \<open>Configurations\<close>

definition or_else :: "string \<Rightarrow> string \<Rightarrow> string" where
  "or_else a b = (if a = [] then b else a)"

text \<open>Replaces the column a key names by its name; an empty key stays.\<close>

definition resolve_key ::
    "runtime \<Rightarrow> uuid_lib \<Rightarrow> service_env \<Rightarrow> request_ctx \<Rightarrow> string \<Rightarrow> string \<Rightarrow> string \<Rightarrow> string \<Rightarrow> goobj \<Rightarrow> goobj db_op" where
  "resolve_key rt ul sv rq tid tbl what key out =
     (let ref = CfgString rt out key in
      if ref = [] then ret out
      else dbind (wrap_err (prefixed (what @ '' '' @ key)) (ResolveColumnName ul sv rq tid tbl ref)) (\<lambda>name. ret (map_put key (VStr name) out)))"

definition schema_NormalizeRelationshipConfig ::
    "runtime \<Rightarrow> uuid_lib \<Rightarrow> service_env \<Rightarrow> request_ctx \<Rightarrow> string \<Rightarrow> string \<Rightarrow> goobj \<Rightarrow> goobj db_op" where
  "schema_NormalizeRelationshipConfig rt ul sv rq tid sourceTable cfg =
     dbind (lift_op (NormalizeRelationshipConfig rt cfg)) (\<lambda>out.
     dbind (wrap_err (prefixed ''relationship target_table_name'') (ResolveTableName sv rq (CfgString rt out ''target_table_name''))) (\<lambda>target.
     dbind (resolve_key rt ul sv rq tid target ''relationship'' ''link_column_id'' (map_put ''target_table_name'' (VStr target) out)) (\<lambda>out.
       resolve_key rt ul sv rq tid sourceTable ''relationship'' ''target_column_id'' out)))"

definition NormalizeLookupConfig ::
    "runtime \<Rightarrow> uuid_lib \<Rightarrow> service_env \<Rightarrow> request_ctx \<Rightarrow> string \<Rightarrow> string \<Rightarrow> goobj \<Rightarrow> goobj db_op" where
  "NormalizeLookupConfig rt ul sv rq tid sourceTable cfg =
     (let relRef = or_else (CfgString rt cfg ''relation_column_id'') (CfgString rt cfg ''link_field_id'');
          fieldRef = or_else (CfgString rt cfg ''target_column_id'') (CfgString rt cfg ''target_field_id'')
      in
      if relRef = [] \<or> fieldRef = [] then fail (CalcErr ''lookup config requires relation_column_id and target_column_id'')
      else
        dbind (wrap_err (prefixed ''lookup relation_column_id'') (ResolveColumnName ul sv rq tid sourceTable relRef)) (\<lambda>relName.
        dbind (BaseID sv rq) (\<lambda>baseID.
        dbind (dquery (\<lambda>_. link_at sv tid baseID sourceTable relName)) (\<lambda>rel.
          case rel of
            None \<Rightarrow> fail (CalcErr ''lookup relation_column_id must reference a relationship column on the same table'')
          | Some rel \<Rightarrow>
              dbind (wrap_err (prefixed ''lookup: invalid relationship config'') (lift_op (NormalizeRelationshipConfig rt (mc_config rel)))) (\<lambda>normRel.
              dbind (ResolveTableName sv rq (CfgString rt normRel ''target_table_name'')) (\<lambda>target.
              dbind (wrap_err (prefixed ''lookup target_column_id'') (ResolveColumnName ul sv rq tid target fieldRef)) (\<lambda>fieldName.
              let out = put_default ''deps'' (VStrs [relName, fieldName])
                    (map_put ''target_column_id'' (VStr fieldName) (map_put ''relation_column_id'' (VStr relName) cfg))
              in dbind (lift_op (ValidateLinkedFilter out)) (\<lambda>_. ret out))))))))"

definition NormalizeRollupConfig ::
    "runtime \<Rightarrow> uuid_lib \<Rightarrow> service_env \<Rightarrow> request_ctx \<Rightarrow> string \<Rightarrow> string \<Rightarrow> goobj \<Rightarrow> goobj db_op" where
  "NormalizeRollupConfig rt ul sv rq tid sourceTable cfg =
     dbind (lift_op (ValidateRollupConfig rt cfg)) (\<lambda>_.
     let relRef = or_else (CfgString rt cfg ''relation_column_id'') (CfgString rt cfg ''link_field_id'') in
     dbind (wrap_err (prefixed ''rollup relation_column_id'') (ResolveColumnName ul sv rq tid sourceTable relRef)) (\<lambda>relName.
     let out0 = map_put ''relation_column_id'' (VStr relName) cfg;
         out = (if CfgString rt out0 ''aggregate'' = [] \<and> CfgString rt out0 ''aggregation'' \<noteq> []
                then map_put ''aggregate'' (VStr (CfgString rt out0 ''aggregation'')) out0 else out0);
         fieldRef = or_else (CfgString rt out ''target_column_id'') (CfgString rt out ''target_field_id'')
     in
     if fieldRef = [] then ret out
     else
       dbind (BaseID sv rq) (\<lambda>baseID.
       dbind (wrap_err (\<lambda>_. CalcErr ''rollup relation_column_id: relationship column not found'')
         (dbind (dquery (\<lambda>_. link_at sv tid baseID sourceTable relName)) (\<lambda>r. case r of None \<Rightarrow> fail NoRows | Some c \<Rightarrow> ret c))) (\<lambda>rel.
       dbind (ResolveTableName sv rq (CfgString rt (mc_config rel) ''target_table_name'')) (\<lambda>target.
       dbind (wrap_err (prefixed ''rollup target_column_id'') (ResolveColumnName ul sv rq tid target fieldRef)) (\<lambda>fieldName.
         ret (map_put ''target_column_id'' (VStr fieldName) out)))))))"

section \<open>Formulas\<close>

definition formulaExprsByName :: "runtime \<Rightarrow> full_column_meta list \<Rightarrow> (string \<times> string) list" where
  "formulaExprsByName rt cols =
     fold (\<lambda>c m. if fc_Kind c = ''formula'' \<and> FormulaExpression rt (fc_Config c) \<noteq> []
        then map_put (fc_Name c) (FormulaExpression rt (fc_Config c)) m else m) cols []"

definition knownFormulaColumns :: "full_column_meta list \<Rightarrow> string \<Rightarrow> string set" where
  "knownFormulaColumns cols editingName =
     fc_Name ` set (filter (\<lambda>c. fc_Name c \<noteq> editingName \<and> FormulaRefAllowed (fc_Kind c)) cols)"

definition ValidateFormulaExpression ::
    "runtime \<Rightarrow> (fdef list \<Rightarrow> string list) \<Rightarrow> service_env \<Rightarrow> request_ctx \<Rightarrow> string \<Rightarrow> string \<Rightarrow> string \<Rightarrow> unit db_op" where
  "ValidateFormulaExpression rt ords sv rq tableKey columnName expr =
     dbind (LoadAllColumnMeta rt sv rq tableKey) (\<lambda>allCols.
       let formulas = formulaExprsByName rt allCols in
       case (if columnName = [] then None else DetectCycle (ords (merged_defs formulas columnName expr)) formulas columnName expr) of
         Some e \<Rightarrow> fail (ErrSort e)
       | None \<Rightarrow>
           (case Validate rt expr (Some (knownFormulaColumns allCols columnName)) of
              Inl e \<Rightarrow> fail (ErrFormula e)
            | Inr _ \<Rightarrow> ret ()))"

definition CompileFormulaForTable :: "runtime \<Rightarrow> service_env \<Rightarrow> request_ctx \<Rightarrow> string \<Rightarrow> string \<Rightarrow> string db_op" where
  "CompileFormulaForTable rt sv rq tableKey expr =
     dbind (LoadAllColumnMeta rt sv rq tableKey) (\<lambda>allCols.
       case Validate rt expr (Some (knownFormulaColumns allCols [])) of
         Inl e \<Rightarrow> fail (ErrFormula e)
       | Inr _ \<Rightarrow> ret expr)"

section \<open>Reading\<close>

context db_read
begin

lemma keeps_lift_op [keep_rules]: "keeps I (lift_op r)"
  unfolding lift_op_def by (intro keep_rules)

lemma keeps_ResolveTableName [keep_rules]: "keeps I (ResolveTableName sv rq t)"
  unfolding ResolveTableName_def by (intro keep_rules)

lemma keeps_ResolveColumnName [keep_rules]: "keeps I (ResolveColumnName ul sv rq tid t r)"
  unfolding ResolveColumnName_def by (intro keep_rules)

lemma keeps_NormalizeLookupConfig [keep_rules]: "keeps I (NormalizeLookupConfig rt ul sv rq tid t cfg)"
  unfolding NormalizeLookupConfig_def Let_def by (intro keep_rules)

lemma keeps_NormalizeRollupConfig [keep_rules]: "keeps I (NormalizeRollupConfig rt ul sv rq tid t cfg)"
  unfolding NormalizeRollupConfig_def Let_def by (intro keep_rules)

lemma keeps_ValidateFormulaExpression [keep_rules]: "keeps I (ValidateFormulaExpression rt ords sv rq t n e)"
  unfolding ValidateFormulaExpression_def Let_def by (intro keep_rules)

end

section \<open>Names that exist\<close>

text \<open>A result of an operation that came through its first part.\<close>

lemma dbind_ok: "dbind m f db = (Inr y, db') \<longleftrightarrow> (\<exists>x d. m db = (Inr x, d) \<and> f x d = (Inr y, db'))"
  by (auto simp: dbind_def split: prod.splits sum.splits)

lemma wrap_err_ok [simp]: "wrap_err w m db = (Inr y, db') \<longleftrightarrow> m db = (Inr y, db')"
  by (auto simp: wrap_err_def split: prod.splits sum.splits)

lemma lift_op_ok [simp]: "lift_op r db = (Inr y, db') \<longleftrightarrow> r = Inr y \<and> db' = db"
  by (auto simp: lift_op_def ret_def fail_def split: sum.splits)

lemma ret_ok [simp]: "ret x db = (Inr y, db') \<longleftrightarrow> y = x \<and> db' = db"
  by (auto simp: ret_def)

lemma fail_ok [simp]: "fail e db \<noteq> (Inr y, db')"
  by (simp add: fail_def)

lemmas op_ok = dbind_ok wrap_err_ok lift_op_ok ret_ok fail_ok

lemma ResolveTableName_ok: "ResolveTableName sv rq t db = (Inr n, db') \<Longrightarrow> n = t \<and> t \<noteq> []"
proof -
  assume "ResolveTableName sv rq t db = (Inr n, db')"
  then obtain tid b ts d d' where "t \<noteq> []" "dquery (\<lambda>_. tables_of sv tid b t) d = (Inr ts, d')"
    and n: "(case ts of [] \<Rightarrow> fail NoRows | r # _ \<Rightarrow> ret (mt_name r)) d' = (Inr n, db')"
    by (auto simp: ResolveTableName_def op_ok split: if_splits)
  moreover from this(2) have "ts = tables_of sv tid b t" by (auto dest: dquery_Inr)
  moreover from n obtain r rs where "ts = r # rs" "n = mt_name r" by (cases ts) auto
  ultimately have "t \<noteq> [] \<and> r \<in> set (tables_of sv tid b t) \<and> n = mt_name r" by (metis list.set_intros(1))
  then show ?thesis by (auto simp: tables_of_def)
qed

text \<open>The column that a reference denotes: by name first, then by id.\<close>

definition names_column :: "uuid_lib \<Rightarrow> service_env \<Rightarrow> string \<Rightarrow> string \<Rightarrow> string \<Rightarrow> column_row \<Rightarrow> bool" where
  "names_column ul sv tid tbl ref c \<longleftrightarrow>
     c \<in> set (lc_columns (sv_meta sv)) \<and> mc_tenant c = tid \<and> mc_table c = tbl \<and> (mc_name c = ref \<or> same_uuid ul ref (mc_id c))"

lemma find_in: "find P xs = Some x \<Longrightarrow> x \<in> set xs \<and> P x"
  by (auto simp: find_Some_iff)

lemma ResolveColumnName_exists:
  assumes "ResolveColumnName ul sv rq tid tbl ref db = (Inr name, db')"
  shows "\<exists>c. names_column ul sv tid tbl ref c \<and> mc_name c = name"
proof -
  let ?at = "\<lambda>b c. mc_tenant c = tid \<and> mc_base c = b \<and> mc_table c = tbl \<and> same_uuid ul ref (mc_id c)"
  from assms obtain b r d d1 where q: "dquery (\<lambda>_. column_at sv tid b tbl ref) d = (Inr r, d1)"
    and k: "(case r of Some c \<Rightarrow> ret (mc_name c)
          | None \<Rightarrow> if ul_parse ul ref = None then fail (column_missing ref tbl)
              else dbind (dquery (\<lambda>_. find (?at b) (lc_columns (sv_meta sv)))) (\<lambda>r.
                case r of Some c \<Rightarrow> ret (mc_name c) | None \<Rightarrow> fail (column_missing ref tbl))) d1 = (Inr name, db')"
    unfolding ResolveColumnName_def by (auto simp: dbind_ok dest!: ResolveTableName_ok split: if_splits)
  show ?thesis
  proof (cases r)
    case (Some c)
    moreover from q have "r = column_at sv tid b tbl ref" by (auto dest: dquery_Inr)
    ultimately show ?thesis using k by (intro exI [of _ c]) (auto simp: names_column_def column_at_def dest!: find_in)
  next
    case None
    with k obtain r' d2 where "dquery (\<lambda>_. find (?at b) (lc_columns (sv_meta sv))) d1 = (Inr r', d2)"
      and k': "(case r' of Some c \<Rightarrow> ret (mc_name c) | None \<Rightarrow> fail (column_missing ref tbl)) d2 = (Inr name, db')"
      by (auto simp: dbind_ok split: if_splits)
    then have "r' = find (?at b) (lc_columns (sv_meta sv))" by (auto dest: dquery_Inr)
    moreover from k' obtain c where "r' = Some c" "name = mc_name c" by (cases r') auto
    ultimately have "names_column ul sv tid tbl ref c \<and> mc_name c = name"
      using find_in [of "?at b" "lc_columns (sv_meta sv)" c] by (auto simp: names_column_def)
    then show ?thesis ..
  qed
qed

lemma link_at_Some:
  "link_at sv tid b tbl name = Some c \<Longrightarrow>
   c \<in> set (lc_columns (sv_meta sv)) \<and> mc_tenant c = tid \<and> mc_base c = b \<and> mc_table c = tbl \<and> mc_name c = name \<and> mc_type c = ''link''"
  by (auto simp: link_at_def dest: find_in)

text \<open>
  A lookup that is accepted names a link column of its own table and a column of the table that
  the link points to, both by their names.
\<close>

lemma NormalizeLookupConfig_names:
  assumes "NormalizeLookupConfig rt ul sv rq tid tbl cfg db = (Inr out, db')"
  shows "\<exists>rel c target. rel \<in> set (lc_columns (sv_meta sv)) \<and> mc_table rel = tbl \<and> mc_type rel = ''link'' \<and>
    obj_get out ''relation_column_id'' = VStr (mc_name rel) \<and>
    map_sum id (\<lambda>m. CfgString rt m ''target_table_name'') (NormalizeRelationshipConfig rt (mc_config rel)) = Inr target \<and>
    c \<in> set (lc_columns (sv_meta sv)) \<and> mc_table c = target \<and> obj_get out ''target_column_id'' = VStr (mc_name c)"
proof -
  let ?rel = "or_else (CfgString rt cfg ''relation_column_id'') (CfgString rt cfg ''link_field_id'')"
  let ?fld = "or_else (CfgString rt cfg ''target_column_id'') (CfgString rt cfg ''target_field_id'')"
  from assms obtain relName b r d d1 where q: "dquery (\<lambda>_. link_at sv tid b tbl relName) d = (Inr r, d1)"
    and k: "(case r of None \<Rightarrow> fail (CalcErr ''lookup relation_column_id must reference a relationship column on the same table'')
          | Some rel \<Rightarrow>
              dbind (wrap_err (prefixed ''lookup: invalid relationship config'') (lift_op (NormalizeRelationshipConfig rt (mc_config rel)))) (\<lambda>normRel.
              dbind (ResolveTableName sv rq (CfgString rt normRel ''target_table_name'')) (\<lambda>target.
              dbind (wrap_err (prefixed ''lookup target_column_id'') (ResolveColumnName ul sv rq tid target ?fld)) (\<lambda>fieldName.
              let out = put_default ''deps'' (VStrs [relName, fieldName])
                    (map_put ''target_column_id'' (VStr fieldName) (map_put ''relation_column_id'' (VStr relName) cfg))
              in dbind (lift_op (ValidateLinkedFilter out)) (\<lambda>_. ret out))))) d1 = (Inr out, db')"
    unfolding NormalizeLookupConfig_def Let_def by (auto simp: dbind_ok split: if_splits)
  from k obtain rel where r: "r = Some rel" by (cases r) auto
  with q have l: "link_at sv tid b tbl relName = Some rel" by (auto dest: dquery_Inr)
  from k r obtain norm name d2 d3 where n: "NormalizeRelationshipConfig rt (mc_config rel) = Inr norm"
    and c: "ResolveColumnName ul sv rq tid (CfgString rt norm ''target_table_name'') ?fld d2 = (Inr name, d3)"
    and o: "out = put_default ''deps'' (VStrs [relName, name]) (map_put ''target_column_id'' (VStr name) (map_put ''relation_column_id'' (VStr relName) cfg))"
    by (auto simp: dbind_ok Let_def dest!: ResolveTableName_ok)
  from ResolveColumnName_exists [OF c] obtain col
    where "col \<in> set (lc_columns (sv_meta sv))" "mc_table col = CfgString rt norm ''target_table_name''" "mc_name col = name"
    by (auto simp: names_column_def)
  with link_at_Some [OF l] n show ?thesis
    by (intro exI [of _ rel] exI [of _ col] exI [of _ "CfgString rt norm ''target_table_name''"]) (simp add: o put_default_def)
qed

section \<open>Formulas that were accepted can be calculated\<close>

lemma dmap_ok: "dmap f xs db = (Inr ys, db') \<Longrightarrow> list_all2 (\<lambda>x y. \<exists>d d'. f x d = (Inr y, d')) xs ys"
  by (induction xs arbitrary: ys db) (auto simp: op_ok)

lemma column_meta_of_ok:
  "column_meta_of rt sv rq tid c d = (Inr m, d') \<Longrightarrow> fc_Name m = mc_name c \<and> fc_Kind m = Kind (mc_type c) \<and> fc_Config m = mc_config c"
  by (auto simp: column_meta_of_def op_ok)

text \<open>Whatever the cache did not hold is read from the rows of the table.\<close>

lemma LoadAllColumnMeta_rows:
  assumes "LoadAllColumnMeta rt sv rq t db = (Inr cols, db')" "fst (resolve_table sv rq t db) = Inr (tbl, tid, b)"
    "sv_cache sv (CacheKeyColumns tid tbl) = None"
  shows "list_all2 (\<lambda>c m. fc_Name m = mc_name c \<and> fc_Kind m = Kind (mc_type c) \<and> fc_Config m = mc_config c)
    (columns_of sv tid b tbl) cols"
proof -
  from assms obtain cs d1 d2 where "dquery (\<lambda>_. columns_of sv tid b tbl) d1 = (Inr cs, d2)"
    and d: "dmap (column_meta_of rt sv rq tid) cs d2 = (Inr cols, db')"
    by (auto simp: LoadAllColumnMeta_def dbind_ok)
  then have "cs = columns_of sv tid b tbl" by (auto dest: dquery_Inr)
  with dmap_ok [OF d] show ?thesis by (auto elim!: list_all2_mono dest: column_meta_of_ok)
qed

lemma formulaExprs_fold:
  assumes "distinct (map fc_Name cols)" "distinct (map fst m)"
  shows "distinct (map fst (fold (\<lambda>c m. if fc_Kind c = ''formula'' \<and> FormulaExpression rt (fc_Config c) \<noteq> []
        then map_put (fc_Name c) (FormulaExpression rt (fc_Config c)) m else m) cols m))"
    and "c \<in> set cols \<Longrightarrow> fc_Kind c = ''formula'' \<Longrightarrow> FormulaExpression rt (fc_Config c) \<noteq> [] \<Longrightarrow>
      map_of (fold (\<lambda>c m. if fc_Kind c = ''formula'' \<and> FormulaExpression rt (fc_Config c) \<noteq> []
        then map_put (fc_Name c) (FormulaExpression rt (fc_Config c)) m else m) cols m) (fc_Name c) = Some (FormulaExpression rt (fc_Config c))"
proof -
  let ?f = "\<lambda>c m. if fc_Kind c = ''formula'' \<and> FormulaExpression rt (fc_Config c) \<noteq> []
        then map_put (fc_Name c) (FormulaExpression rt (fc_Config c)) m else m"
  show "distinct (map fst (fold ?f cols m))"
    using assms(2) by (induction cols arbitrary: m) auto
  have keep: "n \<notin> fc_Name ` set cs \<Longrightarrow> map_of (fold ?f cs m) n = map_of m n" for n cs m
    by (induction cs arbitrary: m) auto
  show "map_of (fold ?f cols m) (fc_Name c) = Some (FormulaExpression rt (fc_Config c))"
    if "c \<in> set cols" "fc_Kind c = ''formula''" "FormulaExpression rt (fc_Config c) \<noteq> []"
    using assms(1) that by (induction cols arbitrary: m) (auto simp: keep)
qed

lemma formulaExprs:
  assumes "distinct (map fc_Name cols)"
  shows "distinct (map fst (formulaExprsByName rt cols))"
    and "c \<in> set cols \<Longrightarrow> fc_Kind c = ''formula'' \<Longrightarrow> FormulaExpression rt (fc_Config c) \<noteq> [] \<Longrightarrow>
      map_of (formulaExprsByName rt cols) (fc_Name c) = Some (FormulaExpression rt (fc_Config c))"
  using formulaExprs_fold [OF assms, of "[]"] by (simp_all add: formulaExprsByName_def)

lemma list_all2_member: "list_all2 P xs ys \<Longrightarrow> x \<in> set xs \<Longrightarrow> \<exists>y \<in> set ys. P x y"
  by (induction rule: list_all2_induct) auto

lemma rows_names:
  "list_all2 (\<lambda>c m. fc_Name m = mc_name c \<and> fc_Kind m = Kind (mc_type c) \<and> fc_Config m = mc_config c) cs cols \<Longrightarrow>
   map fc_Name cols = map mc_name cs"
  by (induction rule: list_all2_induct) auto

text \<open>The rows of a table, and the fields the engine makes of them.\<close>

definition rows_of :: "meta_db \<Rightarrow> string \<Rightarrow> string \<Rightarrow> string \<Rightarrow> column_row list" where
  "rows_of md tid b tbl = filter (\<lambda>c. mc_tenant c = tid \<and> mc_base c = b \<and> mc_table c = tbl) (lc_columns md)"

text \<open>
  The metadata after the row of a formula column was inserted or updated. The other rows of the
  table are as before, or deleted.
\<close>

definition stores_formula ::
    "runtime \<Rightarrow> service_env \<Rightarrow> string \<Rightarrow> string \<Rightarrow> string \<Rightarrow> string \<Rightarrow> string \<Rightarrow> meta_db \<Rightarrow> bool" where
  "stores_formula rt sv tid b tbl name expr md \<longleftrightarrow>
     distinct (map mc_name (rows_of md tid b tbl)) \<and>
     (\<forall>c \<in> set (rows_of md tid b tbl).
        (if mc_name c = name then FormulaExpression rt (mc_config c) = expr else c \<in> set (columns_of sv tid b tbl)) \<and>
        (to_lower (mc_type c) = ''formula'' \<longrightarrow> mc_type c = ''formula''))"

lemma set_fields_of:
  "set (fields_of md tid b tbl) = (\<lambda>c. \<lparr>f_ID = mc_id c, f_Name = mc_name c, f_TypeID = mc_type c, f_Config = mc_config c\<rparr>) ` set (rows_of md tid b tbl)"
  by (simp add: fields_of_def rows_of_def)

lemma distinct_fields_of: "distinct (map mc_name (rows_of md tid b tbl)) \<Longrightarrow> distinct (map f_Name (fields_of md tid b tbl))"
proof -
  have "mset (map f_Name (fields_of md tid b tbl)) = mset (map mc_name (rows_of md tid b tbl))"
    by (simp add: fields_of_def rows_of_def comp_def image_mset.compositionality)
  then show "distinct (map mc_name (rows_of md tid b tbl)) \<Longrightarrow> ?thesis" using mset_eq_imp_distinct_iff by blast
qed

lemma distinct_formula_defs: "distinct (map f_Name fs) \<Longrightarrow> distinct (map Name (formula_defs rt only fs))"
  by (induction fs) (auto simp: formula_defs_def fields_of_type_def)

text \<open>The only errors of \<^const>\<open>ComputeFields\<close> after the order was found are panics.\<close>

lemma cell_loop_err: "cell_loop f fs out db = (Inl e, db') \<Longrightarrow> \<exists>p. e = CalcPanic p"
  by (induction fs arbitrary: out db) (auto simp: ret_def split: prod.splits sum.splits cerr.splits)

lemma ComputeFields_sorts:
  assumes "is_ok (Sort (ords (formula_defs rt only fs)) (formula_defs rt only fs))"
  shows "fst (ComputeFields rt cd ords r fs vt only db) \<noteq> Inl (ErrSort e)"
  using assms
  by (auto simp: ComputeFields_def Let_def is_ok_iff fail_def ret_def dbind_def split: sum.splits prod.splits dest: cell_loop_err)

text \<open>Fewer formulas have fewer references.\<close>

lemma dep_graph_mono: "set ds \<subseteq> set es \<Longrightarrow> dep_graph ds \<subseteq> dep_graph es"
  by (auto simp: dep_graph_def names_def)

lemma Sort_subset:
  assumes "is_ok (Sort (ords es) es)" "distinct (map Name es)" "set ds \<subseteq> set es" "distinct (map Name ds)"
    "\<forall>defs. enumerates (ords defs) defs"
  shows "is_ok (Sort (ords ds) ds)"
  using Sort_ok_iff [OF assms(2), of "ords es"] Sort_ok_iff [OF assms(4), of "ords ds"] assms(1,5) dep_graph_mono [OF assms(3)]
  by (blast intro: acyclic_subset)

lemma ValidateFormulaExpression_ok:
  assumes "fst (ValidateFormulaExpression rt ords sv rq t name expr db) = Inr ()" "name \<noteq> []"
  obtains cols db' where "LoadAllColumnMeta rt sv rq t db = (Inr cols, db')"
    "is_ok (Sort (ords (merged_defs (formulaExprsByName rt cols) name expr)) (merged_defs (formulaExprsByName rt cols) name expr))"
    "Validate rt expr (Some (knownFormulaColumns cols name)) = Inr ()"
proof -
  from assms(1) obtain cols db' where l: "LoadAllColumnMeta rt sv rq t db = (Inr cols, db')"
    by (auto simp: ValidateFormulaExpression_def dbind_def split: prod.splits sum.splits)
  show thesis
    using assms l by (intro that [OF l])
      (auto simp: ValidateFormulaExpression_def dbind_def Let_def fail_def DetectCycle_def is_ok_def split: sum.splits if_splits option.splits)
qed

lemma Validate_ok:
  assumes "Validate rt expr (Some K) = Inr ()"
  shows "is_ok (Parse rt expr) \<and> (\<forall>n. Parse rt expr = Inr (Some n) \<longrightarrow> set (walkRefs n) \<subseteq> K)"
  using assms by (auto simp: Validate_def is_ok_def find_None_iff split: sum.splits option.splits)

lemma stored_formulas_checked:
  assumes "stores_formula rt sv tid b tbl name expr md" "distinct (map mc_name (columns_of sv tid b tbl))"
    and rows: "list_all2 (\<lambda>c m. fc_Name m = mc_name c \<and> fc_Kind m = Kind (mc_type c) \<and> fc_Config m = mc_config c) (columns_of sv tid b tbl) cols"
  shows "set (formula_defs rt only (fields_of md tid b tbl)) \<subseteq> set (merged_defs (formulaExprsByName rt cols) name expr)"
    and "distinct (map Name (merged_defs (formulaExprsByName rt cols) name expr))"
proof -
  from assms(2) have d: "distinct (map fc_Name cols)" using rows_names [OF rows] by simp
  from formulaExprs(1) [OF d, of rt] have dk: "distinct (map fst (map_put name expr (formulaExprsByName rt cols)))" by simp
  then show "distinct (map Name (merged_defs (formulaExprsByName rt cols) name expr))"
    by (simp add: merged_defs_def comp_def case_prod_unfold)
  have k: "Kind ''formula'' = ''formula''" by code_simp
  show "set (formula_defs rt only (fields_of md tid b tbl)) \<subseteq> set (merged_defs (formulaExprsByName rt cols) name expr)"
  proof
    fix d assume "d \<in> set (formula_defs rt only (fields_of md tid b tbl))"
    then obtain c where c: "c \<in> set (rows_of md tid b tbl)" "to_lower (mc_type c) = ''formula''" "FormulaExpression rt (mc_config c) \<noteq> []"
      and dc: "d = \<lparr>Name = mc_name c, Expr = FormulaExpression rt (mc_config c)\<rparr>"
      by (auto simp: formula_defs_def fields_of_type_def set_fields_of)
    have "map_of (map_put name expr (formulaExprsByName rt cols)) (mc_name c) = Some (FormulaExpression rt (mc_config c))"
    proof (cases "mc_name c = name")
      case False
      with c assms(1) have "c \<in> set (columns_of sv tid b tbl)" "mc_type c = ''formula''" by (auto simp: stores_formula_def)
      with rows obtain m where "m \<in> set cols" "fc_Name m = mc_name c" "fc_Kind m = ''formula''" "fc_Config m = mc_config c"
        using list_all2_member [OF rows] k by (metis (lifting))
      with formulaExprs(2) [OF d, of m rt] c(3) False show ?thesis by simp
    qed (use c assms(1) in \<open>auto simp: stores_formula_def\<close>)
    from map_of_SomeD [OF this] show "d \<in> set (merged_defs (formulaExprsByName rt cols) name expr)"
      by (force simp: merged_defs_def dc)
  qed
qed

text \<open>
  C40. A formula that \<open>ValidateFormulaExpression\<close> accepts for a column parses and refers only to other
  columns of the table. Once it is stored (by \<open>AddColumn\<close> or \<open>UpdateColumn\<close>), the engine can order the
  formulas of the table: a calculation of any selection of fields of any record never fails with
  a reference cycle, whatever database errors occur during the check or the calculation.
  Assumed: the columns were not taken from the cache, names are unique in the table, and types that
  read as formula in lower case are the built-in type.
\<close>

theorem accepted_formula_computes:
  assumes v: "fst (ValidateFormulaExpression rt ords sv rq tableKey name expr db) = Inr ()" and n: "name \<noteq> []"
    and r: "fst (resolve_table sv rq tableKey db) = Inr (tbl, tid, b)" and c: "sv_cache sv (CacheKeyColumns tid tbl) = None"
    and d: "distinct (map mc_name (columns_of sv tid b tbl))" and o: "\<forall>defs. enumerates (ords defs) defs"
    and s: "stores_formula rt sv tid b tbl name expr md"
  shows "is_ok (Parse rt expr) \<and>
    (\<forall>t. Parse rt expr = Inr (Some t) \<longrightarrow> set (walkRefs t) \<subseteq> mc_name ` set (columns_of sv tid b tbl) - {name}) \<and>
    (\<forall>cd rec vt only db' e. fst (ComputeFields rt cd ords rec (fields_of md tid b tbl) vt only db') \<noteq> Inl (ErrSort e))"
proof -
  obtain cols d1 where l: "LoadAllColumnMeta rt sv rq tableKey db = (Inr cols, d1)"
    and so: "is_ok (Sort (ords (merged_defs (formulaExprsByName rt cols) name expr)) (merged_defs (formulaExprsByName rt cols) name expr))"
    and va: "Validate rt expr (Some (knownFormulaColumns cols name)) = Inr ()"
    using ValidateFormulaExpression_ok [OF v n] by blast
  note rows = LoadAllColumnMeta_rows [OF l r c]
  have "knownFormulaColumns cols name \<subseteq> mc_name ` set (columns_of sv tid b tbl) - {name}"
    using arg_cong [OF rows_names [OF rows], of set] by (auto simp: knownFormulaColumns_def)
  moreover have "is_ok (Sort (ords (formula_defs rt only (fields_of md tid b tbl))) (formula_defs rt only (fields_of md tid b tbl)))" for only
    using Sort_subset [where ords = ords, OF so stored_formulas_checked(2,1) [OF s d rows]] distinct_formula_defs distinct_fields_of s o
    unfolding stores_formula_def by blast
  ultimately show ?thesis using Validate_ok [OF va] ComputeFields_sorts by blast
qed

text \<open>A table with a column \<open>a\<close> and a formula \<open>f\<close> over it; the formula \<open>a\<close> would be replaced by \<open>1+2\<close>.\<close>

definition schema_col :: "string \<Rightarrow> string \<Rightarrow> goobj \<Rightarrow> column_row" where
  "schema_col name ty cfg = \<lparr>mc_tenant = ''a'', mc_base = ''b1'', mc_table = ''t'', mc_id = name, mc_name = name, mc_type = ty,
     mc_nullable = True, mc_position = 1, mc_config = cfg\<rparr>"

definition schema_env :: service_env where
  "schema_env = two_bases\<lparr>sv_meta := \<lparr>lc_tables = lc_tables (sv_meta two_bases),
     lc_columns = [schema_col ''a'' ''formula'' [(''expression'', VStr ''2'')], schema_col ''f'' ''formula'' [(''expression'', VStr ''{{a}}'')]]\<rparr>\<rparr>"

definition schema_md :: meta_db where
  "schema_md = \<lparr>lc_tables = lc_tables (sv_meta two_bases),
     lc_columns = [schema_col ''f'' ''formula'' [(''expression'', VStr ''{{a}}'')], schema_col ''a'' ''formula'' [(''formula'', VStr ''1+2'')]]\<rparr>"

definition name_order :: "fdef list \<Rightarrow> string list" where
  "name_order defs = remdups (map Name defs)"

lemma schema_env_resolve:
  assumes "faults db = []"
  shows "resolve_table schema_env (in_base ''b1'') ''t'' db = (Inr (''t'', ''a'', ''b1''), db)"
proof -
  have t: "trim_space ''b1'' = ''b1''" by code_simp
  have "TenantID schema_env (in_base ''b1'') db = (Inr ''a'', db)"
    using assms by (simp add: TenantID_def ResolveTenantID_def in_base_def dbind_def dquery_ok find_tenant_def two_bases_def schema_env_def ret_def)
  moreover from this have "BaseID schema_env (in_base ''b1'') db = (Inr ''b1'', db)"
    using assms t by (auto simp: BaseID_def ResolveBaseID_def in_base_def dbind_def dquery_ok two_bases_def Let_def schema_env_def ret_def)
  ultimately show ?thesis
    using assms by (simp add: resolve_table_def ResolveTableName_def dbind_def dquery_ok tables_of_def two_bases_def schema_env_def ret_def)
qed

lemma schema_env_columns: "columns_of schema_env ''a'' ''b1'' ''t'' = lc_columns (sv_meta schema_env)"
  by (simp add: columns_of_def tables_of_def schema_env_def two_bases_def schema_col_def)

lemma schema_env_loads:
  assumes "faults db = []"
  shows "\<exists>cols. LoadAllColumnMeta example_rt schema_env (in_base ''b1'') ''t'' db = (Inr cols, db)"
proof -
  have "is_ok (Resolve ''formula'')" by code_simp
  then obtain ty where "Resolve ''formula'' = Inr ty" by (auto simp: is_ok_iff)
  moreover have "sv_cache schema_env = (\<lambda>_. None)" by (simp add: schema_env_def two_bases_def)
  ultimately show ?thesis
    using assms schema_env_columns
    by (simp add: LoadAllColumnMeta_def schema_env_resolve dbind_def dquery_ok column_meta_of_def ColumnPgTypeSQL_def ret_def schema_col_def
        schema_env_def [THEN arg_cong, of "\<lambda>sv. lc_columns (sv_meta sv)"])
qed

lemma schema_env_accepts:
  assumes "faults db = []"
  shows "fst (ValidateFormulaExpression example_rt name_order schema_env (in_base ''b1'') ''t'' ''a'' ''1+2'' db) = Inr ()"
proof -
  have c: "sv_cache schema_env (CacheKeyColumns ''a'' ''t'') = None" by (simp add: schema_env_def two_bases_def)
  from schema_env_loads [OF assms] obtain cols where l: "LoadAllColumnMeta example_rt schema_env (in_base ''b1'') ''t'' db = (Inr cols, db)" by blast
  have "list_all2 (\<lambda>c m. fc_Name m = mc_name c \<and> fc_Kind m = Kind (mc_type c) \<and> fc_Config m = mc_config c)
      (lc_columns (sv_meta schema_env)) cols"
    using LoadAllColumnMeta_rows [OF l _ c, of "''b1''"] schema_env_resolve [OF assms] schema_env_columns by simp
  moreover have k: "Kind ''formula'' = ''formula''" by code_simp
  moreover have e: "FormulaExpression example_rt [(''expression'', VStr ''2'')] = ''2''"
      "FormulaExpression example_rt [(''expression'', VStr ''{{a}}'')] = ''{{a}}''" by code_simp+
  ultimately have f: "formulaExprsByName example_rt cols = [(''a'', ''2''), (''f'', ''{{a}}'')]"
    by (auto simp: schema_env_def schema_col_def list_all2_Cons1 formulaExprsByName_def)
  have s: "is_ok (Sort (name_order (merged_defs [(''a'', ''2''), (''f'', ''{{a}}'')] ''a'' ''1+2'')) (merged_defs [(''a'', ''2''), (''f'', ''{{a}}'')] ''a'' ''1+2''))"
    by code_simp
  have p: "map_sum id (map_option walkRefs) (Parse example_rt ''1+2'') = Inr (Some [])" by code_simp
  then have "Validate example_rt ''1+2'' (Some K) = Inr ()" for K
    by (auto simp: Validate_def split: sum.splits option.splits)
  with s show ?thesis
    by (auto simp: ValidateFormulaExpression_def dbind_def l f Let_def DetectCycle_def is_ok_def ret_def split: sum.splits)
qed

theorem accepted_formula_computes_witness:
  "is_ok (Parse example_rt ''1+2'') \<and>
   fst (ComputeFields example_rt example_codec name_order example_rec (fields_of schema_md ''a'' ''b1'' ''t'') [] [] example_store) \<noteq> Inl (ErrSort ErrCycle)"
proof -
  have f: "faults example_store = []" by (simp add: example_store_def store_of_def)
  have o: "\<forall>defs. enumerates (name_order defs) defs" by (simp add: enumerates_def name_order_def names_def)
  have c: "sv_cache schema_env (CacheKeyColumns ''a'' ''t'') = None" by (simp add: schema_env_def two_bases_def)
  have d: "distinct (map mc_name (columns_of schema_env ''a'' ''b1'' ''t''))"
    by (simp add: schema_env_columns) (simp add: schema_env_def schema_col_def)
  have e: "FormulaExpression example_rt [(''formula'', VStr ''1+2'')] = ''1+2''" by code_simp
  have s: "stores_formula example_rt schema_env ''a'' ''b1'' ''t'' ''a'' ''1+2'' schema_md"
    unfolding stores_formula_def schema_env_columns
    by (auto simp: rows_of_def schema_md_def schema_env_def schema_col_def e)
  have r: "fst (resolve_table schema_env (in_base ''b1'') ''t'' example_store) = Inr (''t'', ''a'', ''b1'')"
    by (simp add: schema_env_resolve f)
  from accepted_formula_computes [OF schema_env_accepts [OF f] _ r c d o s] show ?thesis by blast
qed

end
