(* ===== verification/Spec2Isabelle.thy ===== *)
theory Spec2Isabelle
  imports Formula_Roundtrip Formula_Deps Formula_Laws Column_Types SQL_Where Shared_Config Row_Export Row_Sessions Calc_Workers Schema_Config
begin

text \<open>
  A verification library for the low-code database service (the Go code under \<open>src/internal\<close> and
  \<open>src/pkg\<close>).

  \<^bold>\<open>The program.\<close> Tenants define tables and columns at run time. Records are JSON documents in one
  PostgreSQL relation per tenant or shared by tenants, links between records are rows of a second
  relation. Formula, lookup and rollup columns are calculated: their values are cached in the
  documents and brought up to date by a worker that takes tasks from a queue table; tasks that
  fail again and again become dead letters. Requests filter rows with a small JSON language that is
  translated to SQL.

  \<^bold>\<open>Theories and code.\<close>
  \<^item> \<open>Prelude\<close>, \<open>Go_Value\<close>, \<open>Example_Runtime\<close>: texts, maps and dynamic values of Go. What the code
    takes from libraries (the lexer \<open>xuri/efp\<close>, \<open>shopspring/decimal\<close>, \<open>encoding/json\<close>, \<open>time\<close>,
    \<open>uuid\<close>, \<open>pgx.Identifier.Sanitize\<close>) is a parameter: the records \<open>runtime\<close>, \<open>codec\<close>, \<open>uuid_lib\<close>
    and function arguments. \<open>Example_Runtime\<close> is an instance for the witnesses.
  \<^item> \<open>Formula_Syntax\<close>, \<open>Formula_Parser\<close>, \<open>Formula_Roundtrip\<close> (\<open>internal/formula/parse.go\<close>): the
    recursive descent parser over tokens; it ends on every input, and parses what is printed.
    \<open>Formula_Deps\<close> (\<open>deps.go\<close>, \<open>plan.go\<close>): the order of formulas, with Kahn's algorithm shown
    exact for acyclic references. \<open>Formula_Eval\<close>, \<open>Formula_Date\<close>, \<open>Formula_Laws\<close> (\<open>eval*.go\<close>,
    \<open>decimal.go\<close>): the evaluator with all functions and their laws.
  \<^item> \<open>Numeric\<close> (\<open>internal/numeric\<close>), \<open>Column_Types\<close> (\<open>internal/columntype\<close>): decimal conversion and
    rounding; built-in and tenant column types, validation and normal forms.
  \<^item> \<open>Filter_DSL\<close> (\<open>internal/dsl\<close>), \<open>SQL_Where\<close> (\<open>internal/query\<close>): parser of filters, parameters,
    the SQL condition with its placeholders; no value enters the SQL text. \<open>Memo_Cache\<close>: the two
    concurrent caches, as step relations, return what the cached function returns.
  \<^item> \<open>Shared_Config\<close> (\<open>service/shared/config.go\<close>, \<open>result_type.go\<close>, \<open>virtual.go\<close>): configurations of
    link, lookup, rollup and formula columns.
  \<^item> \<open>Calc_DB\<close>: the relations as a record \<open>calc_db\<close>, every SQL statement of the modelled code as a
    function \<open>st_...\<close>, and operations \<open>'a db_op\<close> that run statements, stop at the first error and
    roll transactions back. The field \<open>faults\<close> is a schedule of failing statements: a result
    without a condition on it holds for every pattern of database errors. \<open>Calc_Queue\<close>
    (\<open>service/calc/queue.go\<close>), \<open>Calc_Link\<close> (\<open>link.go\<close>, \<open>data/link_write.go\<close>), \<open>Calc_Compute\<close>,
    \<open>Calc_Engine\<close>, \<open>Calc_Results\<close> (\<open>types.go\<close>, \<open>meta.go\<close>, \<open>store.go\<close>, \<open>compute.go\<close>, \<open>engine.go\<close>,
    \<open>Drain\<close> of \<open>worker.go\<close>): claims, retries, dead letters, two-way links, cached values, and what a
    processed task leaves behind.
  \<^item> \<open>Calc_Workers\<close>: any number of workers with open claim transactions and row locks.
  \<^item> \<open>Tenant_Store\<close> (\<open>pkg/infra/postgres\<close>: \<open>record_store.go\<close>, \<open>tenant_pool.go\<close>, \<open>shard_pool.go\<close>),
    \<open>Meta_Read\<close> (\<open>service/catalog\<close> and \<open>shared/helpers.go\<close>): the relations of a tenant, and tables,
    columns and types as a request sees them, with the shared cache.
  \<^item> \<open>Cell_Value\<close> (\<open>shared/value.go\<close>, \<open>pg.go\<close>), \<open>Row_Cells\<close> (\<open>data/record_cells.go\<close>,
    \<open>vr_fulltext.go\<close>), \<open>Row_Store\<close>, \<open>Row_Results\<close> (\<open>data/vr_rows.go\<close>, \<open>bulk.go\<close>): cells, documents
    and the handlers of rows. \<open>Row_Query\<close> (\<open>executeVRQuery\<close>, \<open>vr_filter.go\<close>, \<open>limits.go\<close>) and
    \<open>Row_Export\<close> (\<open>row.go\<close>, \<open>query.go\<close>, \<open>ExportRowsTo\<close>): filters over documents, pages, lists,
    searches and exports. \<open>Row_Sessions\<close>: interleaved requests that write records.
  \<^item> \<open>Schema_Config\<close> (\<open>service/schema\<close>: \<open>column_virtual.go\<close>, \<open>formula.go\<close>): how a configuration of a
    link, lookup, rollup or formula column is checked against the metadata.

  \<^bold>\<open>Interfaces.\<close> The locales of \<open>Calc_DB\<close> say what a predicate on the store must keep:
  \<open>db_read\<close> (reading), \<open>db_frame\<close> (operations and transactions), \<open>db_patch\<close> (a conditional write of
  a record), \<open>db_side\<close> (queue and links), \<open>db_inv\<close> (all of them), and \<open>db_rows\<close> of \<open>Row_Store\<close> adds
  creation and deletion of records. Each proves once that the handlers keep the predicate; they
  are interpreted with well-formed queues, links and records (\<open>queue_inv\<close>, \<open>store_rows\<close>), with
  unchanged records (\<open>same_recs\<close>), with a store that does not change at all (\<open>quiet\<close>) and with
  claimed rows (\<open>busy\<close>, \<open>processing\<close>). The caches share the locale of \<open>Memo_Cache\<close>.

  \<^bold>\<open>What is shown.\<close> Parsers and encoders: round trips, well-formed results, termination. The
  dependency order and the cycle test are exact. Generated SQL has one placeholder per argument in
  order and no injected text. The queue: fair claims, no lost task under any fault, no task at two
  workers in any interleaving. Links stay mirrored. A calculated cell is the value of its formula
  over the row it is stored in. Handlers of rows change exactly what they are asked to and keep the
  invariant of the store; concurrent writes of records refine an atomic table. A
  formula that the schema accepted never makes the engine find a cycle. Where the code does
  not do what it means to, a lemma of a section called Defects (or beside the property) computes a
  concrete case.

  \<^bold>\<open>Bounds and fuel.\<close> Go integers are unbounded here except where a width matters: \<open>int32_of\<close> for page
  sizes, 64-bit arithmetic in \<open>MID\<close> and in durations, a \<open>64 word\<close> for the replica counter. Kahn's
  loop gets one round more than there are formulas, the parser one more than there are tokens, and the
  export as many rounds as rows are allowed; lemmas show that the fuel is never used up. Text is
  ASCII: white space and letter case of other characters are not modelled. A map is an association
  list; its order stands for the iteration order of Go, results hold for every order.

  \<^bold>\<open>Not modelled.\<close> Handlers that change metadata (\<open>service/schema\<close>, index and type writes of
  \<open>service/catalog\<close>, \<open>service/platform\<close>): the metadata is a value, only its reads and the checks before
  a change are modelled. SQL text
  of the statements is read as its documented effect; how PostgreSQL evaluates a generated condition is
  a parameter. A commit whose outcome is unknown to the client, read replicas that lag behind, and
  events after a change are left out. \<open>query_exec.go\<close> (but for \<open>mergeFilters\<close>), \<open>lookup.go\<close>,
  \<open>row_lookup.go\<close> and \<open>cascade.go\<close> are not reached by any handler. HTTP, OpenAPI, configuration,
  pools, metrics, rate limits, authentication, migrations, the start of the server and the web
  playground are input and output around this core.
\<close>

end
